(* ===== verification/Core_Error.thy ===== *)
theory Core_Error
  imports Prelude
begin

text \<open>
  The error model of \<^verbatim>\<open>csgdb-core/src/error.rs\<close>: the stable categories, an error as its
  category and a static message, and the result type every operation returns.
\<close>

datatype (plugins only: code) ErrorCode =
    InvalidOpenFlags | InvalidVfs | InvalidFaultRule | InvalidKeyLength | InvalidPath
  | InvalidSql | ParameterCountMismatch | InvalidParameterIndex | InvalidColumnIndex
  | InvalidColumnType | InvalidFieldValue | InvalidQuery | InvalidUtf8 | InvalidStatementState
  | InvalidBusyTimeout | InvalidCheckpointThreshold | InvalidDatabaseName
  | InvalidPoolConfiguration | InvalidSchema | SchemaMismatch | InvalidMigration
  | MigrationMismatch | KeyRequired | KeyStoreUnavailable | PlaintextRequiresOptIn
  | EncryptionBackendUnavailable | StorageBackendUnavailable | DatabaseBusy | DatabaseReadOnly
  | ConstraintViolation | InvalidDatabaseKey | DatabaseCorrupt | QueryInterrupted
  | ReadPoolExhausted | WriteQueueFull | WriteQueueTimeout | ConnectionManagerClosed
  | ConnectionManagerInUse | WriteTaskPanicked | ReentrantRead | ReentrantWrite
  | StorageWriteFailed | StorageSyncFailed | StorageTruncateFailed | Storage

datatype Error = Error (err_code: ErrorCode) (err_message: string)

type_synonym 'a result = "Error + 'a"

text \<open>\<^verbatim>\<open>impl Display for Error\<close> writes the message and nothing else.\<close>

definition display_error :: "Error \<Rightarrow> string" where
  "display_error e = err_message e"

text \<open>The category of a failed result, for statements about which error is returned.\<close>

definition fails_with :: "ErrorCode \<Rightarrow> 'a result \<Rightarrow> bool" where
  "fails_with c r = (case r of Inl e \<Rightarrow> err_code e = c | Inr _ \<Rightarrow> False)"

lemma fails_with_simps [simp]:
  "fails_with c (Inl e) \<longleftrightarrow> err_code e = c"
  "\<not> fails_with c (Inr x)"
  by (simp_all add: fails_with_def)

lemma fails_with_bind [simp]:
  "fails_with c (bind_result m f) \<longleftrightarrow> fails_with c m \<or> (\<exists>x. m = Inr x \<and> fails_with c (f x))"
  by (cases m) auto

end
