(* ===== verification/Core_Value.thy ===== *)
theory Core_Value
  imports Core_Error
begin

text \<open>
  Dynamic values (\<^verbatim>\<open>csgdb-core/src/value.rs\<close>) and checkpoint progress
  (\<^verbatim>\<open>csgdb-core/src/connection.rs\<close>). An \<^verbatim>\<open>i64\<close> is a 64-bit word read with \<^const>\<open>sint\<close>; an
  \<^verbatim>\<open>f64\<close> is its IEEE-754 bit pattern, which is all the code inspects of it (\<^verbatim>\<open>is_finite\<close>);
  text is its UTF-8 bytes; a blob is a list of bytes.
\<close>

section \<open>Floating-point bit patterns\<close>

type_synonym f64 = "64 word"
type_synonym f32 = "32 word"

definition f64_exponent_mask :: f64 where
  "f64_exponent_mask = 0x7FF0000000000000"

definition f64_is_finite :: "f64 \<Rightarrow> bool" where
  "f64_is_finite v = ((v AND f64_exponent_mask) \<noteq> f64_exponent_mask)"

section \<open>Values\<close>

datatype ValueType = TInteger | TReal | TText | TBlob | TNull

definition value_type_repr :: "ValueType \<Rightarrow> int" where
  "value_type_repr t = (case t of TInteger \<Rightarrow> 1 | TReal \<Rightarrow> 2 | TText \<Rightarrow> 3 | TBlob \<Rightarrow> 4 | TNull \<Rightarrow> 5)"

datatype Value = VNull | VInteger i64 | VReal f64 | VText string | VBlob "u8 list"

datatype ValueRef = RNull | RInteger i64 | RReal f64 | RText string | RBlob "u8 list"

fun value_type :: "Value \<Rightarrow> ValueType" where
  "value_type VNull = TNull"
| "value_type (VInteger _) = TInteger"
| "value_type (VReal _) = TReal"
| "value_type (VText _) = TText"
| "value_type (VBlob _) = TBlob"

fun as_ref :: "Value \<Rightarrow> ValueRef" where
  "as_ref VNull = RNull"
| "as_ref (VInteger v) = RInteger v"
| "as_ref (VReal v) = RReal v"
| "as_ref (VText v) = RText v"
| "as_ref (VBlob v) = RBlob v"

fun ref_value_type :: "ValueRef \<Rightarrow> ValueType" where
  "ref_value_type RNull = TNull"
| "ref_value_type (RInteger _) = TInteger"
| "ref_value_type (RReal _) = TReal"
| "ref_value_type (RText _) = TText"
| "ref_value_type (RBlob _) = TBlob"

fun to_owned :: "ValueRef \<Rightarrow> Value" where
  "to_owned RNull = VNull"
| "to_owned (RInteger v) = VInteger v"
| "to_owned (RReal v) = VReal v"
| "to_owned (RText v) = VText v"
| "to_owned (RBlob v) = VBlob v"

lemma to_owned_as_ref [simp]: "to_owned (as_ref v) = v"
  by (cases v) simp_all

lemma as_ref_to_owned [simp]: "as_ref (to_owned r) = r"
  by (cases r) simp_all

lemma ref_value_type_as_ref [simp]: "ref_value_type (as_ref v) = value_type v"
  by (cases v) simp_all

lemma as_ref_eq_iff [simp]: "as_ref v = as_ref w \<longleftrightarrow> v = w"
  by (metis to_owned_as_ref)

section \<open>Transaction states and checkpoints\<close>

datatype TransactionState = TxnNone | TxnRead | TxnWrite

definition transaction_state_repr :: "TransactionState \<Rightarrow> int" where
  "transaction_state_repr s = (case s of TxnNone \<Rightarrow> 0 | TxnRead \<Rightarrow> 1 | TxnWrite \<Rightarrow> 2)"

datatype CheckpointMode = Passive | Full | Restart | Truncate

definition checkpoint_mode_repr :: "CheckpointMode \<Rightarrow> int" where
  "checkpoint_mode_repr m = (case m of Passive \<Rightarrow> 0 | Full \<Rightarrow> 1 | Restart \<Rightarrow> 2 | Truncate \<Rightarrow> 3)"

text \<open>The activity levels are ordered as their \<^verbatim>\<open>repr(i32)\<close> numbers.\<close>

instantiation TransactionState :: linorder
begin

definition less_eq_TransactionState :: "TransactionState \<Rightarrow> TransactionState \<Rightarrow> bool" where
  "s \<le> t \<longleftrightarrow> transaction_state_repr s \<le> transaction_state_repr t"

definition less_TransactionState :: "TransactionState \<Rightarrow> TransactionState \<Rightarrow> bool" where
  "s < t \<longleftrightarrow> transaction_state_repr s < transaction_state_repr t"

instance
  by standard
    (auto simp: less_eq_TransactionState_def less_TransactionState_def transaction_state_repr_def
      split: TransactionState.splits)

end

record CheckpointResult =
  cr_wal_frames :: "u32 option"
  cr_checkpointed_frames :: "u32 option"
  cr_busy :: bool

definition checkpoint_result_new :: "u32 option \<Rightarrow> u32 option \<Rightarrow> bool \<Rightarrow> CheckpointResult" where
  "checkpoint_result_new w c b =
     \<lparr>cr_wal_frames = w, cr_checkpointed_frames = c, cr_busy = b\<rparr>"

definition remaining_frames :: "CheckpointResult \<Rightarrow> u32 option" where
  "remaining_frames r =
     (case (cr_wal_frames r, cr_checkpointed_frames r) of
        (Some wal, Some checkpointed) \<Rightarrow> Some (saturating_sub wal checkpointed)
      | _ \<Rightarrow> None)"

definition is_complete :: "CheckpointResult \<Rightarrow> bool" where
  "is_complete r = (\<not> cr_busy r \<and> remaining_frames r = Some 0)"

lemma remaining_frames_Some_iff:
  "remaining_frames r = Some n \<longleftrightarrow>
     (\<exists>w c. cr_wal_frames r = Some w \<and> cr_checkpointed_frames r = Some c \<and> n = saturating_sub w c)"
  by (auto simp: remaining_frames_def split: option.splits)

lemma is_complete_iff:
  "is_complete r \<longleftrightarrow>
     (\<not> cr_busy r \<and> (\<exists>w c. cr_wal_frames r = Some w \<and> cr_checkpointed_frames r = Some c \<and> w \<le> c))"
proof -
  have "remaining_frames r = Some 0 \<longleftrightarrow>
      (\<exists>w c. cr_wal_frames r = Some w \<and> cr_checkpointed_frames r = Some c \<and> saturating_sub w c = 0)"
    unfolding remaining_frames_Some_iff by metis
  then show ?thesis by (simp add: is_complete_def saturating_sub_eq_0_iff)
qed

end
