(* ===== verification/Field_Codec.thy ===== *)
theory Field_Codec
  imports Core_Value
begin

text \<open>
  The conversion boundary between Rust field types and database values: \<^verbatim>\<open>trait FieldValue\<close>
  and its implementations in \<^verbatim>\<open>csgdb/src/collection.rs\<close>. The trait is the locale
  \<open>field_codec\<close>; every implementation interprets it.
\<close>

datatype ColumnType = CInteger | CReal | CText | CBlob

fun sql_name :: "ColumnType \<Rightarrow> string" where
  "sql_name CInteger = ''INTEGER''"
| "sql_name CReal = ''REAL''"
| "sql_name CText = ''TEXT''"
| "sql_name CBlob = ''BLOB''"

definition invalid_field_type :: Error where
  "invalid_field_type = Error InvalidColumnType
     ''collection field has an incompatible database storage class''"

definition invalid_field_value :: Error where
  "invalid_field_value = Error InvalidFieldValue
     ''collection field value cannot be represented by its database type''"

text \<open>The storage class a column type admits for a value that is not NULL.\<close>

definition class_of_column :: "ColumnType \<Rightarrow> ValueType" where
  "class_of_column c = (case c of CInteger \<Rightarrow> TInteger | CReal \<Rightarrow> TReal | CText \<Rightarrow> TText | CBlob \<Rightarrow> TBlob)"

section \<open>The contract of a field type\<close>

locale field_codec =
  fixes column_type :: ColumnType and nullable :: bool
    and to_value :: "'a \<Rightarrow> Value result" and from_value :: "ValueRef \<Rightarrow> 'a result"
    and representable :: "'a \<Rightarrow> bool"
  assumes encodes: "representable x \<longleftrightarrow> is_ok (to_value x)"
    and encode_class: "to_value x = Inr v \<Longrightarrow>
      value_type v = class_of_column column_type \<or> nullable \<and> v = VNull"
    and encode_error: "to_value x = Inl e \<Longrightarrow> err_code e = InvalidFieldValue"
    and round_trip: "to_value x = Inr v \<Longrightarrow> from_value (as_ref v) = Inr x"
    and decode_class: "from_value r = Inr x \<Longrightarrow>
      ref_value_type r = class_of_column column_type \<or> nullable \<and> r = RNull"
    and wrong_class: "ref_value_type r \<noteq> class_of_column column_type \<Longrightarrow>
      \<not> (nullable \<and> r = RNull) \<Longrightarrow> fails_with InvalidColumnType (from_value r)"
begin

lemma encode_inj: "to_value x = Inr v \<Longrightarrow> to_value y = Inr v \<Longrightarrow> x = y"
  by (metis Inr_inject round_trip)

lemma encode_null_iff: "to_value x = Inr v \<Longrightarrow> \<not> nullable \<Longrightarrow> v \<noteq> VNull"
  using encode_class [of x v] by (cases v) (auto simp: class_of_column_def split: ColumnType.splits)

lemma round_trip_total: "representable x \<Longrightarrow> \<exists>v. to_value x = Inr v \<and> from_value (as_ref v) = Inr x"
  by (auto simp: encodes is_ok_iff intro: round_trip)

end

locale base_codec = field_codec +
  assumes not_nullable: "\<not> nullable"

section \<open>Implementations\<close>

definition signed_to_value :: "'a::len word \<Rightarrow> Value result" where
  "signed_to_value w = Inr (VInteger (scast w))"

definition signed_from_value :: "ValueRef \<Rightarrow> 'a::len word result" where
  "signed_from_value r =
     (case r of
        RInteger v \<Rightarrow>
          if - (2 ^ (LENGTH('a) - 1)) \<le> sint v \<and> sint v < 2 ^ (LENGTH('a) - 1)
          then Inr (scast v) else Inl invalid_field_value
      | _ \<Rightarrow> Inl invalid_field_type)"

definition unsigned_to_value :: "'a::len word \<Rightarrow> Value result" where
  "unsigned_to_value w =
     (if unat w < 2 ^ 63 then Inr (VInteger (ucast w)) else Inl invalid_field_value)"

definition unsigned_from_value :: "ValueRef \<Rightarrow> 'a::len word result" where
  "unsigned_from_value r =
     (case r of
        RInteger v \<Rightarrow>
          if 0 \<le> sint v \<and> sint v < 2 ^ LENGTH('a)
          then Inr (ucast v) else Inl invalid_field_value
      | _ \<Rightarrow> Inl invalid_field_type)"

definition bool_to_value :: "bool \<Rightarrow> Value result" where
  "bool_to_value b = Inr (VInteger (if b then 1 else 0))"

definition bool_from_value :: "ValueRef \<Rightarrow> bool result" where
  "bool_from_value r =
     (case r of
        RInteger v \<Rightarrow> if v = 0 then Inr False else if v = 1 then Inr True else Inl invalid_field_value
      | _ \<Rightarrow> Inl invalid_field_type)"

definition f64_to_value :: "f64 \<Rightarrow> Value result" where
  "f64_to_value v = Inr (VReal v)"

definition f64_from_value :: "ValueRef \<Rightarrow> f64 result" where
  "f64_from_value r = (case r of RReal v \<Rightarrow> Inr v | _ \<Rightarrow> Inl invalid_field_type)"

definition string_to_value :: "string \<Rightarrow> Value result" where
  "string_to_value s = Inr (VText s)"

definition string_from_value :: "ValueRef \<Rightarrow> string result" where
  "string_from_value r = (case r of RText v \<Rightarrow> Inr v | _ \<Rightarrow> Inl invalid_field_type)"

definition bytes_to_value :: "u8 list \<Rightarrow> Value result" where
  "bytes_to_value b = Inr (VBlob b)"

definition bytes_from_value :: "ValueRef \<Rightarrow> u8 list result" where
  "bytes_from_value r = (case r of RBlob v \<Rightarrow> Inr v | _ \<Rightarrow> Inl invalid_field_type)"

definition option_to_value :: "('a \<Rightarrow> Value result) \<Rightarrow> 'a option \<Rightarrow> Value result" where
  "option_to_value to_value m = (case m of None \<Rightarrow> Inr VNull | Some x \<Rightarrow> to_value x)"

definition option_from_value :: "(ValueRef \<Rightarrow> 'a result) \<Rightarrow> ValueRef \<Rightarrow> 'a option result" where
  "option_from_value from_value r = (case r of RNull \<Rightarrow> Inr None | v \<Rightarrow> map_ok Some (from_value v))"

sublocale base_codec \<subseteq> opt: field_codec column_type True "option_to_value to_value"
  "option_from_value from_value" "\<lambda>m. case m of None \<Rightarrow> True | Some x \<Rightarrow> representable x"
proof
  fix x v e r
  show "(case x of None \<Rightarrow> True | Some y \<Rightarrow> representable y) = is_ok (option_to_value to_value x)"
    by (simp add: option_to_value_def encodes split: option.splits)
  show "option_to_value to_value x = Inr v \<Longrightarrow>
      value_type v = class_of_column column_type \<or> True \<and> v = VNull"
    using encode_class not_nullable by (auto simp: option_to_value_def split: option.splits)
  show "option_to_value to_value x = Inl e \<Longrightarrow> err_code e = InvalidFieldValue"
    using encode_error by (auto simp: option_to_value_def split: option.splits)
  show "option_to_value to_value x = Inr v \<Longrightarrow> option_from_value from_value (as_ref v) = Inr x"
  proof (cases x)
    case (Some y)
    moreover assume "option_to_value to_value x = Inr v"
    ultimately have v: "to_value y = Inr v" by (simp add: option_to_value_def)
    then have "v \<noteq> VNull" using encode_null_iff not_nullable by blast
    then have "option_from_value from_value (as_ref v) = map_ok Some (from_value (as_ref v))"
      by (cases v) (simp_all add: option_from_value_def)
    with round_trip [OF v] Some show ?thesis by simp
  qed (auto simp: option_to_value_def option_from_value_def)
  show "option_from_value from_value r = Inr x \<Longrightarrow>
      ref_value_type r = class_of_column column_type \<or> True \<and> r = RNull"
    using decode_class [of r] not_nullable by (cases r) (auto simp: option_from_value_def)
  assume r: "ref_value_type r \<noteq> class_of_column column_type" "\<not> (True \<and> r = RNull)"
  then have "fails_with InvalidColumnType (from_value r)"
    using wrong_class not_nullable by blast
  moreover have "option_from_value from_value r = map_ok Some (from_value r)"
    using r(2) by (cases r) (simp_all add: option_from_value_def)
  ultimately show "fails_with InvalidColumnType (option_from_value from_value r)"
    by (cases "from_value r") simp_all
qed

text \<open>Widening to 64 bits and narrowing back is exact on the values in range.\<close>

lemma sint_scast_up: "LENGTH('a) \<le> 64 \<Longrightarrow> sint (scast w :: i64) = sint w" for w :: "'a::len word"
  by (simp add: sint_up_scast is_up)

lemma scast_scast_up: "LENGTH('a) \<le> 64 \<Longrightarrow> scast (scast w :: i64) = w" for w :: "'a::len word"
  by (rule scast_up_scast_id) (simp add: is_up)

lemma signed_base_codec:
  assumes "LENGTH('a::len) \<le> 64"
  shows "base_codec CInteger False (signed_to_value :: 'a word \<Rightarrow> _) signed_from_value (\<lambda>_. True)"
  by unfold_locales
    (auto simp: signed_to_value_def signed_from_value_def class_of_column_def invalid_field_type_def
      sint_scast_up [OF assms] scast_scast_up [OF assms] sint_greater_eq sint_less
      split: ValueRef.splits if_splits)

lemma sint_ucast_up:
  fixes w :: "'a::len word"
  assumes "LENGTH('a) \<le> 64" "unat w < 2 ^ 63"
  shows "sint (ucast w :: i64) = uint w"
proof -
  have u: "uint (ucast w :: i64) = uint w"
    using assms(1) by (simp add: uint_up_ucast is_up)
  have "uint w < 2 ^ 63"
  proof -
    have "int (unat w) < int (2 ^ 63)" using assms(2) by (simp only: of_nat_less_iff)
    then show ?thesis by simp
  qed
  moreover have "- (2 ^ 63) \<le> uint w"
    by (rule order.trans [of _ 0]) simp_all
  ultimately have "signed_take_bit 63 (uint w) = uint w"
    by (rule signed_take_bit_int_eq_self [rotated])
  then show ?thesis by (simp add: sint_uint u)
qed

lemma ucast_ucast_up: "LENGTH('a) \<le> 64 \<Longrightarrow> ucast (ucast w :: i64) = w" for w :: "'a::len word"
  by (rule ucast_up_ucast_id) (simp add: is_up)

lemma unsigned_base_codec:
  assumes "LENGTH('a::len) \<le> 64"
  shows "base_codec CInteger False (unsigned_to_value :: 'a word \<Rightarrow> _) unsigned_from_value
     (\<lambda>w. unat w < 2 ^ 63)"
  by unfold_locales
    (auto simp: unsigned_to_value_def unsigned_from_value_def class_of_column_def
      invalid_field_type_def invalid_field_value_def sint_ucast_up [OF assms] ucast_ucast_up [OF assms]
      split: ValueRef.splits if_splits)

interpretation i8_codec: base_codec CInteger False "signed_to_value :: 8 word \<Rightarrow> _" signed_from_value "\<lambda>_. True"
  by (rule signed_base_codec) simp

interpretation i16_codec: base_codec CInteger False "signed_to_value :: 16 word \<Rightarrow> _" signed_from_value "\<lambda>_. True"
  by (rule signed_base_codec) simp

interpretation i32_codec: base_codec CInteger False "signed_to_value :: 32 word \<Rightarrow> _" signed_from_value "\<lambda>_. True"
  by (rule signed_base_codec) simp

interpretation i64_codec: base_codec CInteger False "signed_to_value :: 64 word \<Rightarrow> _" signed_from_value "\<lambda>_. True"
  by (rule signed_base_codec) simp

interpretation u8_codec: base_codec CInteger False "unsigned_to_value :: 8 word \<Rightarrow> _" unsigned_from_value
  "\<lambda>w. unat w < 2 ^ 63"
  by (rule unsigned_base_codec) simp

interpretation u16_codec: base_codec CInteger False "unsigned_to_value :: 16 word \<Rightarrow> _" unsigned_from_value
  "\<lambda>w. unat w < 2 ^ 63"
  by (rule unsigned_base_codec) simp

interpretation u32_codec: base_codec CInteger False "unsigned_to_value :: 32 word \<Rightarrow> _" unsigned_from_value
  "\<lambda>w. unat w < 2 ^ 63"
  by (rule unsigned_base_codec) simp

interpretation u64_codec: base_codec CInteger False "unsigned_to_value :: 64 word \<Rightarrow> _" unsigned_from_value
  "\<lambda>w. unat w < 2 ^ 63"
  by (rule unsigned_base_codec) simp

interpretation bool_codec: base_codec CInteger False bool_to_value bool_from_value "\<lambda>_. True"
  by unfold_locales
    (auto simp: bool_to_value_def bool_from_value_def class_of_column_def invalid_field_type_def
      split: ValueRef.splits if_splits)

interpretation f64_codec: base_codec CReal False f64_to_value f64_from_value "\<lambda>_. True"
  by unfold_locales
    (auto simp: f64_to_value_def f64_from_value_def class_of_column_def invalid_field_type_def
      split: ValueRef.splits)

interpretation text_codec: base_codec CText False string_to_value string_from_value "\<lambda>_. True"
  by unfold_locales
    (auto simp: string_to_value_def string_from_value_def class_of_column_def invalid_field_type_def
      split: ValueRef.splits)

interpretation blob_codec: base_codec CBlob False bytes_to_value bytes_from_value "\<lambda>_. True"
  by unfold_locales
    (auto simp: bytes_to_value_def bytes_from_value_def class_of_column_def invalid_field_type_def
      split: ValueRef.splits)

section \<open>Decoding is exact\<close>

lemma signed_decode_iff:
  fixes w :: "'a::len word"
  assumes "LENGTH('a) \<le> 64"
  shows "signed_from_value (RInteger v) = Inr w \<longleftrightarrow> sint w = sint v"
proof
  assume "signed_from_value (RInteger v) = Inr w"
  then have r: "- (2 ^ (LENGTH('a) - 1)) \<le> sint v" "sint v < 2 ^ (LENGTH('a) - 1)" and w: "w = scast v"
    by (auto simp: signed_from_value_def split: if_splits)
  have "sint (scast v :: 'a word) = signed_take_bit (LENGTH('a) - 1) (sint v)"
    by (simp add: signed_scast_eq)
  with r w show "sint w = sint v" by (simp add: signed_take_bit_int_eq_self)
next
  assume e: "sint w = sint v"
  have "- (2 ^ (LENGTH('a) - 1)) \<le> sint v \<and> sint v < 2 ^ (LENGTH('a) - 1)"
    using sint_greater_eq [of w] sint_less [of w] by (simp add: e [symmetric])
  moreover have "scast v = w"
    by (metis e scast_scast_up [OF assms] sint_scast_up [OF assms] signed_word_eqI)
  ultimately show "signed_from_value (RInteger v) = Inr w"
    by (simp add: signed_from_value_def)
qed

lemma unsigned_decode_iff:
  fixes w :: "'a::len word"
  assumes "LENGTH('a) \<le> 64"
  shows "unsigned_from_value (RInteger v) = Inr w \<longleftrightarrow> uint w = sint v"
proof
  assume "unsigned_from_value (RInteger v) = Inr w"
  then have r: "0 \<le> sint v" "sint v < 2 ^ LENGTH('a)" and w: "w = ucast v"
    by (auto simp: unsigned_from_value_def split: if_splits)
  have "uint w = take_bit LENGTH('a) (uint v)"
    by (simp add: w unsigned_ucast_eq)
  also have "\<dots> = take_bit LENGTH('a) (sint v)"
    using assms by (simp add: uint_sint min_def)
  finally show "uint w = sint v" using r by (simp add: take_bit_int_eq_self)
next
  assume e: "uint w = sint v"
  then have r: "0 \<le> sint v" "sint v < 2 ^ LENGTH('a)"
    by (simp_all add: e [symmetric])
  have "take_bit LENGTH('a) (uint v) = take_bit LENGTH('a) (sint v)"
    using assms by (simp add: uint_sint min_def)
  then have "uint (ucast v :: 'a word) = uint w"
    using r by (simp add: e unsigned_ucast_eq take_bit_int_eq_self)
  then have "ucast v = w" by (rule unsigned_word_eqI)
  with r show "unsigned_from_value (RInteger v) = Inr w"
    by (simp add: unsigned_from_value_def)
qed


text \<open>
  Decoding an integer column is exact: it returns a value if and only if that value of
  the requested width is the very number stored, so no stored number is ever truncated, wrapped or
  reinterpreted into a field.
\<close>

lemma integer_decode_exact:
  "(signed_from_value (RInteger v) = Inr (a1 :: 8 word) \<longleftrightarrow> sint a1 = sint v) \<and>
   (signed_from_value (RInteger v) = Inr (a2 :: 16 word) \<longleftrightarrow> sint a2 = sint v) \<and>
   (signed_from_value (RInteger v) = Inr (a3 :: 32 word) \<longleftrightarrow> sint a3 = sint v) \<and>
   (signed_from_value (RInteger v) = Inr (a4 :: 64 word) \<longleftrightarrow> sint a4 = sint v) \<and>
   (unsigned_from_value (RInteger v) = Inr (b1 :: 8 word) \<longleftrightarrow> uint b1 = sint v) \<and>
   (unsigned_from_value (RInteger v) = Inr (b2 :: 16 word) \<longleftrightarrow> uint b2 = sint v) \<and>
   (unsigned_from_value (RInteger v) = Inr (b3 :: 32 word) \<longleftrightarrow> uint b3 = sint v) \<and>
   (unsigned_from_value (RInteger v) = Inr (b4 :: 64 word) \<longleftrightarrow> uint b4 = sint v)"
  by (intro conjI signed_decode_iff unsigned_decode_iff) simp_all

end
