(* ===== verification/Schema.thy ===== *)
theory Schema
  imports Field_Codec
begin

text \<open>
  Collection metadata and its validation, from \<^verbatim>\<open>csgdb/src/collection.rs\<close>: fields, indexes,
  schemas, fingerprints, the validator every registration, migration and query goes through, and
  the reordering of record values for an UPDATE.
\<close>

section \<open>Metadata\<close>

record FieldSchema =
  fs_id :: string
  fs_column :: string
  fs_column_type :: ColumnType
  fs_nullable :: bool
  fs_primary_key :: bool

datatype SchemaFingerprint = SchemaFingerprint (fp_bytes: "u8 list")

definition display_fingerprint :: "SchemaFingerprint \<Rightarrow> string" where
  "display_fingerprint f = concat (map hex_byte (fp_bytes f))"

record IndexSchema =
  ix_id :: string
  ix_name :: string
  ix_columns :: "string list"
  ix_unique :: bool
  ix_fingerprint :: SchemaFingerprint
  ix_canonical_descriptor :: string

record CollectionSchema =
  cs_id :: string
  cs_table :: string
  cs_version :: u32
  cs_fingerprint :: SchemaFingerprint
  cs_fields :: "FieldSchema list"
  cs_canonical_descriptor :: string
  cs_indexes :: "IndexSchema list"

definition primary_key :: "CollectionSchema \<Rightarrow> FieldSchema option" where
  "primary_key schema = find fs_primary_key (cs_fields schema)"

section \<open>Validation\<close>

definition invalid_schema :: Error where
  "invalid_schema = Error InvalidSchema ''collection schema metadata is invalid''"

definition RESERVED_PREFIX :: string where
  "RESERVED_PREFIX = ''__csgdb_''"

definition valid_name :: "string \<Rightarrow> bool" where
  "valid_name v = (v \<noteq> [] \<and> length v \<le> 255 \<and> CHR 0x00 \<notin> set v)"

type_synonym field_scan = "string set \<times> string set \<times> u8"

definition validate_field_entry :: "FieldSchema \<Rightarrow> field_scan \<Rightarrow> field_scan result" where
  "validate_field_entry field st =
     (case st of (ids, columns, primary_keys) \<Rightarrow>
        if \<not> valid_name (fs_id field) \<or> \<not> valid_name (fs_column field) \<or>
           fs_id field \<in> ids \<or> fs_column field \<in> columns
        then Inl invalid_schema
        else
          let ids = insert (fs_id field) ids; columns = insert (fs_column field) columns in
          if fs_primary_key field
          then (if fs_nullable field then Inl invalid_schema
                else Inr (ids, columns, saturating_add primary_keys 1))
          else Inr (ids, columns, primary_keys))"

definition validate_index_column :: "string set \<Rightarrow> string \<Rightarrow> string set \<Rightarrow> string set result" where
  "validate_index_column columns column seen =
     (if column \<notin> columns \<or> column \<in> seen then Inl invalid_schema else Inr (insert column seen))"

definition validate_index_entry ::
  "string set \<Rightarrow> IndexSchema \<Rightarrow> string set \<times> string set \<Rightarrow> (string set \<times> string set) result" where
  "validate_index_entry columns index st =
     (case st of (index_ids, index_names) \<Rightarrow>
        if \<not> valid_name (ix_id index) \<or> \<not> valid_name (ix_name index) \<or>
           starts_with (ix_name index) RESERVED_PREFIX \<or> ix_columns index = [] \<or>
           ix_canonical_descriptor index = [] \<or> ix_id index \<in> index_ids \<or> ix_name index \<in> index_names
        then Inl invalid_schema
        else
          bind_result (for_each (validate_index_column columns) (ix_columns index) {}) (\<lambda>_.
          Inr (insert (ix_id index) index_ids, insert (ix_name index) index_names)))"

definition validate_collection_schema :: "CollectionSchema \<Rightarrow> unit result" where
  "validate_collection_schema schema =
     (if \<not> valid_name (cs_id schema) \<or> \<not> valid_name (cs_table schema) \<or>
         starts_with (cs_table schema) RESERVED_PREFIX \<or> cs_version schema = 0 \<or>
         cs_fields schema = [] \<or> cs_canonical_descriptor schema = []
      then Inl invalid_schema
      else
        bind_result (for_each validate_field_entry (cs_fields schema) ({}, {}, 0)) (\<lambda>(_, columns, primary_keys).
        if primary_keys \<noteq> 1 then Inl invalid_schema
        else
          bind_result (for_each (validate_index_entry columns) (cs_indexes schema) ({}, {})) (\<lambda>_.
          Inr ())))"

section \<open>What a valid schema is\<close>

definition fields_wf :: "FieldSchema list \<Rightarrow> bool" where
  "fields_wf fs \<longleftrightarrow>
     (\<forall>f \<in> set fs. valid_name (fs_id f) \<and> valid_name (fs_column f) \<and>
        (fs_primary_key f \<longrightarrow> \<not> fs_nullable f)) \<and>
     distinct (map fs_id fs) \<and> distinct (map fs_column fs)"

definition index_wf :: "string set \<Rightarrow> IndexSchema \<Rightarrow> bool" where
  "index_wf columns ix \<longleftrightarrow>
     valid_name (ix_id ix) \<and> valid_name (ix_name ix) \<and> \<not> starts_with (ix_name ix) RESERVED_PREFIX \<and>
     ix_columns ix \<noteq> [] \<and> ix_canonical_descriptor ix \<noteq> [] \<and>
     set (ix_columns ix) \<subseteq> columns \<and> distinct (ix_columns ix)"

definition schema_wf :: "CollectionSchema \<Rightarrow> bool" where
  "schema_wf s \<longleftrightarrow>
     valid_name (cs_id s) \<and> valid_name (cs_table s) \<and> \<not> starts_with (cs_table s) RESERVED_PREFIX \<and>
     cs_version s \<noteq> 0 \<and> cs_canonical_descriptor s \<noteq> [] \<and>
     fields_wf (cs_fields s) \<and> length (filter fs_primary_key (cs_fields s)) = 1 \<and>
     (\<forall>ix \<in> set (cs_indexes s). index_wf (fs_column ` set (cs_fields s)) ix) \<and>
     distinct (map ix_id (cs_indexes s)) \<and> distinct (map ix_name (cs_indexes s))"

lemma validate_field_entry_Inr:
  "validate_field_entry f (ids, cols, pk) = Inr st \<longleftrightarrow>
     valid_name (fs_id f) \<and> valid_name (fs_column f) \<and> fs_id f \<notin> ids \<and> fs_column f \<notin> cols \<and>
     (fs_primary_key f \<longrightarrow> \<not> fs_nullable f) \<and>
     st = (insert (fs_id f) ids, insert (fs_column f) cols,
           if fs_primary_key f then saturating_add pk 1 else pk)"
  by (auto simp: validate_field_entry_def Let_def)

definition pk_count :: "u8 \<Rightarrow> FieldSchema list \<Rightarrow> u8" where
  "pk_count pk fs = foldl (\<lambda>k f. if fs_primary_key f then saturating_add k 1 else k) pk fs"

lemma validate_fields_Inr:
  "for_each validate_field_entry fs (ids, cols, pk) = Inr st \<longleftrightarrow>
     fields_wf fs \<and> ids \<inter> fs_id ` set fs = {} \<and> cols \<inter> fs_column ` set fs = {} \<and>
     st = (ids \<union> fs_id ` set fs, cols \<union> fs_column ` set fs, pk_count pk fs)"
proof (induction fs arbitrary: ids cols pk)
  case Nil
  show ?case by (auto simp: fields_wf_def pk_count_def)
next
  case (Cons f fs)
  show ?case
    by (simp add: validate_field_entry_Inr Cons pk_count_def)
      (auto simp: fields_wf_def)
qed

lemma unat_pk_count:
  "unat (pk_count pk fs) = min (unat pk + length (filter fs_primary_key fs)) 255"
proof (induction fs arbitrary: pk)
  case Nil
  have "unat pk < 2 ^ 8" by (rule order.strict_trans2 [OF unsigned_less]) simp
  then show ?case by (simp add: pk_count_def)
next
  case (Cons f fs)
  have "unat (pk_count pk (f # fs)) =
      unat (pk_count (if fs_primary_key f then saturating_add pk 1 else pk) fs)"
    by (simp add: pk_count_def)
  then show ?case by (auto simp: Cons unat_saturating_add min_def)
qed

lemma pk_count_eq_1_iff: "pk_count 0 fs = 1 \<longleftrightarrow> length (filter fs_primary_key fs) = 1"
proof -
  have "pk_count 0 fs = 1 \<longleftrightarrow> unat (pk_count 0 fs) = unat (1 :: u8)"
    by (metis unsigned_word_eqI)
  then show ?thesis by (auto simp: unat_pk_count min_def)
qed

lemma validate_index_columns_Inr:
  "for_each (validate_index_column cols) cs seen = Inr st \<longleftrightarrow>
     set cs \<subseteq> cols \<and> distinct cs \<and> seen \<inter> set cs = {} \<and> st = seen \<union> set cs"
  by (induction cs arbitrary: seen) (auto simp: validate_index_column_def)

lemma validate_index_entry_Inr:
  "validate_index_entry cols ix (ids, names) = Inr st \<longleftrightarrow>
     index_wf cols ix \<and> ix_id ix \<notin> ids \<and> ix_name ix \<notin> names \<and>
     st = (insert (ix_id ix) ids, insert (ix_name ix) names)"
  by (auto simp: validate_index_entry_def index_wf_def validate_index_columns_Inr)

lemma validate_indexes_Inr:
  "for_each (validate_index_entry cols) ixs (ids, names) = Inr st \<longleftrightarrow>
     (\<forall>ix \<in> set ixs. index_wf cols ix) \<and> distinct (map ix_id ixs) \<and> distinct (map ix_name ixs) \<and>
     ids \<inter> ix_id ` set ixs = {} \<and> names \<inter> ix_name ` set ixs = {} \<and>
     st = (ids \<union> ix_id ` set ixs, names \<union> ix_name ` set ixs)"
proof (induction ixs arbitrary: ids names)
  case Nil
  show ?case by auto
next
  case (Cons ix ixs)
  show ?case by (simp add: validate_index_entry_Inr Cons) auto
qed

lemma validate_schema_ok_iff: "validate_collection_schema s = Inr () \<longleftrightarrow> schema_wf s"
  by (cases "cs_fields s = []")
    (auto simp: validate_collection_schema_def schema_wf_def validate_fields_Inr
      validate_indexes_Inr pk_count_eq_1_iff)

lemma for_each_error:
  assumes "for_each body xs s = Inl e" and "\<And>x s e. body x s = Inl e \<Longrightarrow> P e"
  shows "P e"
  using assms(1)
proof (induction xs arbitrary: s)
  case (Cons x xs)
  then show ?case using assms(2) by (cases "body x s") auto
qed simp

lemma validate_schema_error: "validate_collection_schema s = Inl e \<Longrightarrow> e = invalid_schema"
  by (auto simp: validate_collection_schema_def bind_result_eq_Inl
      validate_field_entry_def validate_index_entry_def validate_index_column_def Let_def
      split: if_splits prod.splits
      elim!: for_each_error [where P = "\<lambda>e. e = invalid_schema"])

text \<open>
  Claim C27. The validator decides well-formedness. \<^const>\<open>validate_collection_schema\<close> accepts
  a schema exactly when its names are 1 to 255 bytes without NUL and not reserved, its version is
  positive, field identifiers and columns are pairwise distinct, exactly one field is the primary
  key (the saturating \<^verbatim>\<open>u8\<close> counter counts correctly for any number of fields) and it is not
  nullable, and every index has distinct existing columns and a unique identifier and name;
  otherwise it returns the error \<^verbatim>\<open>InvalidSchema\<close>.
\<close>

theorem validate_collection_schema_decides:
  "validate_collection_schema s = (if schema_wf s then Inr () else Inl invalid_schema)"
proof (cases "validate_collection_schema s")
  case (Inl e)
  then show ?thesis using validate_schema_ok_iff [of s] validate_schema_error [of s e] by auto
next
  case (Inr u)
  then show ?thesis using validate_schema_ok_iff [of s] by simp
qed

section \<open>The primary key and UPDATE parameters\<close>

definition position :: "('a \<Rightarrow> bool) \<Rightarrow> 'a list \<Rightarrow> nat option" where
  "position p xs = (let n = length (takeWhile (\<lambda>x. \<not> p x) xs) in if n < length xs then Some n else None)"

definition update_values :: "CollectionSchema \<Rightarrow> Value list \<Rightarrow> Value list result" where
  "update_values schema values =
     bind_result (ok_or invalid_schema (position fs_primary_key (cs_fields schema))) (\<lambda>i.
     if i \<ge> length values then Inl invalid_schema
     else Inr (take i values @ drop (Suc i) values @ [values ! i]))"

lemma position_split:
  assumes "length (filter p xs) = 1"
  obtains as x bs where "xs = as @ x # bs" "p x" "\<forall>y \<in> set as. \<not> p y" "\<forall>y \<in> set bs. \<not> p y"
    "position p xs = Some (length as)"
proof -
  obtain x where x: "filter p xs = [x]" using assms by (cases "filter p xs") auto
  then obtain as bs where xs: "xs = as @ x # bs" "\<forall>y \<in> set as. \<not> p y" "p x" "filter p bs = []"
    by (auto simp: filter_eq_Cons_iff)
  have "takeWhile (\<lambda>x. \<not> p x) xs = as" using xs by (simp add: takeWhile_tail)
  then have "position p xs = Some (length as)" using xs by (simp add: position_def)
  with xs show thesis by (intro that [of as x bs]) (auto simp: filter_empty_conv)
qed

lemma primary_key_split:
  assumes "schema_wf s"
  obtains as k bs where "cs_fields s = as @ k # bs" "fs_primary_key k" "primary_key s = Some k"
    "\<forall>f \<in> set as. \<not> fs_primary_key f" "\<forall>f \<in> set bs. \<not> fs_primary_key f"
    "position fs_primary_key (cs_fields s) = Some (length as)"
proof -
  from assms have "length (filter fs_primary_key (cs_fields s)) = 1" by (simp add: schema_wf_def)
  then obtain as k bs where s: "cs_fields s = as @ k # bs" "fs_primary_key k"
    "\<forall>f \<in> set as. \<not> fs_primary_key f" "\<forall>f \<in> set bs. \<not> fs_primary_key f"
    "position fs_primary_key (cs_fields s) = Some (length as)" by (rule position_split)
  have "primary_key s = Some k"
    unfolding primary_key_def s(1) using s(2,3) by (induction as) simp_all
  with s show thesis by (intro that [of as k bs]) auto
qed

lemma update_values_split:
  assumes "schema_wf s" "length vs = length (cs_fields s)"
  obtains as k bs va vk vb where "cs_fields s = as @ k # bs" "primary_key s = Some k"
    "vs = va @ vk # vb" "length va = length as" "length vb = length bs"
    "update_values s vs = Inr (va @ vb @ [vk])"
    "filter (\<lambda>f. \<not> fs_primary_key f) (cs_fields s) = as @ bs"
proof -
  obtain as k bs where s: "cs_fields s = as @ k # bs" "fs_primary_key k" "primary_key s = Some k"
    "\<forall>f \<in> set as. \<not> fs_primary_key f" "\<forall>f \<in> set bs. \<not> fs_primary_key f"
    "position fs_primary_key (cs_fields s) = Some (length as)"
    using assms(1) by (rule primary_key_split)
  let ?n = "length as"
  have n: "?n < length vs" using assms(2) s(1) by simp
  have vs: "vs = take ?n vs @ vs ! ?n # drop (Suc ?n) vs"
    using n by (rule id_take_nth_drop)
  have "filter (\<lambda>f. \<not> fs_primary_key f) (cs_fields s) = as @ bs"
    using s by (simp add: filter_id_conv)
  then show thesis
    using s n assms(2) by (intro that [OF s(1) s(3) vs]) (simp_all add: update_values_def)
qed

end
