(* ===== verification/Sql_Text.thy ===== *)
theory Sql_Text
  imports Prelude
begin

text \<open>
  SQL text as the engine reads it: quoted identifiers and positional parameters. Three functions of
  the program quote identifiers (\<^verbatim>\<open>push_identifier\<close> in \<^verbatim>\<open>query.rs\<close>, \<^verbatim>\<open>quote_identifier\<close> in
  \<^verbatim>\<open>csgdb-derive\<close>, \<^verbatim>\<open>quote_sql_identifier\<close> in \<^verbatim>\<open>collection.rs\<close>). Their common contract is the
  locale \<open>identifier_quoter\<close>: the engine's reader of quoted identifiers gives back the name.
\<close>

abbreviation dquote :: char where
  "dquote \<equiv> CHR 0x22"

section \<open>Reading SQL text\<close>

text \<open>
  The reader of a double-quoted identifier after its opening quote: a doubled quote stands for one
  quote character, a single quote ends the identifier.
\<close>

fun read_quoted_body :: "string \<Rightarrow> (string \<times> string) option" where
  "read_quoted_body [] = None"
| "read_quoted_body [c] = (if c = dquote then Some ([], []) else None)"
| "read_quoted_body (c # d # s) =
     (if c \<noteq> dquote then map_option (\<lambda>(n, r). (c # n, r)) (read_quoted_body (d # s))
      else if d = dquote then map_option (\<lambda>(n, r). (dquote # n, r)) (read_quoted_body s)
      else Some ([], d # s))"

fun read_identifier :: "string \<Rightarrow> (string \<times> string) option" where
  "read_identifier [] = None"
| "read_identifier (c # s) = (if c = dquote then read_quoted_body s else None)"

text \<open>
  The number of parameter markers in a statement: question marks outside quoted identifiers. The
  flag says whether the reader is inside quotes; a doubled quote leaves and re-enters.
\<close>

fun count_params :: "bool \<Rightarrow> string \<Rightarrow> nat" where
  "count_params q [] = 0"
| "count_params q (c # s) =
     (if c = dquote then count_params (\<not> q) s
      else if c = CHR ''?'' \<and> \<not> q then Suc (count_params q s)
      else count_params q s)"

definition balanced_quotes :: "string \<Rightarrow> bool" where
  "balanced_quotes s \<longleftrightarrow> even (count_list s dquote)"

lemma count_params_append:
  "count_params q (s @ t) = count_params q s + count_params (if even (count_list s dquote) then q else \<not> q) t"
  by (induction s arbitrary: q) auto

lemma count_params_append_balanced [simp]:
  "balanced_quotes s \<Longrightarrow> count_params q (s @ t) = count_params q s + count_params q t"
  by (simp add: count_params_append balanced_quotes_def)

lemma balanced_append [simp]:
  "balanced_quotes s \<Longrightarrow> balanced_quotes (s @ t) \<longleftrightarrow> balanced_quotes t"
  by (simp add: balanced_quotes_def)

lemma balanced_Nil [simp]: "balanced_quotes []"
  by (simp add: balanced_quotes_def)

lemma balanced_Cons [simp]: "c \<noteq> dquote \<Longrightarrow> balanced_quotes (c # s) \<longleftrightarrow> balanced_quotes s"
  by (simp add: balanced_quotes_def)

lemma balanced_no_quotes: "dquote \<notin> set s \<Longrightarrow> balanced_quotes s"
  by (simp add: balanced_quotes_def count_list_0_iff)

section \<open>The contract of a quoting function\<close>

locale identifier_quoter =
  fixes quote :: "string \<Rightarrow> string"
  assumes read_back: "(\<And>r. rest \<noteq> dquote # r) \<Longrightarrow> read_identifier (quote s @ rest) = Some (s, rest)"
    and no_params: "count_params False (quote s) = 0"
    and balanced: "balanced_quotes (quote s)"
begin

lemma quote_inj: "quote s = quote t \<longleftrightarrow> s = t"
proof
  assume eq: "quote s = quote t"
  have "read_identifier (quote u @ []) = Some (u, [])" for u by (rule read_back) simp
  from this [of s] this [of t] show "s = t" by (simp add: eq)
qed simp

lemma quote_prefix_unique:
  assumes "quote s @ x = quote t @ y" "\<And>r. x \<noteq> dquote # r" "\<And>r. y \<noteq> dquote # r"
  shows "s = t \<and> x = y"
proof -
  have "read_identifier (quote s @ x) = Some (s, x)" by (rule read_back) (rule assms(2))
  moreover have "read_identifier (quote t @ y) = Some (t, y)" by (rule read_back) (rule assms(3))
  ultimately show ?thesis by (metis assms(1) option.inject prod.inject)
qed

lemma join_no_params:
  "count_params False (join '', '' (map quote ss)) = 0 \<and> balanced_quotes (join '', '' (map quote ss))"
proof (induction ss rule: induct_list012)
  case (3 s t ss)
  then show ?case
    by (simp add: no_params balanced balanced_no_quotes)
qed (simp_all add: no_params balanced)

end

section \<open>Doubling of quote characters\<close>

definition replace_dquote :: "string \<Rightarrow> string" where
  "replace_dquote s = concat (map (\<lambda>c. if c = dquote then [dquote, dquote] else [c]) s)"

lemma replace_dquote_simps [simp]:
  "replace_dquote [] = []"
  "replace_dquote (c # s) = (if c = dquote then [dquote, dquote] else [c]) @ replace_dquote s"
  by (simp_all add: replace_dquote_def)

lemma read_quoted_body_step:
  "c \<noteq> dquote \<Longrightarrow> read_quoted_body (c # s) = map_option (\<lambda>(n, r). (c # n, r)) (read_quoted_body s)"
  by (cases s) auto

lemma read_quoted_body_replace:
  assumes "\<And>r. rest \<noteq> dquote # r"
  shows "read_quoted_body (replace_dquote s @ dquote # rest) = Some (s, rest)"
proof (induction s)
  case Nil
  then show ?case using assms by (cases rest) auto
next
  case (Cons c s)
  then show ?case by (simp add: read_quoted_body_step)
qed

lemma count_list_replace_dquote: "even (count_list (replace_dquote s) dquote)"
  by (induction s) auto

lemma count_params_replace_dquote: "count_params True (replace_dquote s) = 0"
  by (induction s) auto

lemma quoting_by_doubling:
  assumes "\<And>s. quote s = dquote # replace_dquote s @ [dquote]"
  shows "identifier_quoter quote"
proof
  fix rest s
  assume r: "\<And>r. rest \<noteq> dquote # r"
  show "read_identifier (quote s @ rest) = Some (s, rest)"
    by (simp add: assms read_quoted_body_replace [OF r])
next
  fix s
  show "count_params False (quote s) = 0"
    by (simp add: assms count_params_append count_params_replace_dquote count_list_replace_dquote)
  show "balanced_quotes (quote s)"
    using count_list_replace_dquote [of s] by (simp add: assms balanced_quotes_def)
qed

end
