(* ===== verification/Query.thy ===== *)
theory Query
  imports Schema Sql_Text
begin

text \<open>
  Typed collection queries, from \<^verbatim>\<open>csgdb/src/query.rs\<close>: predicates, ordering terms, drafts, and
  the compilation of a draft into parameterised SQL under hard limits. The specification side reads
  the produced text back with a parser for the SQL fragment it uses and evaluates it in three-valued
  logic, so the theorems are about what the engine is told, not about the intermediate tree.
\<close>

section \<open>Predicates, drafts and queries\<close>

definition MAX_QUERY_LIMIT :: u32 where "MAX_QUERY_LIMIT = 10000"
definition MAX_PREDICATE_NODES :: nat where "MAX_PREDICATE_NODES = 256"
definition MAX_PREDICATE_DEPTH :: nat where "MAX_PREDICATE_DEPTH = 32"
definition MAX_QUERY_ORDER_FIELDS :: nat where "MAX_QUERY_ORDER_FIELDS = 8"

datatype Comparison = Equal | NotEqual | Less | LessOrEqual | Greater | GreaterOrEqual

datatype NullComparison = IsNull | IsNotNull

datatype PredicateNode =
    Compare FieldSchema Comparison Value
  | NullTest FieldSchema NullComparison
  | And PredicateNode PredicateNode
  | Or PredicateNode PredicateNode
  | Not PredicateNode

text \<open>
  Field operators. The caller's value type decides the encoding, so \<^verbatim>\<open>into_query_value\<close> is an
  argument: for a field type of the library it is that type's \<^verbatim>\<open>to_value\<close>.
\<close>

definition predicate_compare :: "FieldSchema \<Rightarrow> Comparison \<Rightarrow> Value \<Rightarrow> PredicateNode" where
  "predicate_compare field comparison value = Compare field comparison value"

definition field_eq :: "('v \<Rightarrow> Value result) \<Rightarrow> FieldSchema \<Rightarrow> 'v \<Rightarrow> PredicateNode result" where
  "field_eq into_query_value field value =
     bind_result (into_query_value value) (\<lambda>v. Inr (predicate_compare field Equal v))"

definition field_ne :: "('v \<Rightarrow> Value result) \<Rightarrow> FieldSchema \<Rightarrow> 'v \<Rightarrow> PredicateNode result" where
  "field_ne into_query_value field value =
     bind_result (into_query_value value) (\<lambda>v. Inr (predicate_compare field NotEqual v))"

definition field_lt :: "('v \<Rightarrow> Value result) \<Rightarrow> FieldSchema \<Rightarrow> 'v \<Rightarrow> PredicateNode result" where
  "field_lt into_query_value field value =
     bind_result (into_query_value value) (\<lambda>v. Inr (predicate_compare field Less v))"

definition field_le :: "('v \<Rightarrow> Value result) \<Rightarrow> FieldSchema \<Rightarrow> 'v \<Rightarrow> PredicateNode result" where
  "field_le into_query_value field value =
     bind_result (into_query_value value) (\<lambda>v. Inr (predicate_compare field LessOrEqual v))"

definition field_gt :: "('v \<Rightarrow> Value result) \<Rightarrow> FieldSchema \<Rightarrow> 'v \<Rightarrow> PredicateNode result" where
  "field_gt into_query_value field value =
     bind_result (into_query_value value) (\<lambda>v. Inr (predicate_compare field Greater v))"

definition field_ge :: "('v \<Rightarrow> Value result) \<Rightarrow> FieldSchema \<Rightarrow> 'v \<Rightarrow> PredicateNode result" where
  "field_ge into_query_value field value =
     bind_result (into_query_value value) (\<lambda>v. Inr (predicate_compare field GreaterOrEqual v))"

definition predicate_and :: "PredicateNode \<Rightarrow> PredicateNode \<Rightarrow> PredicateNode" where
  "predicate_and self other = And self other"

definition predicate_or :: "PredicateNode \<Rightarrow> PredicateNode \<Rightarrow> PredicateNode" where
  "predicate_or self other = Or self other"

definition predicate_not :: "PredicateNode \<Rightarrow> PredicateNode" where
  "predicate_not self = Not self"

definition field_is_null :: "FieldSchema \<Rightarrow> PredicateNode" where
  "field_is_null field = NullTest field IsNull"

definition field_is_not_null :: "FieldSchema \<Rightarrow> PredicateNode" where
  "field_is_not_null field = NullTest field IsNotNull"

datatype OrderDirection = Ascending | Descending

record QueryOrder =
  qo_field :: FieldSchema
  qo_direction :: OrderDirection

definition field_asc :: "FieldSchema \<Rightarrow> QueryOrder" where
  "field_asc field = \<lparr>qo_field = field, qo_direction = Ascending\<rparr>"

definition field_desc :: "FieldSchema \<Rightarrow> QueryOrder" where
  "field_desc field = \<lparr>qo_field = field, qo_direction = Descending\<rparr>"

record QueryDraft =
  qd_predicate :: "PredicateNode option"
  qd_order :: "QueryOrder list"

record CollectionQuery =
  cq_sql :: string
  cq_values :: "Value list"
  cq_limit :: u32

record CollectionExistsQuery =
  ceq_sql :: string
  ceq_values :: "Value list"

definition invalid_query :: Error where
  "invalid_query = Error InvalidQuery
     ''typed collection query is invalid or exceeds its safety limits''"

definition draft_new :: QueryDraft where
  "draft_new = \<lparr>qd_predicate = None, qd_order = []\<rparr>"

definition draft_filter :: "PredicateNode \<Rightarrow> QueryDraft \<Rightarrow> QueryDraft" where
  "draft_filter node d =
     d\<lparr>qd_predicate := Some (case qd_predicate d of Some existing \<Rightarrow> And existing node | None \<Rightarrow> node)\<rparr>"

definition draft_order_by :: "QueryOrder \<Rightarrow> QueryDraft \<Rightarrow> QueryDraft" where
  "draft_order_by order d = d\<lparr>qd_order := qd_order d @ [order]\<rparr>"

section \<open>Compilation\<close>

fun push_identifier_chars :: "string \<Rightarrow> string \<Rightarrow> string" where
  "push_identifier_chars sql [] = sql"
| "push_identifier_chars sql (c # cs) =
     push_identifier_chars ((if c = dquote then sql @ [dquote] else sql) @ [c]) cs"

definition push_identifier :: "string \<Rightarrow> string \<Rightarrow> string" where
  "push_identifier sql identifier = push_identifier_chars (sql @ [dquote]) identifier @ [dquote]"

definition validate_field :: "CollectionSchema \<Rightarrow> FieldSchema \<Rightarrow> unit result" where
  "validate_field schema field =
     (if \<exists>candidate \<in> set (cs_fields schema). candidate = field then Inr () else Inl invalid_query)"

definition validate_bound_value :: "FieldSchema \<Rightarrow> Value \<Rightarrow> unit result" where
  "validate_bound_value field value =
     (let valid =
        (case value of
           VNull \<Rightarrow> fs_nullable field
         | VInteger _ \<Rightarrow> fs_column_type field = CInteger
         | VReal v \<Rightarrow> fs_column_type field = CReal \<and> f64_is_finite v
         | VText _ \<Rightarrow> fs_column_type field = CText
         | VBlob _ \<Rightarrow> fs_column_type field = CBlob)
      in if valid then Inr () else Inl invalid_query)"

definition push_order :: "string \<Rightarrow> FieldSchema \<Rightarrow> OrderDirection \<Rightarrow> string" where
  "push_order sql field direction =
     push_identifier sql (fs_column field) @
     (case direction of Ascending \<Rightarrow> '' ASC'' | Descending \<Rightarrow> '' DESC'')"

fun comparison_sql :: "Comparison \<Rightarrow> string" where
  "comparison_sql Equal = '' = ?''"
| "comparison_sql NotEqual = '' <> ?''"
| "comparison_sql Less = '' < ?''"
| "comparison_sql LessOrEqual = '' <= ?''"
| "comparison_sql Greater = '' > ?''"
| "comparison_sql GreaterOrEqual = '' >= ?''"

fun null_comparison_sql :: "NullComparison \<Rightarrow> string" where
  "null_comparison_sql IsNull = '' IS NULL''"
| "null_comparison_sql IsNotNull = '' IS NOT NULL''"

text \<open>The common prologue of a node: count it, then check depth and node limits.\<close>

definition enter_node :: "nat \<Rightarrow> nat \<Rightarrow> nat result" where
  "enter_node depth nodes =
     (if nodes + 1 \<ge> 2 ^ 64 then Inl invalid_query
      else if depth > MAX_PREDICATE_DEPTH \<or> nodes + 1 > MAX_PREDICATE_NODES then Inl invalid_query
      else Inr (nodes + 1))"

fun compile_predicate ::
  "CollectionSchema \<Rightarrow> PredicateNode \<Rightarrow> string \<Rightarrow> Value list \<Rightarrow> nat \<Rightarrow> nat
     \<Rightarrow> (string \<times> Value list \<times> nat) result" where
  "compile_predicate schema (Compare field comparison value) sql values depth nodes =
     bind_result (enter_node depth nodes) (\<lambda>nodes.
     bind_result (validate_field schema field) (\<lambda>_.
     bind_result (validate_bound_value field value) (\<lambda>_.
     let sql = push_identifier (sql @ ''('') (fs_column field) in
     if value = VNull
     then (case comparison of
             Equal \<Rightarrow> Inr (sql @ '' IS NULL'' @ '')'', values, nodes)
           | NotEqual \<Rightarrow> Inr (sql @ '' IS NOT NULL'' @ '')'', values, nodes)
           | _ \<Rightarrow> Inl invalid_query)
     else Inr (sql @ comparison_sql comparison @ '')'', values @ [value], nodes))))"
| "compile_predicate schema (NullTest field comparison) sql values depth nodes =
     bind_result (enter_node depth nodes) (\<lambda>nodes.
     bind_result (validate_field schema field) (\<lambda>_.
     if \<not> fs_nullable field then Inl invalid_query
     else
       let sql = push_identifier (sql @ ''('') (fs_column field) in
       Inr (sql @ null_comparison_sql comparison @ '')'', values, nodes)))"
| "compile_predicate schema (And left right) sql values depth nodes =
     bind_result (enter_node depth nodes) (\<lambda>nodes.
     bind_result (compile_predicate schema left (sql @ ''('') values (depth + 1) nodes)
       (\<lambda>(sql, values, nodes).
     bind_result (compile_predicate schema right (sql @ '' AND '') values (depth + 1) nodes)
       (\<lambda>(sql, values, nodes). Inr (sql @ '')'', values, nodes))))"
| "compile_predicate schema (Or left right) sql values depth nodes =
     bind_result (enter_node depth nodes) (\<lambda>nodes.
     bind_result (compile_predicate schema left (sql @ ''('') values (depth + 1) nodes)
       (\<lambda>(sql, values, nodes).
     bind_result (compile_predicate schema right (sql @ '' OR '') values (depth + 1) nodes)
       (\<lambda>(sql, values, nodes). Inr (sql @ '')'', values, nodes))))"
| "compile_predicate schema (Not inner) sql values depth nodes =
     bind_result (enter_node depth nodes) (\<lambda>nodes.
     bind_result (compile_predicate schema inner (sql @ ''(NOT '') values (depth + 1) nodes)
       (\<lambda>(sql, values, nodes). Inr (sql @ '')'', values, nodes)))"

definition compile_where ::
  "CollectionSchema \<Rightarrow> PredicateNode option \<Rightarrow> string \<Rightarrow> (string \<times> Value list) result" where
  "compile_where schema predicate sql =
     (case predicate of
        None \<Rightarrow> Inr (sql, [])
      | Some p \<Rightarrow>
          bind_result (compile_predicate schema p (sql @ '' WHERE '') [] 1 0) (\<lambda>(sql, values, _).
          Inr (sql, values)))"

definition compile_exists_query ::
  "CollectionSchema \<Rightarrow> PredicateNode option \<Rightarrow> QueryOrder list \<Rightarrow> CollectionExistsQuery result" where
  "compile_exists_query schema predicate order =
     (if order \<noteq> [] then Inl invalid_query
      else
        bind_result (map_err (\<lambda>_. invalid_query) (validate_collection_schema schema)) (\<lambda>_.
        let sql = push_identifier ''SELECT 1 FROM '' (cs_table schema) in
        bind_result (compile_where schema predicate sql) (\<lambda>(sql, values).
        Inr \<lparr>ceq_sql = sql @ '' LIMIT 1'', ceq_values = values\<rparr>)))"

fun push_columns :: "bool \<Rightarrow> string \<Rightarrow> FieldSchema list \<Rightarrow> string" where
  "push_columns first sql [] = sql"
| "push_columns first sql (f # fs) =
     push_columns False (push_identifier (if first then sql else sql @ '', '') (fs_column f)) fs"

definition order_term ::
  "CollectionSchema \<Rightarrow> QueryOrder \<Rightarrow> bool \<times> string \<times> string set \<Rightarrow> (bool \<times> string \<times> string set) result" where
  "order_term schema term st =
     (case st of (first, sql, ordered) \<Rightarrow>
        bind_result (validate_field schema (qo_field term)) (\<lambda>_.
        if fs_id (qo_field term) \<in> ordered then Inl invalid_query
        else Inr (False,
          push_order (if first then sql else sql @ '', '') (qo_field term) (qo_direction term),
          insert (fs_id (qo_field term)) ordered)))"

definition compile_query ::
  "CollectionSchema \<Rightarrow> PredicateNode option \<Rightarrow> QueryOrder list \<Rightarrow> u32 \<Rightarrow> CollectionQuery result" where
  "compile_query schema predicate order limit =
     (if limit = 0 \<or> limit > MAX_QUERY_LIMIT \<or> length order > MAX_QUERY_ORDER_FIELDS
      then Inl invalid_query
      else
        bind_result (map_err (\<lambda>_. invalid_query) (validate_collection_schema schema)) (\<lambda>_.
        bind_result (ok_or invalid_query (primary_key schema)) (\<lambda>pk.
        let sql = push_columns True ''SELECT '' (cs_fields schema);
            sql = push_identifier (sql @ '' FROM '') (cs_table schema) in
        bind_result (compile_where schema predicate sql) (\<lambda>(sql, values).
        bind_result (for_each (order_term schema) order (True, sql @ '' ORDER BY '', {})) (\<lambda>(_, sql, ordered).
        let sql = (if fs_id pk \<notin> ordered
                   then push_order (if order = [] then sql else sql @ '', '') pk Ascending
                   else sql) in
        Inr \<lparr>cq_sql = sql @ '' LIMIT ?'', cq_values = values @ [VInteger (ucast limit)],
             cq_limit = limit\<rparr>)))))"

definition draft_take :: "CollectionSchema \<Rightarrow> QueryDraft \<Rightarrow> u32 \<Rightarrow> CollectionQuery result" where
  "draft_take schema d limit = compile_query schema (qd_predicate d) (qd_order d) limit"

definition draft_exists :: "CollectionSchema \<Rightarrow> QueryDraft \<Rightarrow> CollectionExistsQuery result" where
  "draft_exists schema d = compile_exists_query schema (qd_predicate d) (qd_order d)"

end
