(* ===== verification/Query_Spec.thy ===== *)
theory Query_Spec
  imports Query
begin

text \<open>
  What a compiled query means. A parser for the SQL fragment that \<^const>\<open>compile_predicate\<close> emits
  and a three-valued evaluator with positional parameters give the produced text a meaning; the
  theorems relate it to the direct meaning of the predicate tree and bound every query.
\<close>

section \<open>Quoting in the query compiler\<close>

lemma push_identifier_chars_eq: "push_identifier_chars sql cs = sql @ replace_dquote cs"
  by (induction cs arbitrary: sql) auto

lemma push_identifier_eq: "push_identifier sql s = sql @ dquote # replace_dquote s @ [dquote]"
  by (simp add: push_identifier_def push_identifier_chars_eq)

interpretation push_id: identifier_quoter "push_identifier []"
  by (rule quoting_by_doubling) (simp add: push_identifier_eq)

lemma push_identifier_append: "push_identifier sql s = sql @ push_identifier [] s"
  by (simp add: push_identifier_eq)

section \<open>The text of a predicate\<close>

fun psize :: "PredicateNode \<Rightarrow> nat" where
  "psize (And l r) = Suc (psize l + psize r)"
| "psize (Or l r) = Suc (psize l + psize r)"
| "psize (Not p) = Suc (psize p)"
| "psize _ = 1"

fun pheight :: "PredicateNode \<Rightarrow> nat" where
  "pheight (And l r) = Suc (max (pheight l) (pheight r))"
| "pheight (Or l r) = Suc (max (pheight l) (pheight r))"
| "pheight (Not p) = Suc (pheight p)"
| "pheight _ = 1"

fun leaves_ok :: "CollectionSchema \<Rightarrow> PredicateNode \<Rightarrow> bool" where
  "leaves_ok s (Compare f c v) =
     (f \<in> set (cs_fields s) \<and> validate_bound_value f v = Inr () \<and> (v = VNull \<longrightarrow> c \<in> {Equal, NotEqual}))"
| "leaves_ok s (NullTest f c) = (f \<in> set (cs_fields s) \<and> fs_nullable f)"
| "leaves_ok s (And l r) = (leaves_ok s l \<and> leaves_ok s r)"
| "leaves_ok s (Or l r) = (leaves_ok s l \<and> leaves_ok s r)"
| "leaves_ok s (Not p) = leaves_ok s p"

fun predicate_sql :: "PredicateNode \<Rightarrow> string" where
  "predicate_sql (Compare f c v) = ''('' @ push_identifier [] (fs_column f) @
     (if v = VNull then (if c = Equal then '' IS NULL'' else '' IS NOT NULL'') else comparison_sql c) @ '')''"
| "predicate_sql (NullTest f c) = ''('' @ push_identifier [] (fs_column f) @ null_comparison_sql c @ '')''"
| "predicate_sql (And l r) = ''('' @ predicate_sql l @ '' AND '' @ predicate_sql r @ '')''"
| "predicate_sql (Or l r) = ''('' @ predicate_sql l @ '' OR '' @ predicate_sql r @ '')''"
| "predicate_sql (Not p) = ''(NOT '' @ predicate_sql p @ '')''"

fun predicate_params :: "PredicateNode \<Rightarrow> Value list" where
  "predicate_params (Compare f c v) = (if v = VNull then [] else [v])"
| "predicate_params (NullTest f c) = []"
| "predicate_params (And l r) = predicate_params l @ predicate_params r"
| "predicate_params (Or l r) = predicate_params l @ predicate_params r"
| "predicate_params (Not p) = predicate_params p"

definition within_limits :: "nat \<Rightarrow> nat \<Rightarrow> PredicateNode \<Rightarrow> bool" where
  "within_limits depth nodes p \<longleftrightarrow>
     depth + pheight p \<le> MAX_PREDICATE_DEPTH + 1 \<and> nodes + psize p \<le> MAX_PREDICATE_NODES"

lemma enter_node_eq:
  "enter_node depth nodes =
     (if depth \<le> MAX_PREDICATE_DEPTH \<and> nodes + 1 \<le> MAX_PREDICATE_NODES
      then Inr (nodes + 1) else Inl invalid_query)"
  by (auto simp: enter_node_def MAX_PREDICATE_NODES_def)

lemma validate_field_eq:
  "validate_field s f = (if f \<in> set (cs_fields s) then Inr () else Inl invalid_query)"
  by (simp add: validate_field_def)

lemma validate_bound_value_cases:
  "validate_bound_value f v = Inr () \<or> validate_bound_value f v = Inl invalid_query"
  by (simp add: validate_bound_value_def Let_def)

lemma psize_pos [simp]: "0 < psize p"
  by (cases p) simp_all

lemma pheight_pos [simp]: "0 < pheight p"
  by (cases p) simp_all

text \<open>Text pushed on a buffer is the buffer followed by the text.\<close>

lemmas push_identifier_buffer =
  push_identifier_append [of "sql @ t" for sql t]

lemma compile_predicate_eq:
  "compile_predicate s p sql vs depth nodes =
     (if within_limits depth nodes p \<and> leaves_ok s p
      then Inr (sql @ predicate_sql p, vs @ predicate_params p, nodes + psize p)
      else Inl invalid_query)"
proof (induction p arbitrary: sql vs depth nodes)
  case (Compare f c v)
  show ?case
    using validate_bound_value_cases [of f v]
    by (cases c) (auto simp: enter_node_eq validate_field_eq within_limits_def
        push_identifier_buffer)
next
  case (NullTest f c)
  show ?case
    by (auto simp: enter_node_eq validate_field_eq within_limits_def
        push_identifier_buffer)
next
  case (And l r)
  show ?case by (auto simp: enter_node_eq And within_limits_def)
next
  case (Or l r)
  show ?case by (auto simp: enter_node_eq Or within_limits_def)
next
  case (Not p)
  show ?case by (auto simp: enter_node_eq Not within_limits_def)
qed

section \<open>Reading the text back\<close>

datatype sql_expr =
    SqlIsNull string
  | SqlIsNotNull string
  | SqlCmp string Comparison
  | SqlAnd sql_expr sql_expr
  | SqlOr sql_expr sql_expr
  | SqlNot sql_expr

fun strip_prefix :: "string \<Rightarrow> string \<Rightarrow> string option" where
  "strip_prefix [] s = Some s"
| "strip_prefix (p # ps) [] = None"
| "strip_prefix (p # ps) (c # s) = (if p = c then strip_prefix ps s else None)"

lemma strip_prefix_append [simp]: "strip_prefix p (p @ s) = Some s"
  by (induction p) simp_all

fun first_prefix :: "(string \<times> 'a) list \<Rightarrow> string \<Rightarrow> ('a \<times> string) option" where
  "first_prefix [] s = None"
| "first_prefix ((p, x) # ps) s =
     (case strip_prefix p s of Some r \<Rightarrow> Some (x, r) | None \<Rightarrow> first_prefix ps s)"

definition read_test :: "string \<Rightarrow> string \<Rightarrow> (sql_expr \<times> string) option" where
  "read_test col s = first_prefix
     [('' IS NULL)'', SqlIsNull col), ('' IS NOT NULL)'', SqlIsNotNull col),
      ('' = ?)'', SqlCmp col Equal), ('' <> ?)'', SqlCmp col NotEqual),
      ('' < ?)'', SqlCmp col Less), ('' <= ?)'', SqlCmp col LessOrEqual),
      ('' > ?)'', SqlCmp col Greater), ('' >= ?)'', SqlCmp col GreaterOrEqual)] s"

fun parse_expr :: "nat \<Rightarrow> string \<Rightarrow> (sql_expr \<times> string) option" where
  "parse_expr 0 s = None"
| "parse_expr (Suc n) s =
     Option.bind (strip_prefix ''('' s) (\<lambda>s.
     case read_identifier s of
       Some (col, r) \<Rightarrow> read_test col r
     | None \<Rightarrow>
         (case strip_prefix ''NOT '' s of
            Some r \<Rightarrow>
              Option.bind (parse_expr n r) (\<lambda>(e, r).
              Option.bind (strip_prefix '')'' r) (\<lambda>r. Some (SqlNot e, r)))
          | None \<Rightarrow>
              Option.bind (parse_expr n s) (\<lambda>(l, r).
              Option.bind (first_prefix [('' AND '', SqlAnd), ('' OR '', SqlOr)] r) (\<lambda>(con, r).
              Option.bind (parse_expr n r) (\<lambda>(e, r).
              Option.bind (strip_prefix '')'' r) (\<lambda>r. Some (con l e, r)))))))"

fun sql_of :: "PredicateNode \<Rightarrow> sql_expr" where
  "sql_of (Compare f c v) =
     (if v = VNull then (if c = Equal then SqlIsNull (fs_column f) else SqlIsNotNull (fs_column f))
      else SqlCmp (fs_column f) c)"
| "sql_of (NullTest f c) =
     (case c of IsNull \<Rightarrow> SqlIsNull (fs_column f) | IsNotNull \<Rightarrow> SqlIsNotNull (fs_column f))"
| "sql_of (And l r) = SqlAnd (sql_of l) (sql_of r)"
| "sql_of (Or l r) = SqlOr (sql_of l) (sql_of r)"
| "sql_of (Not p) = SqlNot (sql_of p)"

lemma predicate_sql_paren: "\<exists>t. predicate_sql p = CHR ''('' # t"
  by (cases p) simp_all

lemma read_identifier_push:
  "(\<And>r. rest \<noteq> dquote # r) \<Longrightarrow> read_identifier (push_identifier [] c @ rest) = Some (c, rest)"
  by (rule push_id.read_back)

lemma read_test_comparison: "read_test col (comparison_sql c @ CHR '')'' # rest) = Some (SqlCmp col c, rest)"
  by (cases c) (simp_all add: read_test_def)

lemma read_test_null:
  "read_test col ('' IS NULL'' @ CHR '')'' # rest) = Some (SqlIsNull col, rest)"
  "read_test col ('' IS NOT NULL'' @ CHR '')'' # rest) = Some (SqlIsNotNull col, rest)"
  by (simp_all add: read_test_def)

lemma comparison_sql_no_quote: "comparison_sql c @ t \<noteq> dquote # r"
  by (cases c) simp_all

lemma parse_leaf:
  assumes "\<And>r. t @ CHR '')'' # rest \<noteq> dquote # r"
    and "read_test col (t @ CHR '')'' # rest) = Some (e, rest)"
  shows "parse_expr (Suc n) (''('' @ push_identifier [] col @ t @ '')'' @ rest) = Some (e, rest)"
  using read_identifier_push [OF assms(1), of col] assms(2) by simp

lemma parse_predicate_sql:
  "pheight p \<le> n \<Longrightarrow> parse_expr n (predicate_sql p @ rest) = Some (sql_of p, rest)"
proof (induction p arbitrary: n rest)
  case (Compare f c v)
  then obtain m where n: "n = Suc m" by (cases n) auto
  show ?case
    unfolding n
    using parse_leaf [OF comparison_sql_no_quote read_test_comparison, where col = "fs_column f" and n = m]
      parse_leaf [OF _ read_test_null(1), where col = "fs_column f" and n = m]
      parse_leaf [OF _ read_test_null(2), where col = "fs_column f" and n = m]
    by (auto simp del: parse_expr.simps)
next
  case (NullTest f c)
  then obtain m where n: "n = Suc m" by (cases n) auto
  show ?case
    unfolding n
    using parse_leaf [OF _ read_test_null(1), where col = "fs_column f" and n = m]
      parse_leaf [OF _ read_test_null(2), where col = "fs_column f" and n = m]
    by (cases c) (auto simp del: parse_expr.simps)
next
  case (And l r)
  then obtain m where n: "n = Suc m" "pheight l \<le> m" "pheight r \<le> m" by (cases n) auto
  obtain t where t: "predicate_sql l = CHR ''('' # t" using predicate_sql_paren by blast
  show ?case
    using And.IH(1) [OF n(2), of "'' AND '' @ predicate_sql r @ '')'' @ rest"]
      And.IH(2) [OF n(3), of "'')'' @ rest"]
    by (simp add: n(1) t)
next
  case (Or l r)
  then obtain m where n: "n = Suc m" "pheight l \<le> m" "pheight r \<le> m" by (cases n) auto
  obtain t where t: "predicate_sql l = CHR ''('' # t" using predicate_sql_paren by blast
  show ?case
    using Or.IH(1) [OF n(2), of "'' OR '' @ predicate_sql r @ '')'' @ rest"]
      Or.IH(2) [OF n(3), of "'')'' @ rest"]
    by (simp add: n(1) t)
next
  case (Not p)
  then obtain m where n: "n = Suc m" "pheight p \<le> m" by (cases n) auto
  show ?case using Not.IH [OF n(2), of "'')'' @ rest"] by (simp add: n(1))
qed

section \<open>Three-valued meaning\<close>

text \<open>
  The engine's comparison of two values is a parameter \<open>cmp\<close>; unknown is \<^const>\<open>None\<close>. Parameter
  markers take the bound values in reading order, and a marker with no value reads NULL.
\<close>

fun and3 :: "bool option \<Rightarrow> bool option \<Rightarrow> bool option" where
  "and3 (Some False) _ = Some False"
| "and3 _ (Some False) = Some False"
| "and3 (Some True) (Some True) = Some True"
| "and3 _ _ = None"

fun or3 :: "bool option \<Rightarrow> bool option \<Rightarrow> bool option" where
  "or3 (Some True) _ = Some True"
| "or3 _ (Some True) = Some True"
| "or3 (Some False) (Some False) = Some False"
| "or3 _ _ = None"

fun eval_sql ::
  "(Comparison \<Rightarrow> Value \<Rightarrow> Value \<Rightarrow> bool option) \<Rightarrow> (string \<Rightarrow> Value) \<Rightarrow> sql_expr \<Rightarrow> Value list
     \<Rightarrow> bool option \<times> Value list" where
  "eval_sql cmp row (SqlIsNull c) ps = (Some (row c = VNull), ps)"
| "eval_sql cmp row (SqlIsNotNull c) ps = (Some (row c \<noteq> VNull), ps)"
| "eval_sql cmp row (SqlCmp c op) ps =
     (case ps of [] \<Rightarrow> (cmp op (row c) VNull, []) | v # ps \<Rightarrow> (cmp op (row c) v, ps))"
| "eval_sql cmp row (SqlAnd l r) ps =
     (let (a, ps) = eval_sql cmp row l ps; (b, ps) = eval_sql cmp row r ps in (and3 a b, ps))"
| "eval_sql cmp row (SqlOr l r) ps =
     (let (a, ps) = eval_sql cmp row l ps; (b, ps) = eval_sql cmp row r ps in (or3 a b, ps))"
| "eval_sql cmp row (SqlNot e) ps =
     (let (a, ps) = eval_sql cmp row e ps in (map_option HOL.Not a, ps))"

text \<open>The meaning of a predicate tree: comparing with \<^verbatim>\<open>None\<close> asks whether the field is null.\<close>

fun eval_predicate ::
  "(Comparison \<Rightarrow> Value \<Rightarrow> Value \<Rightarrow> bool option) \<Rightarrow> (string \<Rightarrow> Value) \<Rightarrow> PredicateNode \<Rightarrow> bool option" where
  "eval_predicate cmp row (Compare f c v) =
     (if v = VNull then Some (if c = Equal then row (fs_column f) = VNull else row (fs_column f) \<noteq> VNull)
      else cmp c (row (fs_column f)) v)"
| "eval_predicate cmp row (NullTest f c) =
     Some (case c of IsNull \<Rightarrow> row (fs_column f) = VNull | IsNotNull \<Rightarrow> row (fs_column f) \<noteq> VNull)"
| "eval_predicate cmp row (And l r) = and3 (eval_predicate cmp row l) (eval_predicate cmp row r)"
| "eval_predicate cmp row (Or l r) = or3 (eval_predicate cmp row l) (eval_predicate cmp row r)"
| "eval_predicate cmp row (Not p) = map_option HOL.Not (eval_predicate cmp row p)"

lemma eval_sql_of:
  "eval_sql cmp row (sql_of p) (predicate_params p @ rest) = (eval_predicate cmp row p, rest)"
proof (induction p arbitrary: rest)
  case (NullTest f c)
  then show ?case by (cases c) simp_all
qed simp_all

lemma predicate_sql_params:
  "count_params False (predicate_sql p) = length (predicate_params p) \<and> balanced_quotes (predicate_sql p)"
proof (induction p)
  case (Compare f c v)
  then show ?case
    by (cases c) (simp_all add: push_id.no_params push_id.balanced balanced_no_quotes)
next
  case (NullTest f c)
  then show ?case
    by (cases c) (simp_all add: push_id.no_params push_id.balanced balanced_no_quotes)
qed simp_all

section \<open>Whole statements\<close>

record select_stmt =
  sel_columns :: "string list"
  sel_table :: string
  sel_where :: "sql_expr option"
  sel_order :: "(string \<times> OrderDirection) list"

fun read_columns :: "nat \<Rightarrow> string \<Rightarrow> (string list \<times> string) option" where
  "read_columns 0 s = None"
| "read_columns (Suc n) s =
     Option.bind (read_identifier s) (\<lambda>(c, r).
     case strip_prefix '', '' r of
       None \<Rightarrow> Some ([c], r)
     | Some r \<Rightarrow> Option.bind (read_columns n r) (\<lambda>(cs, r). Some (c # cs, r)))"

fun read_order :: "nat \<Rightarrow> string \<Rightarrow> ((string \<times> OrderDirection) list \<times> string) option" where
  "read_order 0 s = None"
| "read_order (Suc n) s =
     Option.bind (read_identifier s) (\<lambda>(c, r).
     Option.bind (first_prefix [('' ASC'', Ascending), ('' DESC'', Descending)] r) (\<lambda>(d, r).
     case strip_prefix '', '' r of
       None \<Rightarrow> Some ([(c, d)], r)
     | Some r \<Rightarrow> Option.bind (read_order n r) (\<lambda>(os, r). Some ((c, d) # os, r))))"

definition read_where :: "nat \<Rightarrow> string \<Rightarrow> (sql_expr option \<times> string) option" where
  "read_where n s =
     (case strip_prefix '' WHERE '' s of
        None \<Rightarrow> Some (None, s)
      | Some r \<Rightarrow> Option.bind (parse_expr n r) (\<lambda>(e, r). Some (Some e, r)))"

definition parse_select :: "string \<Rightarrow> select_stmt option" where
  "parse_select s =
     Option.bind (strip_prefix ''SELECT '' s) (\<lambda>r.
     Option.bind (read_columns (length s) r) (\<lambda>(cols, r).
     Option.bind (strip_prefix '' FROM '' r) (\<lambda>r.
     Option.bind (read_identifier r) (\<lambda>(table, r).
     Option.bind (read_where (length s) r) (\<lambda>(w, r).
     Option.bind (strip_prefix '' ORDER BY '' r) (\<lambda>r.
     Option.bind (read_order (length s) r) (\<lambda>(os, r).
     if r = '' LIMIT ?''
     then Some \<lparr>sel_columns = cols, sel_table = table, sel_where = w, sel_order = os\<rparr>
     else None)))))))"

definition order_sql :: "string \<times> OrderDirection \<Rightarrow> string" where
  "order_sql o' = push_identifier [] (fst o') @
     (case snd o' of Ascending \<Rightarrow> '' ASC'' | Descending \<Rightarrow> '' DESC'')"

lemma read_columns_join:
  assumes "length cs \<le> n" "cs \<noteq> []" "\<And>r. rest \<noteq> dquote # r" "strip_prefix '', '' rest = None"
  shows "read_columns n (join '', '' (map (push_identifier []) cs) @ rest) = Some (cs, rest)"
  using assms(1,2)
proof (induction cs arbitrary: n rule: induct_list012)
  case (2 c)
  then obtain m where "n = Suc m" by (cases n) auto
  then show ?case using assms(3,4) by (simp add: read_identifier_push)
next
  case (3 c d cs)
  then obtain m where m: "n = Suc m" "length (d # cs) \<le> m" by (cases n) auto
  with 3 have "read_columns m (join '', '' (map (push_identifier []) (d # cs)) @ rest) = Some (d # cs, rest)"
    by blast
  then show ?case by (simp add: m(1) read_identifier_push)
qed simp

lemma read_order_join:
  assumes "length os \<le> n" "os \<noteq> []" "strip_prefix '', '' rest = None"
  shows "read_order n (join '', '' (map order_sql os) @ rest) = Some (os, rest)"
  using assms(1,2)
proof (induction os arbitrary: n rule: induct_list012)
  case (2 x)
  then obtain m where "n = Suc m" by (cases n) auto
  then show ?case using assms(3)
    by (cases x; cases "snd x") (auto simp: order_sql_def read_identifier_push)
next
  case (3 x y os)
  then obtain m where m: "n = Suc m" "length (y # os) \<le> m" by (cases n) auto
  with 3 have "read_order m (join '', '' (map order_sql (y # os)) @ rest) = Some (y # os, rest)"
    by blast
  then show ?case
    by (cases x; cases "snd x") (auto simp: m(1) order_sql_def [of x] order_sql_def [of "(_, _)"] read_identifier_push)
qed simp

section \<open>Compilation in closed form\<close>

definition predicate_ok :: "CollectionSchema \<Rightarrow> PredicateNode option \<Rightarrow> bool" where
  "predicate_ok s p =
     (case p of None \<Rightarrow> True
      | Some p \<Rightarrow> pheight p \<le> MAX_PREDICATE_DEPTH \<and> psize p \<le> MAX_PREDICATE_NODES \<and> leaves_ok s p)"

definition where_sql :: "PredicateNode option \<Rightarrow> string" where
  "where_sql p = (case p of None \<Rightarrow> [] | Some p \<Rightarrow> '' WHERE '' @ predicate_sql p)"

definition where_params :: "PredicateNode option \<Rightarrow> Value list" where
  "where_params p = (case p of None \<Rightarrow> [] | Some p \<Rightarrow> predicate_params p)"

lemma compile_where_eq:
  "compile_where s p sql =
     (if predicate_ok s p then Inr (sql @ where_sql p, where_params p) else Inl invalid_query)"
  by (auto simp: compile_where_def predicate_ok_def where_sql_def where_params_def
      compile_predicate_eq within_limits_def split: option.splits)

lemma join_Cons: "join sep (x # xs) = x @ (if xs = [] then [] else sep @ join sep xs)"
  by (cases xs) simp_all

lemma push_columns_eq:
  "push_columns first sql fs =
     sql @ (if first \<or> fs = [] then [] else '', '') @ join '', '' (map (push_identifier []) (map fs_column fs))"
proof (induction fs arbitrary: first sql)
  case (Cons f fs)
  show ?case
    unfolding push_columns.simps Cons list.map join_Cons
    by (simp add: push_identifier_append [of sql] push_identifier_append [of "sql @ t" for t])
qed simp

definition order_pair :: "QueryOrder \<Rightarrow> string \<times> OrderDirection" where
  "order_pair t = (fs_column (qo_field t), qo_direction t)"

lemma push_order_eq: "push_order sql f d = sql @ order_sql (fs_column f, d)"
  by (simp add: push_order_def order_sql_def push_identifier_append [of sql])

definition order_terms_ok :: "CollectionSchema \<Rightarrow> QueryOrder list \<Rightarrow> bool" where
  "order_terms_ok s order \<longleftrightarrow>
     (\<forall>t \<in> set order. qo_field t \<in> set (cs_fields s)) \<and> distinct (map (fs_id \<circ> qo_field) order)"

lemma order_term_eq:
  "order_term s t (first, sql, seen) =
     (if qo_field t \<in> set (cs_fields s) \<and> fs_id (qo_field t) \<notin> seen
      then Inr (False, sql @ (if first then [] else '', '') @ order_sql (order_pair t),
        insert (fs_id (qo_field t)) seen)
      else Inl invalid_query)"
  by (simp add: order_term_def validate_field_eq push_order_eq order_pair_def)

lemma order_terms_ok_Cons:
  "order_terms_ok s (t # order) \<and> (\<forall>x \<in> set (t # order). fs_id (qo_field x) \<notin> seen) \<longleftrightarrow>
     (qo_field t \<in> set (cs_fields s) \<and> fs_id (qo_field t) \<notin> seen) \<and>
     order_terms_ok s order \<and> (\<forall>x \<in> set order. fs_id (qo_field x) \<notin> insert (fs_id (qo_field t)) seen)"
  by (auto simp: order_terms_ok_def image_iff)

lemma order_loop_eq:
  "for_each (order_term s) order (first, sql, seen) =
     (if order_terms_ok s order \<and> (\<forall>t \<in> set order. fs_id (qo_field t) \<notin> seen)
      then Inr (first \<and> order = [],
        sql @ (if first \<or> order = [] then [] else '', '') @ join '', '' (map order_sql (map order_pair order)),
        seen \<union> (fs_id \<circ> qo_field) ` set order)
      else Inl invalid_query)"
proof (induction order arbitrary: first sql seen)
  case (Cons t order)
  show ?case
    unfolding order_terms_ok_Cons for_each.simps order_term_eq list.map join_Cons
    using Cons by (cases "qo_field t \<in> set (cs_fields s) \<and> fs_id (qo_field t) \<notin> seen") simp_all
qed (simp add: order_terms_ok_def)

text \<open>The ordering a query asks for: the caller's terms, then the primary key unless it is there.\<close>

definition effective_order :: "FieldSchema \<Rightarrow> QueryOrder list \<Rightarrow> (string \<times> OrderDirection) list" where
  "effective_order pk order =
     map order_pair order @
     (if fs_id pk \<in> (fs_id \<circ> qo_field) ` set order then [] else [(fs_column pk, Ascending)])"

definition query_ok :: "CollectionSchema \<Rightarrow> QueryDraft \<Rightarrow> u32 \<Rightarrow> bool" where
  "query_ok s d limit \<longleftrightarrow>
     1 \<le> limit \<and> limit \<le> MAX_QUERY_LIMIT \<and> length (qd_order d) \<le> MAX_QUERY_ORDER_FIELDS \<and>
     schema_wf s \<and> predicate_ok s (qd_predicate d) \<and> order_terms_ok s (qd_order d)"

definition query_text :: "CollectionSchema \<Rightarrow> FieldSchema \<Rightarrow> QueryDraft \<Rightarrow> string" where
  "query_text s pk d =
     ''SELECT '' @ join '', '' (map (push_identifier []) (map fs_column (cs_fields s))) @ '' FROM '' @
     push_identifier [] (cs_table s) @ where_sql (qd_predicate d) @ '' ORDER BY '' @
     join '', '' (map order_sql (effective_order pk (qd_order d))) @ '' LIMIT ?''"

lemma join_append:
  "join sep (xs @ ys) = join sep xs @ (if xs = [] \<or> ys = [] then [] else sep) @ join sep ys"
  by (induction xs) (auto simp: join_Cons)

lemma schema_wf_primary_key:
  assumes "schema_wf s"
  obtains pk where "primary_key s = Some pk" "pk \<in> set (cs_fields s)" "fs_primary_key pk"
  using assms by (rule primary_key_split) (auto intro: that)

lemma schema_accepted: "schema_wf s \<Longrightarrow> validate_collection_schema s = Inr ()"
  by (simp add: validate_schema_ok_iff)

lemma schema_rejected: "\<not> schema_wf s \<Longrightarrow> validate_collection_schema s = Inl invalid_schema"
  using validate_schema_ok_iff [of s] validate_schema_error [of s]
  by (cases "validate_collection_schema s") auto

lemma compile_query_eq:
  "compile_query s (qd_predicate d) (qd_order d) limit =
     (if query_ok s d limit
      then Inr \<lparr>cq_sql = query_text s (the (primary_key s)) d,
        cq_values = where_params (qd_predicate d) @ [VInteger (ucast limit)], cq_limit = limit\<rparr>
      else Inl invalid_query)"
proof (cases "schema_wf s")
  case True
  then obtain pk where pk: "primary_key s = Some pk" by (rule schema_wf_primary_key)
  have guard: "(limit = 0 \<or> limit > MAX_QUERY_LIMIT \<or> length (qd_order d) > MAX_QUERY_ORDER_FIELDS) \<longleftrightarrow>
      \<not> (1 \<le> limit \<and> limit \<le> MAX_QUERY_LIMIT \<and> length (qd_order d) \<le> MAX_QUERY_ORDER_FIELDS)"
    by (metis linorder_not_le word_less_1)
  have table: "push_identifier (sql @ '' FROM '') t = sql @ '' FROM '' @ push_identifier [] t" for sql t
    using push_identifier_append [of "sql @ '' FROM ''"] by simp
  have ordering: "join '', '' (map order_sql (map order_pair o' @ [(c, Ascending)])) =
      join '', '' (map order_sql (map order_pair o')) @ (if o' = [] then [] else '', '') @ order_sql (c, Ascending)"
    for o' c by (simp add: join_append)
  show ?thesis
    unfolding compile_query_def query_ok_def guard schema_accepted [OF True] pk
      push_columns_eq table compile_where_eq order_loop_eq push_order_eq query_text_def effective_order_def
    using True
    by (cases "predicate_ok s (qd_predicate d)"; cases "order_terms_ok s (qd_order d)")
      (simp_all add: ordering del: map_append list.map map_map)
next
  case False
  then show ?thesis
    unfolding compile_query_def query_ok_def by (simp add: schema_rejected)
qed

section \<open>What the engine reads\<close>

lemma where_sql_no_quote: "where_sql p @ '' ORDER BY '' @ t \<noteq> dquote # r"
  by (simp add: where_sql_def split: option.splits)

lemma read_where_sql:
  assumes "predicate_ok s p" "MAX_PREDICATE_DEPTH \<le> n"
  shows "read_where n (where_sql p @ '' ORDER BY '' @ t) = Some (map_option sql_of p, '' ORDER BY '' @ t)"
proof (cases p)
  case (Some q)
  have "pheight q \<le> n" using assms by (simp add: Some predicate_ok_def)
  from parse_predicate_sql [OF this, of "'' ORDER BY '' @ t"] show ?thesis
    by (simp add: read_where_def where_sql_def Some)
qed (simp add: read_where_def where_sql_def)

lemma join_length: "length ss \<le> length (join '', '' ss) + 1"
  by (induction ss) (auto simp: join_Cons)

text \<open>A line of SQL text is long enough to serve as the reader's fuel.\<close>

definition rendered :: "string list \<Rightarrow> string \<Rightarrow> PredicateNode option \<Rightarrow> (string \<times> OrderDirection) list \<Rightarrow> string" where
  "rendered cols table p os =
     ''SELECT '' @ join '', '' (map (push_identifier []) cols) @ '' FROM '' @ push_identifier [] table @
     where_sql p @ '' ORDER BY '' @ join '', '' (map order_sql os) @ '' LIMIT ?''"

lemma parse_select_rendered:
  assumes "cols \<noteq> []" "os \<noteq> []" "predicate_ok s p" "32 \<le> length (rendered cols table p os)"
  shows "parse_select (rendered cols table p os) =
    Some \<lparr>sel_columns = cols, sel_table = table, sel_where = map_option sql_of p, sel_order = os\<rparr>"
proof -
  let ?n = "length (rendered cols table p os)"
  let ?orders = "join '', '' (map order_sql os) @ '' LIMIT ?''"
  let ?tail = "push_identifier [] table @ where_sql p @ '' ORDER BY '' @ ?orders"
  have n: "length cols \<le> ?n" "length os \<le> ?n"
    using join_length [of "map (push_identifier []) cols"] join_length [of "map order_sql os"]
    by (simp_all add: rendered_def)
  have 1: "read_columns ?n (join '', '' (map (push_identifier []) cols) @ '' FROM '' @ ?tail) =
      Some (cols, '' FROM '' @ ?tail)"
    by (rule read_columns_join) (use n assms(1) in simp_all)
  have 2: "read_identifier ?tail = Some (table, where_sql p @ '' ORDER BY '' @ ?orders)"
    by (rule read_identifier_push) (rule where_sql_no_quote)
  have 3: "read_where ?n (where_sql p @ '' ORDER BY '' @ ?orders) =
      Some (map_option sql_of p, '' ORDER BY '' @ ?orders)"
    by (rule read_where_sql [OF assms(3)]) (use assms(4) in \<open>simp add: MAX_PREDICATE_DEPTH_def\<close>)
  have 4: "read_order ?n ?orders = Some (os, '' LIMIT ?'')"
    by (rule read_order_join) (use n assms(2) in simp_all)
  have text_eq: "strip_prefix ''SELECT '' (rendered cols table p os) =
      Some (join '', '' (map (push_identifier []) cols) @ '' FROM '' @ ?tail)"
    unfolding rendered_def by (rule strip_prefix_append)
  show ?thesis
    unfolding parse_select_def text_eq Option.bind.bind_lunit 1 prod.case strip_prefix_append 2 3 4
    by simp
qed

lemma query_text_rendered:
  "query_text s pk d =
     rendered (map fs_column (cs_fields s)) (cs_table s) (qd_predicate d) (effective_order pk (qd_order d))"
  by (simp add: query_text_def rendered_def)

lemma effective_order_nonempty: "effective_order pk order \<noteq> []"
  by (auto simp: effective_order_def)

lemma order_sql_length: "6 \<le> length (order_sql x)"
  by (cases "snd x") (simp_all add: order_sql_def push_identifier_eq)

lemma rendered_length:
  assumes "os \<noteq> []" "cols \<noteq> []"
  shows "32 \<le> length (rendered cols table p os)"
proof -
  obtain x xs c cs where "os = x # xs" "cols = c # cs" using assms by (cases os; cases cols) auto
  then show ?thesis
    using order_sql_length [of x] by (simp add: rendered_def join_Cons push_identifier_eq)
qed

lemma draft_take_Inr:
  assumes "draft_take s d limit = Inr q"
  shows "query_ok s d limit" "cq_sql q = query_text s (the (primary_key s)) d"
    "cq_values q = where_params (qd_predicate d) @ [VInteger (ucast limit)]" "cq_limit q = limit"
  using assms by (auto simp: draft_take_def compile_query_eq split: if_splits)

lemma query_text_parses:
  assumes "query_ok s d limit"
  shows "parse_select (query_text s pk d) =
    Some \<lparr>sel_columns = map fs_column (cs_fields s), sel_table = cs_table s,
      sel_where = map_option sql_of (qd_predicate d), sel_order = effective_order pk (qd_order d)\<rparr>"
proof -
  have cols: "map fs_column (cs_fields s) \<noteq> []" using assms by (auto simp: query_ok_def schema_wf_def)
  have "predicate_ok s (qd_predicate d)" using assms by (simp add: query_ok_def)
  then show ?thesis
    unfolding query_text_rendered
    by (rule parse_select_rendered [OF cols effective_order_nonempty])
      (rule rendered_length [OF effective_order_nonempty cols])
qed

lemma order_sql_params:
  "count_params False (order_sql x) = 0 \<and> balanced_quotes (order_sql x)"
  by (cases "snd x") (simp_all add: order_sql_def push_id.no_params push_id.balanced balanced_no_quotes)

lemma join_neutral:
  assumes "\<forall>t \<in> set ts. count_params False t = 0 \<and> balanced_quotes t"
  shows "count_params False (join '', '' ts) = 0 \<and> balanced_quotes (join '', '' ts)"
  using assms by (induction ts) (simp_all add: join_Cons)

lemma where_sql_params:
  "count_params False (where_sql p) = length (where_params p) \<and> balanced_quotes (where_sql p)"
  using predicate_sql_params by (simp add: where_sql_def where_params_def split: option.splits)

lemma rendered_params: "count_params False (rendered cols table p os) = length (where_params p) + 1"
proof -
  have os: "count_params False (join '', '' (map order_sql os)) = 0 \<and>
      balanced_quotes (join '', '' (map order_sql os))"
    by (rule join_neutral) (simp add: order_sql_params)
  show ?thesis
    using push_id.join_no_params [of cols] where_sql_params [of p] os
    by (simp add: rendered_def push_id.no_params push_id.balanced)
qed

text \<open>The rows a parsed statement keeps, with the given parameters.\<close>

definition keeps_row ::
  "(Comparison \<Rightarrow> Value \<Rightarrow> Value \<Rightarrow> bool option) \<Rightarrow> select_stmt \<Rightarrow> Value list \<Rightarrow> (string \<Rightarrow> Value) \<Rightarrow> bool" where
  "keeps_row cmp st ps row =
     (case sel_where st of None \<Rightarrow> True | Some e \<Rightarrow> fst (eval_sql cmp row e ps) = Some True)"

section \<open>Properties\<close>

text \<open>
  Claim C7. The SQL of a compiled query says what the draft asked. When \<^const>\<open>draft_take\<close>
  accepts a draft, reading the produced text back (whatever quotes, spaces or keywords the column and
  table names contain) gives the schema's columns in field order, its table, the boolean structure of
  the draft's predicate, and the requested ordering completed by the primary key.
\<close>

theorem query_text_reads_back:
  assumes "draft_take s d limit = Inr q"
  shows "\<exists>pk. primary_key s = Some pk \<and> pk \<in> set (cs_fields s) \<and>
    parse_select (cq_sql q) =
      Some \<lparr>sel_columns = map fs_column (cs_fields s), sel_table = cs_table s,
        sel_where = map_option sql_of (qd_predicate d), sel_order = effective_order pk (qd_order d)\<rparr>"
proof -
  have "schema_wf s" using draft_take_Inr(1) [OF assms] by (simp add: query_ok_def)
  then obtain pk where "primary_key s = Some pk" "pk \<in> set (cs_fields s)" by (rule schema_wf_primary_key)
  then show ?thesis
    using draft_take_Inr(2) [OF assms] query_text_parses [OF draft_take_Inr(1) [OF assms], of pk]
    by simp
qed

definition id_field :: FieldSchema where
  "id_field = \<lparr>fs_id = ''id'', fs_column = ''id'', fs_column_type = CInteger,
     fs_nullable = False, fs_primary_key = True\<rparr>"

definition note_field :: FieldSchema where
  "note_field = \<lparr>fs_id = ''note'', fs_column = ''no'' @ dquote # ''te?'', fs_column_type = CText,
     fs_nullable = True, fs_primary_key = False\<rparr>"

definition notes_schema :: CollectionSchema where
  "notes_schema = \<lparr>cs_id = ''notes'', cs_table = ''notes'', cs_version = 1,
     cs_fingerprint = SchemaFingerprint [], cs_fields = [id_field, note_field],
     cs_canonical_descriptor = ''notes'', cs_indexes = []\<rparr>"

definition notes_draft :: QueryDraft where
  "notes_draft =
     draft_order_by \<lparr>qo_field = note_field, qo_direction = Descending\<rparr>
       (draft_filter (Not (field_is_null note_field))
         (draft_filter (Compare note_field NotEqual (VText ''x'')) draft_new))"

lemmas notes_defs = notes_schema_def notes_draft_def id_field_def note_field_def draft_order_by_def
  draft_filter_def draft_new_def field_is_null_def

lemma notes_query_ok: "query_ok notes_schema notes_draft 10"
  by code_simp

lemma notes_query: "\<exists>q. draft_take notes_schema notes_draft 10 = Inr q"
  using notes_query_ok by (simp add: draft_take_def compile_query_eq)

theorem query_text_reads_back_witness:
  "\<exists>q pk. draft_take notes_schema notes_draft 10 = Inr q \<and> primary_key notes_schema = Some pk \<and>
    parse_select (cq_sql q) =
      Some \<lparr>sel_columns = [''id'', ''no'' @ dquote # ''te?''], sel_table = ''notes'',
        sel_where = Some (SqlAnd (SqlCmp (''no'' @ dquote # ''te?'') NotEqual)
          (SqlNot (SqlIsNull (''no'' @ dquote # ''te?'')))),
        sel_order = [(''no'' @ dquote # ''te?'', Descending), (''id'', Ascending)]\<rparr>"
proof -
  obtain q where q: "draft_take notes_schema notes_draft 10 = Inr q" using notes_query by blast
  from query_text_reads_back [OF q] show ?thesis
    using q by (auto simp: notes_defs primary_key_def effective_order_def order_pair_def)
qed

lemma keeps_row_eval:
  assumes "sel_where st = map_option sql_of p" "ps = where_params p @ rest"
  shows "keeps_row cmp st ps row \<longleftrightarrow> (\<forall>x. p = Some x \<longrightarrow> eval_predicate cmp row x = Some True)"
  using assms by (cases p) (simp_all add: keeps_row_def where_params_def eval_sql_of)

text \<open>
  Claim C6. The bound values reach the right markers. For every comparison the engine may implement
  and every row, the text of an accepted query evaluated in three-valued logic with the query's own
  parameter list keeps the row exactly when the draft's predicate is true of it; the statement has
  as many markers as bound values, and the value left for the final marker is the limit.
\<close>

theorem query_keeps_matching_rows:
  assumes "draft_take s d limit = Inr q"
  shows "\<exists>st. parse_select (cq_sql q) = Some st \<and>
    (\<forall>cmp row. keeps_row cmp st (cq_values q) row \<longleftrightarrow>
       (\<forall>p. qd_predicate d = Some p \<longrightarrow> eval_predicate cmp row p = Some True)) \<and>
    count_params False (cq_sql q) = length (cq_values q) \<and>
    last (cq_values q) = VInteger (ucast limit) \<and> cq_limit q = limit"
proof -
  note q = draft_take_Inr [OF assms]
  show ?thesis
    unfolding q(2,3) query_text_parses [OF q(1)]
    by (auto simp: keeps_row_eval [OF _ refl] query_text_rendered rendered_params q(4))
qed

theorem query_keeps_matching_rows_witness:
  "\<exists>q st. draft_take notes_schema notes_draft 10 = Inr q \<and> parse_select (cq_sql q) = Some st \<and>
    \<not> keeps_row (\<lambda>_ _ _. None) st (cq_values q) (\<lambda>_. VNull) \<and>
    keeps_row (\<lambda>_ _ _. Some True) st (cq_values q) (\<lambda>_. VText ''y'')"
proof -
  obtain q where q: "draft_take notes_schema notes_draft 10 = Inr q" using notes_query by blast
  from query_keeps_matching_rows [OF q] show ?thesis
    using q by (auto simp: notes_defs)
qed


lemma effective_order_columns:
  assumes "schema_wf s" "order_terms_ok s order" "primary_key s = Some pk" "pk \<in> set (cs_fields s)"
  shows "distinct (map fst (effective_order pk order)) \<and> fs_column pk \<in> set (map fst (effective_order pk order))"
proof -
  have inj: "fs_column f = fs_column g \<longleftrightarrow> fs_id f = fs_id g"
    if "f \<in> set (cs_fields s)" "g \<in> set (cs_fields s)" for f g
    using assms(1) that by (auto simp: schema_wf_def fields_wf_def distinct_map inj_on_def)
  have terms: "qo_field t \<in> set (cs_fields s)" if "t \<in> set order" for t
    using assms(2) that by (simp add: order_terms_ok_def)
  have fsts: "map fst (map order_pair order) = map (fs_column \<circ> qo_field) order"
    by (simp add: order_pair_def)
  have "inj_on (fs_id \<circ> qo_field) (set order)" "distinct order"
    using assms(2) by (auto simp: order_terms_ok_def distinct_map)
  then have "distinct (map (fs_column \<circ> qo_field) order)"
    using inj terms by (auto simp: distinct_map inj_on_def)
  moreover have "fs_column pk \<in> set (map (fs_column \<circ> qo_field) order) \<longleftrightarrow> fs_id pk \<in> (fs_id \<circ> qo_field) ` set order"
    using inj [OF assms(4) terms] by (auto simp: image_iff)
  ultimately show ?thesis
    unfolding effective_order_def map_append fsts by simp
qed

text \<open>
  Claim C24. Results of an accepted query have a deterministic order: the ordering columns the engine
  reads are pairwise distinct and contain the primary key's column, so rows that agree on all of
  them are the same row, and the caller's terms come first in the order given.
\<close>

theorem query_order_is_total:
  assumes "draft_take s d limit = Inr q" "parse_select (cq_sql q) = Some st" "primary_key s = Some pk"
  shows "distinct (map fst (sel_order st)) \<and> fs_column pk \<in> set (map fst (sel_order st)) \<and>
    take (length (qd_order d)) (sel_order st) = map order_pair (qd_order d)"
proof -
  note q = draft_take_Inr [OF assms(1)]
  have wf: "schema_wf s" "order_terms_ok s (qd_order d)" using q(1) by (simp_all add: query_ok_def)
  have mem: "pk \<in> set (cs_fields s)" using wf(1) assms(3) by (auto elim: schema_wf_primary_key)
  have st: "sel_order st = effective_order pk (qd_order d)"
    using assms(2,3) unfolding q(2) query_text_parses [OF q(1)] by auto
  show ?thesis
    using effective_order_columns [OF wf assms(3) mem] by (simp add: st) (simp add: effective_order_def)
qed

theorem query_order_is_total_witness:
  "\<exists>q st. draft_take notes_schema notes_draft 10 = Inr q \<and> parse_select (cq_sql q) = Some st \<and>
    ''id'' \<in> set (map fst (sel_order st))"
proof -
  obtain q where q: "draft_take notes_schema notes_draft 10 = Inr q" using notes_query by blast
  obtain st where st: "parse_select (cq_sql q) = Some st"
    using query_text_parses [OF notes_query_ok] draft_take_Inr(2) [OF q] by simp
  have pk: "primary_key notes_schema = Some id_field" by (simp add: notes_defs primary_key_def)
  from query_order_is_total [OF q st pk] show ?thesis
    using q st by (auto simp: id_field_def)
qed

section \<open>Existence queries\<close>

definition parse_exists :: "string \<Rightarrow> (string \<times> sql_expr option) option" where
  "parse_exists s =
     Option.bind (strip_prefix ''SELECT 1 FROM '' s) (\<lambda>r.
     Option.bind (read_identifier r) (\<lambda>(table, r).
     Option.bind (read_where (length s) r) (\<lambda>(w, r).
     if r = '' LIMIT 1'' then Some (table, w) else None)))"

definition exists_ok :: "CollectionSchema \<Rightarrow> QueryDraft \<Rightarrow> bool" where
  "exists_ok s d \<longleftrightarrow> qd_order d = [] \<and> schema_wf s \<and> predicate_ok s (qd_predicate d)"

definition exists_text :: "CollectionSchema \<Rightarrow> QueryDraft \<Rightarrow> string" where
  "exists_text s d =
     ''SELECT 1 FROM '' @ push_identifier [] (cs_table s) @ where_sql (qd_predicate d) @ '' LIMIT 1''"

lemma draft_exists_eq:
  "draft_exists s d =
     (if exists_ok s d
      then Inr \<lparr>ceq_sql = exists_text s d, ceq_values = where_params (qd_predicate d)\<rparr>
      else Inl invalid_query)"
proof (cases "schema_wf s")
  case True
  have table: "push_identifier ''SELECT 1 FROM '' t = ''SELECT 1 FROM '' @ push_identifier [] t" for t
    by (rule push_identifier_append)
  show ?thesis
    unfolding draft_exists_def compile_exists_query_def exists_ok_def schema_accepted [OF True]
      table compile_where_eq exists_text_def
    using True by simp
next
  case False
  then show ?thesis
    unfolding draft_exists_def compile_exists_query_def exists_ok_def by (simp add: schema_rejected)
qed

lemma pheight_predicate_sql: "pheight p \<le> length (predicate_sql p)"
  by (induction p) simp_all

lemma exists_text_parses: "parse_exists (exists_text s d) = Some (cs_table s, map_option sql_of (qd_predicate d))"
proof -
  let ?w = "where_sql (qd_predicate d) @ '' LIMIT 1''"
  have 1: "read_identifier (push_identifier [] (cs_table s) @ ?w) = Some (cs_table s, ?w)"
    by (rule read_identifier_push) (simp add: where_sql_def split: option.splits)
  have 2: "read_where n ?w = Some (map_option sql_of (qd_predicate d), '' LIMIT 1'')"
    if "length (exists_text s d) \<le> n" for n
  proof (cases "qd_predicate d")
    case (Some q)
    have "pheight q \<le> n"
      using that pheight_predicate_sql [of q] by (simp add: exists_text_def where_sql_def Some)
    from parse_predicate_sql [OF this, of "'' LIMIT 1''"] show ?thesis
      by (simp add: read_where_def where_sql_def Some)
  qed (simp add: read_where_def where_sql_def)
  have 3: "strip_prefix ''SELECT 1 FROM '' (exists_text s d) = Some (push_identifier [] (cs_table s) @ ?w)"
    unfolding exists_text_def by (rule strip_prefix_append)
  show ?thesis
    unfolding parse_exists_def 3 Option.bind.bind_lunit 1 prod.case 2 [OF order_refl] by simp
qed

text \<open>
  Existence queries. \<^const>\<open>draft_exists\<close> accepts exactly the drafts without ordering
  terms over a well-formed schema whose predicate respects the limits; the text it produces reads back as a
  one-row probe of the schema's table with the draft's predicate, its markers match its bound
  values, and it keeps exactly the rows of which the predicate is true; any other draft is
  \<^verbatim>\<open>InvalidQuery\<close>.
\<close>

lemma exists_query_correct:
  "(case draft_exists s d of
      Inl e \<Rightarrow> e = invalid_query \<and> \<not> exists_ok s d
    | Inr q \<Rightarrow> exists_ok s d \<and> parse_exists (ceq_sql q) = Some (cs_table s, map_option sql_of (qd_predicate d)) \<and>
        count_params False (ceq_sql q) = length (ceq_values q) \<and>
        (\<forall>cmp row. map_option (\<lambda>e. eval_sql cmp row e (ceq_values q)) (map_option sql_of (qd_predicate d)) =
           map_option (\<lambda>p. (eval_predicate cmp row p, [])) (qd_predicate d)))"
proof (cases "exists_ok s d")
  case True
  have "count_params False (exists_text s d) = length (where_params (qd_predicate d))"
    using where_sql_params [of "qd_predicate d"]
    by (simp add: exists_text_def push_id.no_params push_id.balanced)
  moreover have "map_option (\<lambda>e. eval_sql cmp row e (where_params (qd_predicate d))) (map_option sql_of (qd_predicate d)) =
      map_option (\<lambda>p. (eval_predicate cmp row p, [])) (qd_predicate d)" for cmp row
    using eval_sql_of [of cmp row _ "[]"] by (simp add: where_params_def split: option.splits)
  ultimately show ?thesis by (simp add: draft_exists_eq True exists_text_parses)
qed (simp add: draft_exists_eq)

end
