(* ===== verification/Effects.thy ===== *)
theory Effects
  imports Core_Error
begin

text \<open>
  Operations that change an external state (a database connection, a file, a registry) return a
  result together with the new state, also when they fail: a Rust method that returns \<^verbatim>\<open>Err\<close>
  may have changed its connection before. The combinators follow \<^verbatim>\<open>?\<close>, \<^verbatim>\<open>map_err\<close> and the
  \<^verbatim>\<open>for\<close> loop; their rules say which facts of the state survive a composed operation.
\<close>

type_synonym ('s, 'e, 'a) effect = "'s \<Rightarrow> ('e + 'a) \<times> 's"

definition ret_st :: "'a \<Rightarrow> ('s, 'e, 'a) effect" where
  "ret_st x s = (Inr x, s)"

definition fail_st :: "'e \<Rightarrow> ('s, 'e, 'a) effect" where
  "fail_st e s = (Inl e, s)"

definition lift_st :: "'e + 'a \<Rightarrow> ('s, 'e, 'a) effect" where
  "lift_st r s = (r, s)"

definition bind_st :: "('s, 'e, 'a) effect \<Rightarrow> ('a \<Rightarrow> ('s, 'e, 'b) effect) \<Rightarrow> ('s, 'e, 'b) effect" where
  "bind_st m f s = (case m s of (Inl e, s') \<Rightarrow> (Inl e, s') | (Inr x, s') \<Rightarrow> f x s')"

definition map_err_st :: "('e \<Rightarrow> 'f) \<Rightarrow> ('s, 'e, 'a) effect \<Rightarrow> ('s, 'f, 'a) effect" where
  "map_err_st f m s = (case m s of (r, s') \<Rightarrow> (map_err f r, s'))"

definition ensure_st :: "bool \<Rightarrow> 'e \<Rightarrow> ('s, 'e, unit) effect" where
  "ensure_st b e = (if b then ret_st () else fail_st e)"

fun for_st :: "('a \<Rightarrow> ('s, 'e, unit) effect) \<Rightarrow> 'a list \<Rightarrow> ('s, 'e, unit) effect" where
  "for_st body [] = ret_st ()"
| "for_st body (x # xs) = bind_st (body x) (\<lambda>_. for_st body xs)"

fun collect_st :: "('a \<Rightarrow> ('s, 'e, 'b) effect) \<Rightarrow> 'a list \<Rightarrow> ('s, 'e, 'b list) effect" where
  "collect_st body [] = ret_st []"
| "collect_st body (x # xs) =
     bind_st (body x) (\<lambda>y. bind_st (collect_st body xs) (\<lambda>ys. ret_st (y # ys)))"

lemma effect_simps [simp]:
  "ret_st x s = (Inr x, s)" "fail_st e s = (Inl e, s)" "lift_st r s = (r, s)"
  "bind_st (fail_st e) f = fail_st e" "bind_st (ret_st x) f = f x"
  "bind_st (lift_st (Inr x)) f = f x" "bind_st (lift_st (Inl e)) f = fail_st e"
  "ensure_st True e = ret_st ()" "ensure_st False e = fail_st e"
  by (auto simp: ret_st_def fail_st_def lift_st_def bind_st_def ensure_st_def)

lemma bind_st_Inr:
  "bind_st m f s = (Inr y, t) \<longleftrightarrow> (\<exists>x s'. m s = (Inr x, s') \<and> f x s' = (Inr y, t))"
  by (auto simp: bind_st_def split: prod.splits sum.splits)

lemma bind_st_Inl:
  "bind_st m f s = (Inl e, t) \<longleftrightarrow> m s = (Inl e, t) \<or> (\<exists>x s'. m s = (Inr x, s') \<and> f x s' = (Inl e, t))"
  by (auto simp: bind_st_def split: prod.splits sum.splits)

lemma map_err_st_Inr [simp]: "map_err_st f m s = (Inr x, t) \<longleftrightarrow> m s = (Inr x, t)"
  by (cases "m s") (auto simp: map_err_st_def)

lemma map_err_st_Inl [simp]: "map_err_st f m s = (Inl e, t) \<longleftrightarrow> (\<exists>e'. m s = (Inl e', t) \<and> e = f e')"
  by (cases "m s"; cases "fst (m s)") (auto simp: map_err_st_def)

lemma ensure_st_Inr [simp]: "ensure_st b e s = (Inr u, t) \<longleftrightarrow> b \<and> t = s"
  by (auto simp: ensure_st_def)

lemma ensure_st_Inl [simp]: "ensure_st b e s = (Inl x, t) \<longleftrightarrow> \<not> b \<and> x = e \<and> t = s"
  by (auto simp: ensure_st_def)

text \<open>
  An effect keeps a relation between the states before and after, whatever it returns. The
  relation is reflexive and transitive, so composed effects keep what their parts keep.
\<close>

definition keeps :: "('s \<Rightarrow> 's \<Rightarrow> bool) \<Rightarrow> ('s, 'e, 'a) effect \<Rightarrow> bool" where
  "keeps R m \<longleftrightarrow> (\<forall>s r t. m s = (r, t) \<longrightarrow> R s t)"

locale kept_relation =
  fixes R :: "'s \<Rightarrow> 's \<Rightarrow> bool"
  assumes keep_refl: "R s s"
    and keep_trans: "R s t \<Longrightarrow> R t u \<Longrightarrow> R s u"
begin

lemma keeps_pure [intro]: "keeps R (ret_st x)" "keeps R (fail_st e)" "keeps R (lift_st r)"
  "keeps R (ensure_st b e)"
  by (auto simp: keeps_def ensure_st_def intro: keep_refl)

lemma keeps_bind [intro]:
  assumes "keeps R m" "\<And>x. keeps R (f x)"
  shows "keeps R (bind_st m f)"
  unfolding keeps_def
proof (intro allI impI)
  fix s r t
  assume b: "bind_st m f s = (r, t)"
  obtain r' s' where m: "m s = (r', s')" by (cases "m s")
  then have "R s s'" using assms(1) by (simp add: keeps_def)
  moreover have "R s' t"
  proof (cases r')
    case (Inl e)
    then show ?thesis using b m by (auto simp: bind_st_def intro: keep_refl)
  next
    case (Inr x)
    then have "f x s' = (r, t)" using b m by (simp add: bind_st_def)
    then show ?thesis using assms(2) by (auto simp: keeps_def)
  qed
  ultimately show "R s t" by (rule keep_trans)
qed

lemma keeps_map_err [intro]: "keeps R m \<Longrightarrow> keeps R (map_err_st f m)"
  by (auto simp: keeps_def map_err_st_def split: prod.splits)

lemma keeps_for [intro]: "(\<And>x. x \<in> set xs \<Longrightarrow> keeps R (body x)) \<Longrightarrow> keeps R (for_st body xs)"
  by (induction xs) auto

lemma keeps_collect [intro]: "(\<And>x. x \<in> set xs \<Longrightarrow> keeps R (body x)) \<Longrightarrow> keeps R (collect_st body xs)"
  by (induction xs) auto

end

section \<open>Two-outcome triples\<close>

text \<open>
  \<open>triple P m Q E\<close>: from a state satisfying \<open>P\<close> the effect ends in \<open>Q\<close> with its value, or in \<open>E\<close> with
  its error. The rules compose triples along \<^const>\<open>bind_st\<close> and the loops.
\<close>

definition triple ::
  "('s \<Rightarrow> bool) \<Rightarrow> ('s, 'e, 'a) effect \<Rightarrow> ('a \<Rightarrow> 's \<Rightarrow> bool) \<Rightarrow> ('e \<Rightarrow> 's \<Rightarrow> bool) \<Rightarrow> bool" where
  "triple P m Q E \<longleftrightarrow> (\<forall>s. P s \<longrightarrow> (case m s of (Inr x, t) \<Rightarrow> Q x t | (Inl e, t) \<Rightarrow> E e t))"

lemma tripleI:
  assumes "\<And>s x t. P s \<Longrightarrow> m s = (Inr x, t) \<Longrightarrow> Q x t" "\<And>s e t. P s \<Longrightarrow> m s = (Inl e, t) \<Longrightarrow> E e t"
  shows "triple P m Q E"
  using assms by (auto simp: triple_def split: prod.splits sum.splits)

lemma triple_InrD: "triple P m Q E \<Longrightarrow> P s \<Longrightarrow> m s = (Inr x, t) \<Longrightarrow> Q x t"
  by (force simp: triple_def)

lemma triple_InlD: "triple P m Q E \<Longrightarrow> P s \<Longrightarrow> m s = (Inl e, t) \<Longrightarrow> E e t"
  by (force simp: triple_def)

lemma triple_bind:
  assumes "triple P m Q E" "\<And>x. triple (Q x) (f x) R E"
  shows "triple P (bind_st m f) R E"
proof (rule tripleI)
  fix s y t
  assume p: "P s" "bind_st m f s = (Inr y, t)"
  then obtain x s' where x: "m s = (Inr x, s')" "f x s' = (Inr y, t)" by (auto simp: bind_st_Inr)
  show "R y t" by (rule triple_InrD [OF assms(2) triple_InrD [OF assms(1) p(1) x(1)] x(2)])
next
  fix s e t
  assume p: "P s" "bind_st m f s = (Inl e, t)"
  then consider "m s = (Inl e, t)" | x s' where "m s = (Inr x, s')" "f x s' = (Inl e, t)"
    by (auto simp: bind_st_Inl)
  then show "E e t"
  proof cases
    case 1
    then show ?thesis by (rule triple_InlD [OF assms(1) p(1)])
  next
    case 2
    show ?thesis by (rule triple_InlD [OF assms(2) triple_InrD [OF assms(1) p(1) 2(1)] 2(2)])
  qed
qed

lemma triple_weaken:
  assumes "triple P m Q E" "\<And>s. P' s \<Longrightarrow> P s" "\<And>x s. Q x s \<Longrightarrow> Q' x s" "\<And>e s. E e s \<Longrightarrow> E' e s"
  shows "triple P' m Q' E'"
  by (rule tripleI) (blast intro: assms triple_InrD [OF assms(1)] triple_InlD [OF assms(1)])+

lemma triple_map_err: "triple P m Q (\<lambda>e. E (f e)) \<Longrightarrow> triple P (map_err_st f m) Q E"
  by (rule tripleI) (auto dest: triple_InrD triple_InlD)

lemma triple_ret: "(\<And>s. P s \<Longrightarrow> Q x s) \<Longrightarrow> triple P (ret_st x) Q E"
  by (simp add: triple_def)

lemma triple_lift:
  "(\<And>s. P s \<Longrightarrow> case r of Inl e \<Rightarrow> E e s | Inr x \<Rightarrow> Q x s) \<Longrightarrow> triple P (lift_st r) Q E"
  by (auto simp: triple_def split: sum.splits)

end
