(* ===== verification/Open_Policy.thy ===== *)
theory Open_Policy
  imports Core_Value
begin

text \<open>
  The open policy of \<^verbatim>\<open>csgdb-core/src/key.rs\<close> and \<^verbatim>\<open>csgdb-core/src/open.rs\<close>: flag words, key
  material and key sources, option validation (\<^verbatim>\<open>prepare_open\<close>) and key resolution
  (\<^verbatim>\<open>OpenPlan::resolve_key\<close>). A key provider is host code behind a trait, so it is a record
  of functions over an abstract key-store state \<open>'s\<close> that each call may change; a model of
  an operation that consults a provider threads that state. Durations are nanosecond counts.
\<close>

type_synonym duration = nat

definition duration_from_millis :: "nat \<Rightarrow> duration" where
  "duration_from_millis ms = ms * 1000000"

section \<open>Open flags\<close>

datatype OpenFlags = OpenFlags (bits: u32)

definition READONLY :: OpenFlags where "READONLY = OpenFlags 0x0001"
definition READWRITE :: OpenFlags where "READWRITE = OpenFlags 0x0002"
definition CREATE :: OpenFlags where "CREATE = OpenFlags 0x0004"
definition URI :: OpenFlags where "URI = OpenFlags 0x0008"
definition MEMORY :: OpenFlags where "MEMORY = OpenFlags 0x0010"
definition ENCRYPTED :: OpenFlags where "ENCRYPTED = OpenFlags 0x0020"
definition PLAINTEXT :: OpenFlags where "PLAINTEXT = OpenFlags 0x0040"
definition FULLMUTEX :: OpenFlags where "FULLMUTEX = OpenFlags 0x0080"
definition NOMUTEX :: OpenFlags where "NOMUTEX = OpenFlags 0x0100"
definition NOFOLLOW :: OpenFlags where "NOFOLLOW = OpenFlags 0x0200"

lemmas flag_defs =
  READONLY_def READWRITE_def CREATE_def URI_def MEMORY_def ENCRYPTED_def PLAINTEXT_def
  FULLMUTEX_def NOMUTEX_def NOFOLLOW_def

definition ALL_BITS :: u32 where
  "ALL_BITS = bits READONLY OR bits READWRITE OR bits CREATE OR bits URI OR bits MEMORY
     OR bits ENCRYPTED OR bits PLAINTEXT OR bits FULLMUTEX OR bits NOMUTEX OR bits NOFOLLOW"

definition flags_empty :: OpenFlags where
  "flags_empty = OpenFlags 0"

definition contains :: "OpenFlags \<Rightarrow> OpenFlags \<Rightarrow> bool" where
  "contains self other = ((bits self AND bits other) = bits other)"

definition intersects :: "OpenFlags \<Rightarrow> OpenFlags \<Rightarrow> bool" where
  "intersects self other = ((bits self AND bits other) \<noteq> 0)"

definition from_bits :: "u32 \<Rightarrow> OpenFlags option" where
  "from_bits b = (if b AND NOT ALL_BITS = 0 then Some (OpenFlags b) else None)"

text \<open>
  \<^verbatim>\<open>BitOr\<close> makes flag words a join semilattice whose order is \<^const>\<open>contains\<close> read backwards,
  so the lattice lemmas of the library apply to them.
\<close>

definition bitor :: "OpenFlags \<Rightarrow> OpenFlags \<Rightarrow> OpenFlags" where
  "bitor a b = OpenFlags (bits a OR bits b)"

instantiation OpenFlags :: semilattice_sup
begin

definition less_eq_OpenFlags :: "OpenFlags \<Rightarrow> OpenFlags \<Rightarrow> bool" where
  "a \<le> b \<longleftrightarrow> contains b a"

definition less_OpenFlags :: "OpenFlags \<Rightarrow> OpenFlags \<Rightarrow> bool" where
  "a < b \<longleftrightarrow> contains b a \<and> a \<noteq> b"

definition sup_OpenFlags :: "OpenFlags \<Rightarrow> OpenFlags \<Rightarrow> OpenFlags" where
  "sup a b = bitor a b"

instance
proof
  fix a b c :: OpenFlags
  show "a < b \<longleftrightarrow> a \<le> b \<and> \<not> b \<le> a"
    by (cases a; cases b)
      (auto simp: less_eq_OpenFlags_def less_OpenFlags_def contains_def and.commute)
  show "a \<le> a"
    by (simp add: less_eq_OpenFlags_def contains_def)
  show "a \<le> b \<Longrightarrow> b \<le> c \<Longrightarrow> a \<le> c"
    by (simp add: less_eq_OpenFlags_def contains_def) (metis and.assoc)
  show "a \<le> b \<Longrightarrow> b \<le> a \<Longrightarrow> a = b"
    by (cases a; cases b) (auto simp: less_eq_OpenFlags_def contains_def and.commute)
  show "a \<le> sup a b"
    by (auto simp: less_eq_OpenFlags_def contains_def sup_OpenFlags_def bitor_def bit_eq_iff bit_and_iff bit_or_iff)
  show "b \<le> sup a b"
    by (auto simp: less_eq_OpenFlags_def contains_def sup_OpenFlags_def bitor_def bit_eq_iff bit_and_iff bit_or_iff)
  show "b \<le> a \<Longrightarrow> c \<le> a \<Longrightarrow> sup b c \<le> a"
    by (simp add: less_eq_OpenFlags_def contains_def sup_OpenFlags_def bitor_def bit_eq_iff bit_and_iff bit_or_iff) metis
qed

end

lemma contains_iff_le: "contains a b \<longleftrightarrow> b \<le> a"
  by (simp add: less_eq_OpenFlags_def)

text \<open>Each named flag is one bit, which turns membership into a bit test.\<close>

lemma and_exp_word: "w AND 2 ^ n = (if bit w n then 2 ^ n else 0)" for w :: u32
  by (rule bit_eqI) (auto simp: bit_and_iff bit_exp_iff)

lemma contains_exp: "n < 32 \<Longrightarrow> contains f (OpenFlags (2 ^ n)) \<longleftrightarrow> bit (bits f) n"
  by (simp add: contains_def and_exp_word)

lemma flag_exps:
  "READONLY = OpenFlags (2 ^ 0)" "READWRITE = OpenFlags (2 ^ 1)" "CREATE = OpenFlags (2 ^ 2)"
  "URI = OpenFlags (2 ^ 3)" "MEMORY = OpenFlags (2 ^ 4)" "ENCRYPTED = OpenFlags (2 ^ 5)"
  "PLAINTEXT = OpenFlags (2 ^ 6)" "FULLMUTEX = OpenFlags (2 ^ 7)" "NOMUTEX = OpenFlags (2 ^ 8)"
  "NOFOLLOW = OpenFlags (2 ^ 9)"
  by (simp_all add: flag_defs)

lemma contains_bits:
  "contains f READONLY \<longleftrightarrow> bit (bits f) 0" "contains f READWRITE \<longleftrightarrow> bit (bits f) 1"
  "contains f CREATE \<longleftrightarrow> bit (bits f) 2" "contains f URI \<longleftrightarrow> bit (bits f) 3"
  "contains f MEMORY \<longleftrightarrow> bit (bits f) 4" "contains f ENCRYPTED \<longleftrightarrow> bit (bits f) 5"
  "contains f PLAINTEXT \<longleftrightarrow> bit (bits f) 6" "contains f FULLMUTEX \<longleftrightarrow> bit (bits f) 7"
  "contains f NOMUTEX \<longleftrightarrow> bit (bits f) 8" "contains f NOFOLLOW \<longleftrightarrow> bit (bits f) 9"
  by (simp_all only: flag_exps contains_exp)

lemma bits_sup [simp]: "bits (sup f g) = bits f OR bits g"
  by (simp add: sup_OpenFlags_def bitor_def)

lemma flag_bits:
  "bit (bits READONLY) n \<longleftrightarrow> n = 0" "bit (bits READWRITE) n \<longleftrightarrow> n = 1"
  "bit (bits CREATE) n \<longleftrightarrow> n = 2" "bit (bits URI) n \<longleftrightarrow> n = 3"
  "bit (bits MEMORY) n \<longleftrightarrow> n = 4" "bit (bits ENCRYPTED) n \<longleftrightarrow> n = 5"
  "bit (bits PLAINTEXT) n \<longleftrightarrow> n = 6" "bit (bits FULLMUTEX) n \<longleftrightarrow> n = 7"
  "bit (bits NOMUTEX) n \<longleftrightarrow> n = 8" "bit (bits NOFOLLOW) n \<longleftrightarrow> n = 9"
  by (auto simp only: flag_exps OpenFlags.sel bit_exp_iff possible_bit_word)
    (simp_all)

lemma intersects_sup: "intersects f (sup g h) \<longleftrightarrow> intersects f g \<or> intersects f h"
  by (auto simp: intersects_def bit_eq_iff bit_and_iff bit_or_iff)

lemma intersects_exp: "n < 32 \<Longrightarrow> intersects f (OpenFlags (2 ^ n)) \<longleftrightarrow> bit (bits f) n"
  by (simp add: intersects_def and_exp_word)

lemma intersects_bits:
  "intersects f READONLY \<longleftrightarrow> bit (bits f) 0" "intersects f READWRITE \<longleftrightarrow> bit (bits f) 1"
  "intersects f ENCRYPTED \<longleftrightarrow> bit (bits f) 5" "intersects f PLAINTEXT \<longleftrightarrow> bit (bits f) 6"
  by (simp_all only: flag_exps intersects_exp)

lemmas flag_simps = contains_bits intersects_sup intersects_bits bit_or_iff flag_bits

section \<open>Key material and key sources\<close>

definition RAW_KEY_LENGTH :: nat where "RAW_KEY_LENGTH = 32"

datatype SecretKey = SecretKey (key_bytes: "u8 list")

definition secret_key_from_slice :: "u8 list \<Rightarrow> SecretKey result" where
  "secret_key_from_slice bs =
     (if length bs = RAW_KEY_LENGTH then Inr (SecretKey bs)
      else Inl (Error InvalidKeyLength ''raw database keys must contain exactly 32 bytes''))"

definition secret_key_drop :: "SecretKey \<Rightarrow> SecretKey" where
  "secret_key_drop k = SecretKey (replicate (length (key_bytes k)) 0)"

datatype SecretString = SecretString (secret_bytes: "u8 list")

definition secret_string_drop :: "SecretString \<Rightarrow> SecretString" where
  "secret_string_drop s = SecretString (replicate (length (secret_bytes s)) 0)"

datatype DatabaseIdentity = DatabaseIdentity (identity_path: string)

definition identity_from_path :: "string \<Rightarrow> DatabaseIdentity result" where
  "identity_from_path p =
     (if p = [] then Inl (Error InvalidPath ''database path must not be empty'')
      else Inr (DatabaseIdentity p))"

record 's KeyProvider =
  kp_load :: "DatabaseIdentity \<Rightarrow> 's \<Rightarrow> SecretKey option result \<times> 's"
  kp_create :: "DatabaseIdentity \<Rightarrow> 's \<Rightarrow> SecretKey result \<times> 's"
  kp_remove :: "DatabaseIdentity \<Rightarrow> 's \<Rightarrow> unit result \<times> 's"

datatype 's KeySource =
    Auto
  | Raw SecretKey
  | Passphrase SecretString
  | Provider string "'s KeyProvider"

fun kind_name :: "'s KeySource \<Rightarrow> string" where
  "kind_name Auto = ''auto''"
| "kind_name (Raw _) = ''raw''"
| "kind_name (Passphrase _) = ''passphrase''"
| "kind_name (Provider _ _) = ''provider''"

section \<open>Options and plans\<close>

datatype SecurityMode = Encrypted | Plaintext

definition DEFAULT_BUSY_TIMEOUT_MS :: u32 where "DEFAULT_BUSY_TIMEOUT_MS = 5000"
definition DEFAULT_CACHE_SIZE_BYTES :: u64 where "DEFAULT_CACHE_SIZE_BYTES = 16 * 1024 * 1024"
definition DEFAULT_MEMORY_BUDGET_BYTES :: u64 where "DEFAULT_MEMORY_BUDGET_BYTES = 64 * 1024 * 1024"
definition MAX_VFS_NAME_BYTES :: nat where "MAX_VFS_NAME_BYTES = 255"

record 's OpenOptions =
  oo_flags :: OpenFlags
  oo_busy_timeout :: duration
  oo_cache_size_bytes :: u64
  oo_memory_budget_bytes :: u64
  oo_vfs :: "string option"
  oo_key :: "'s KeySource"
  oo_auto_key_provider :: "'s KeyProvider option"

definition open_options_default :: "'s OpenOptions" where
  "open_options_default =
     \<lparr>oo_flags = sup (sup (sup READWRITE CREATE) ENCRYPTED) FULLMUTEX,
      oo_busy_timeout = duration_from_millis (unat DEFAULT_BUSY_TIMEOUT_MS),
      oo_cache_size_bytes = DEFAULT_CACHE_SIZE_BYTES,
      oo_memory_budget_bytes = DEFAULT_MEMORY_BUDGET_BYTES,
      oo_vfs = None, oo_key = Auto, oo_auto_key_provider = None\<rparr>"

record 's OpenPlan =
  op_path :: string
  op_identity :: DatabaseIdentity
  op_flags :: OpenFlags
  op_security :: SecurityMode
  op_busy_timeout :: duration
  op_cache_size_bytes :: u64
  op_memory_budget_bytes :: u64
  op_vfs :: "string option"
  op_key :: "'s KeySource"
  op_auto_key_provider :: "'s KeyProvider option"

datatype ResolvedKey = ResolvedRaw SecretKey | ResolvedPassphrase SecretString

record ResolvedOpenPlan =
  rp_path :: string
  rp_flags :: OpenFlags
  rp_security :: SecurityMode
  rp_busy_timeout :: duration
  rp_cache_size_bytes :: u64
  rp_memory_budget_bytes :: u64
  rp_vfs :: "string option"
  rp_key :: "ResolvedKey option"

definition has_key :: "ResolvedOpenPlan \<Rightarrow> bool" where
  "has_key p = (rp_key p \<noteq> None)"

datatype ResolvedKeyRef = RawRef "u8 list" | PassphraseRef "u8 list"

definition with_key :: "ResolvedOpenPlan \<Rightarrow> (ResolvedKeyRef option \<Rightarrow> 'r) \<Rightarrow> 'r" where
  "with_key p operation =
     (case rp_key p of
        Some (ResolvedRaw k) \<Rightarrow> operation (Some (RawRef (key_bytes k)))
      | Some (ResolvedPassphrase s) \<Rightarrow> operation (Some (PassphraseRef (secret_bytes s)))
      | None \<Rightarrow> operation None)"

section \<open>Validation and key resolution\<close>

definition validate_vfs :: "string option \<Rightarrow> unit result" where
  "validate_vfs vfs =
     (case vfs of
        None \<Rightarrow> Inr ()
      | Some v \<Rightarrow>
          if v = [] then Inl (Error InvalidVfs ''VFS name must not be empty'')
          else if length v > MAX_VFS_NAME_BYTES
          then Inl (Error InvalidVfs ''VFS name exceeds the supported byte length'')
          else if CHR 0x00 \<in> set v
          then Inl (Error InvalidVfs ''VFS name must not contain a NUL byte'')
          else Inr ())"

definition invalid_flags :: "string \<Rightarrow> Error" where
  "invalid_flags m = Error InvalidOpenFlags m"

definition normalize_and_validate_flags :: "OpenFlags \<Rightarrow> OpenFlags result" where
  "normalize_and_validate_flags flags =
     (if contains flags READONLY \<and> contains flags READWRITE
      then Inl (invalid_flags ''READONLY and READWRITE are mutually exclusive'')
      else
        let flags = (if \<not> intersects flags (sup READONLY READWRITE)
                     then sup flags READWRITE else flags) in
        if contains flags CREATE \<and> \<not> contains flags READWRITE
        then Inl (invalid_flags ''CREATE requires READWRITE'')
        else if contains flags ENCRYPTED \<and> contains flags PLAINTEXT
        then Inl (invalid_flags ''ENCRYPTED and PLAINTEXT are mutually exclusive'')
        else
          let flags = (if \<not> intersects flags (sup ENCRYPTED PLAINTEXT)
                       then sup flags ENCRYPTED else flags) in
          if contains flags FULLMUTEX \<and> contains flags NOMUTEX
          then Inl (invalid_flags ''FULLMUTEX and NOMUTEX are mutually exclusive'')
          else Inr flags)"

definition prepare_open :: "string \<Rightarrow> 's OpenOptions \<Rightarrow> 's OpenPlan result" where
  "prepare_open path options =
     bind_result (identity_from_path path) (\<lambda>identity.
     bind_result (normalize_and_validate_flags (oo_flags options)) (\<lambda>flags.
     bind_result (validate_vfs (oo_vfs options)) (\<lambda>_.
     let security = (if contains flags PLAINTEXT then Plaintext else Encrypted) in
     Inr \<lparr>op_path = path, op_identity = identity, op_flags = flags, op_security = security,
          op_busy_timeout = oo_busy_timeout options,
          op_cache_size_bytes = oo_cache_size_bytes options,
          op_memory_budget_bytes = oo_memory_budget_bytes options,
          op_vfs = oo_vfs options, op_key = oo_key options,
          op_auto_key_provider = oo_auto_key_provider options\<rparr>)))"

definition load_or_create_key ::
  "'s KeyProvider \<Rightarrow> DatabaseIdentity \<Rightarrow> OpenFlags \<Rightarrow> 's \<Rightarrow> SecretKey result \<times> 's" where
  "load_or_create_key provider identity flags s =
     (case kp_load provider identity s of
        (Inl e, s') \<Rightarrow> (Inl e, s')
      | (Inr (Some key), s') \<Rightarrow> (Inr key, s')
      | (Inr None, s') \<Rightarrow>
          if contains flags CREATE then kp_create provider identity s'
          else (Inl (Error KeyRequired ''no key exists for the encrypted database''), s'))"

definition resolve_encrypted_key ::
  "DatabaseIdentity \<Rightarrow> OpenFlags \<Rightarrow> 's KeySource \<Rightarrow> 's KeyProvider option \<Rightarrow> 's
     \<Rightarrow> ResolvedKey result \<times> 's" where
  "resolve_encrypted_key identity flags key_source auto_provider s =
     (case key_source of
        Raw key \<Rightarrow> (Inr (ResolvedRaw key), s)
      | Passphrase passphrase \<Rightarrow>
          if secret_bytes passphrase = []
          then (Inl (Error InvalidKeyLength ''database passphrase must not be empty''), s)
          else (Inr (ResolvedPassphrase passphrase), s)
      | Provider _ provider \<Rightarrow>
          (let (r, s') = load_or_create_key provider identity flags s in (map_ok ResolvedRaw r, s'))
      | Auto \<Rightarrow>
          (case auto_provider of
             None \<Rightarrow> (Inl (Error KeyStoreUnavailable
                        ''encrypted open requires a configured key provider''), s)
           | Some provider \<Rightarrow>
               (let (r, s') = load_or_create_key provider identity flags s
                in (map_ok ResolvedRaw r, s'))))"

definition resolve_key :: "'s OpenPlan \<Rightarrow> 's \<Rightarrow> ResolvedOpenPlan result \<times> 's" where
  "resolve_key plan s =
     (let (key, s') =
        (case op_security plan of
           Plaintext \<Rightarrow> (Inr None, s)
         | Encrypted \<Rightarrow>
             (let (r, s') = resolve_encrypted_key (op_identity plan) (op_flags plan) (op_key plan)
                              (op_auto_key_provider plan) s
              in (map_ok Some r, s')))
      in (bind_result key (\<lambda>k.
            Inr \<lparr>rp_path = op_path plan, rp_flags = op_flags plan, rp_security = op_security plan,
                 rp_busy_timeout = op_busy_timeout plan,
                 rp_cache_size_bytes = op_cache_size_bytes plan,
                 rp_memory_budget_bytes = op_memory_budget_bytes plan,
                 rp_vfs = op_vfs plan, rp_key = k\<rparr>), s'))"

section \<open>What the policy guarantees\<close>

definition flags_normal :: "OpenFlags \<Rightarrow> bool" where
  "flags_normal f \<longleftrightarrow>
     (contains f READONLY \<noteq> contains f READWRITE) \<and>
     (contains f CREATE \<longrightarrow> contains f READWRITE) \<and>
     (contains f ENCRYPTED \<noteq> contains f PLAINTEXT) \<and>
     \<not> (contains f FULLMUTEX \<and> contains f NOMUTEX)"

definition flags_admissible :: "OpenFlags \<Rightarrow> bool" where
  "flags_admissible f \<longleftrightarrow>
     \<not> (contains f READONLY \<and> contains f READWRITE) \<and>
     \<not> (contains f CREATE \<and> contains f READONLY) \<and>
     \<not> (contains f ENCRYPTED \<and> contains f PLAINTEXT) \<and>
     \<not> (contains f FULLMUTEX \<and> contains f NOMUTEX)"

definition with_flag_defaults :: "OpenFlags \<Rightarrow> OpenFlags" where
  "with_flag_defaults f =
     (let f1 = (if contains f READONLY \<or> contains f READWRITE then f else sup f READWRITE)
      in if contains f ENCRYPTED \<or> contains f PLAINTEXT then f1 else sup f1 ENCRYPTED)"

lemma normalize_admissible:
  "flags_admissible f \<Longrightarrow> normalize_and_validate_flags f = Inr (with_flag_defaults f)"
  by (auto simp: flags_admissible_def normalize_and_validate_flags_def with_flag_defaults_def
      Let_def flag_simps)

lemma normalize_inadmissible:
  "\<not> flags_admissible f \<Longrightarrow> fails_with InvalidOpenFlags (normalize_and_validate_flags f)"
  by (auto simp: flags_admissible_def normalize_and_validate_flags_def invalid_flags_def
      Let_def flag_simps)

lemma normalize_eq_Inr_iff:
  "normalize_and_validate_flags f = Inr g \<longleftrightarrow> flags_admissible f \<and> g = with_flag_defaults f"
proof (cases "flags_admissible f")
  case True
  then show ?thesis by (auto simp: normalize_admissible)
next
  case False
  then have "fails_with InvalidOpenFlags (normalize_and_validate_flags f)"
    by (rule normalize_inadmissible)
  with False show ?thesis by (auto simp: fails_with_def split: sum.splits)
qed

lemma with_flag_defaults_normal: "flags_admissible f \<Longrightarrow> flags_normal (with_flag_defaults f)"
  by (auto simp: flags_admissible_def flags_normal_def with_flag_defaults_def Let_def flag_simps)

lemma with_flag_defaults_ge: "f \<le> with_flag_defaults f"
  by (simp add: with_flag_defaults_def Let_def le_supI1)

lemma with_flag_defaults_plaintext [simp]:
  "contains (with_flag_defaults f) PLAINTEXT \<longleftrightarrow> contains f PLAINTEXT"
  by (simp add: with_flag_defaults_def Let_def flag_simps)

lemma normal_admissible: "flags_normal f \<Longrightarrow> flags_admissible f \<and> with_flag_defaults f = f"
  by (auto simp: flags_normal_def flags_admissible_def with_flag_defaults_def)

lemma prepare_open_eq_Inr:
  "prepare_open path options = Inr plan \<longleftrightarrow>
     path \<noteq> [] \<and> flags_admissible (oo_flags options) \<and> validate_vfs (oo_vfs options) = Inr () \<and>
     plan = \<lparr>op_path = path, op_identity = DatabaseIdentity path,
             op_flags = with_flag_defaults (oo_flags options),
             op_security = (if contains (oo_flags options) PLAINTEXT then Plaintext else Encrypted),
             op_busy_timeout = oo_busy_timeout options,
             op_cache_size_bytes = oo_cache_size_bytes options,
             op_memory_budget_bytes = oo_memory_budget_bytes options,
             op_vfs = oo_vfs options, op_key = oo_key options,
             op_auto_key_provider = oo_auto_key_provider options\<rparr>"
  by (auto simp: prepare_open_def identity_from_path_def normalize_eq_Inr_iff Let_def)

lemma validate_vfs_ok_iff:
  "validate_vfs vfs = Inr () \<longleftrightarrow>
     (\<forall>v. vfs = Some v \<longrightarrow> v \<noteq> [] \<and> length v \<le> MAX_VFS_NAME_BYTES \<and> CHR 0x00 \<notin> set v)"
  by (auto simp: validate_vfs_def split: option.splits)



text \<open>
  Flag normalisation is idempotent: validating an already normalised word returns the
  same word, and a rejected word stays rejected with the same error.
\<close>

lemma normalize_idempotent:
  "bind_result (normalize_and_validate_flags f) normalize_and_validate_flags =
     normalize_and_validate_flags f"
proof (cases "flags_admissible f")
  case True
  then have "flags_normal (with_flag_defaults f)" by (rule with_flag_defaults_normal)
  then show ?thesis using True by (metis bind_result_Inr normal_admissible normalize_admissible)
next
  case False
  then obtain e where "normalize_and_validate_flags f = Inl e"
    using normalize_inadmissible [OF False]
    by (cases "normalize_and_validate_flags f") auto
  then show ?thesis by simp
qed

lemma resolve_key_eq_Inr:
  assumes "resolve_key plan s = (Inr rp, s')"
  shows "rp_security rp = op_security plan \<and> rp_flags rp = op_flags plan \<and>
     rp_path rp = op_path plan \<and> rp_vfs rp = op_vfs plan \<and>
     (has_key rp \<longleftrightarrow> op_security plan = Encrypted) \<and>
     (op_security plan = Plaintext \<longrightarrow> s' = s)"
  using assms
  by (auto simp: resolve_key_def has_key_def Let_def split: SecurityMode.splits prod.splits)

text \<open>
  Claim C8. Opening fails closed. Whenever validation and key resolution both succeed, the
  resolved plan carries key material exactly when it is encrypted, it is plaintext exactly when
  the caller's own flag word asked for plaintext, and a plaintext plan never consults a key
  provider (the key store is untouched).
\<close>

theorem open_fails_closed:
  assumes "prepare_open path options = Inr plan"
    and "resolve_key plan s = (Inr rp, s')"
  shows "(has_key rp \<longleftrightarrow> rp_security rp = Encrypted) \<and>
     (rp_security rp = Plaintext \<longleftrightarrow> contains (oo_flags options) PLAINTEXT) \<and>
     flags_normal (rp_flags rp) \<and> rp_path rp = path \<and>
     (rp_security rp = Plaintext \<longrightarrow> s' = s)"
proof -
  have r: "rp_security rp = op_security plan \<and> rp_flags rp = op_flags plan \<and>
     rp_path rp = op_path plan \<and> (has_key rp \<longleftrightarrow> op_security plan = Encrypted) \<and>
     (op_security plan = Plaintext \<longrightarrow> s' = s)"
    using resolve_key_eq_Inr [OF assms(2)] by blast
  show ?thesis using r assms(1)
    by (auto simp: prepare_open_eq_Inr with_flag_defaults_normal)
qed

theorem open_fails_closed_witness:
  "\<exists>plan rp. prepare_open ''agent.db''
       (open_options_default\<lparr>oo_key := Passphrase (SecretString [1, 2])\<rparr> :: unit OpenOptions) = Inr plan \<and>
     resolve_key plan () = (Inr rp, ()) \<and> has_key rp \<and> rp_security rp = Encrypted"
proof -
  let ?o = "open_options_default\<lparr>oo_key := Passphrase (SecretString [1, 2])\<rparr> :: unit OpenOptions"
  obtain plan where p: "prepare_open ''agent.db'' ?o = Inr plan"
    by (simp add: prepare_open_eq_Inr open_options_default_def flags_admissible_def flag_simps
        validate_vfs_def)
  then have "op_key plan = Passphrase (SecretString [1, 2])" "op_security plan = Encrypted"
    by (auto simp: prepare_open_eq_Inr open_options_default_def flag_simps)
  then obtain rp where r: "resolve_key plan () = (Inr rp, ())"
    by (simp add: resolve_key_def resolve_encrypted_key_def)
  have "\<not> contains (oo_flags ?o) PLAINTEXT"
    by (simp add: open_options_default_def flag_simps)
  then have "rp_security rp \<noteq> Plaintext" using open_fails_closed [OF p r] by blast
  then have "rp_security rp = Encrypted" by (cases "rp_security rp") auto
  then show ?thesis using p r open_fails_closed [OF p r] by blast
qed

definition provider_of :: "'s OpenPlan \<Rightarrow> 's KeyProvider option" where
  "provider_of plan =
     (case op_key plan of Provider _ p \<Rightarrow> Some p | Auto \<Rightarrow> op_auto_key_provider plan | _ \<Rightarrow> None)"

definition load_is_readonly :: "'s KeyProvider \<Rightarrow> bool" where
  "load_is_readonly p \<longleftrightarrow> (\<forall>i s. snd (kp_load p i s) = s)"

lemma load_or_create_key_state:
  assumes "load_is_readonly p" "load_or_create_key p i f s = (r, s')" "s' \<noteq> s"
  shows "contains f CREATE \<and> fst (kp_load p i s) = Inr None \<and> kp_create p i s = (r, s')"
proof -
  have l: "snd (kp_load p i s) = s" using assms(1) by (simp add: load_is_readonly_def)
  show ?thesis
    using assms(2,3) l
    by (auto simp: load_or_create_key_def split: prod.splits sum.splits option.splits if_splits)
qed

text \<open>
  Claim C22. Keys are created only for new databases. Take a provider whose \<^verbatim>\<open>load\<close> does not
  change the key store. If resolving a plan changed the key store, then the plan is encrypted,
  its flags contain \<^verbatim>\<open>CREATE\<close>, the provider had no key for this database, and the change is
  exactly one \<^verbatim>\<open>create\<close> for the plan's identity. An existing key is never replaced.
\<close>

theorem key_store_changes_only_by_create:
  assumes "\<And>p. provider_of plan = Some p \<Longrightarrow> load_is_readonly p"
    and "resolve_key plan s = (r, s')" and "s' \<noteq> s"
  shows "\<exists>p k. provider_of plan = Some p \<and> op_security plan = Encrypted \<and>
     contains (op_flags plan) CREATE \<and> fst (kp_load p (op_identity plan) s) = Inr None \<and>
     kp_create p (op_identity plan) s = (k, s')"
proof -
  have "\<exists>p k. provider_of plan = Some p \<and> op_security plan = Encrypted \<and>
     load_or_create_key p (op_identity plan) (op_flags plan) s = (k, s')"
    using assms(2,3)
    by (auto simp: resolve_key_def resolve_encrypted_key_def provider_of_def Let_def
        split: SecurityMode.splits KeySource.splits prod.splits option.splits if_splits)
  then obtain p k where "provider_of plan = Some p" "op_security plan = Encrypted"
    "load_or_create_key p (op_identity plan) (op_flags plan) s = (k, s')" by blast
  with assms(1,3) show ?thesis by (meson load_or_create_key_state)
qed

text \<open>A small key store: at most one stored key.\<close>

definition slot_provider :: "SecretKey option KeyProvider" where
  "slot_provider =
     \<lparr>kp_load = (\<lambda>i s. (Inr s, s)),
      kp_create = (\<lambda>i s. (Inr (SecretKey (replicate 32 2)), Some (SecretKey (replicate 32 2)))),
      kp_remove = (\<lambda>i s. (Inr (), None))\<rparr>"

theorem key_store_changes_only_by_create_witness:
  "\<exists>plan r. prepare_open ''new.db'' (open_options_default\<lparr>oo_auto_key_provider := Some slot_provider\<rparr>)
       = Inr plan \<and> resolve_key plan None = (r, Some (SecretKey (replicate 32 2))) \<and>
     contains (op_flags plan) CREATE"
proof -
  let ?o = "open_options_default\<lparr>oo_auto_key_provider := Some slot_provider\<rparr>"
  obtain plan where p: "prepare_open ''new.db'' ?o = Inr plan"
    by (simp add: prepare_open_eq_Inr open_options_default_def flags_admissible_def flag_simps
        validate_vfs_def)
  then have k: "op_key plan = Auto" "op_auto_key_provider plan = Some slot_provider"
    "op_security plan = Encrypted" "op_flags plan = with_flag_defaults (oo_flags ?o)"
    by (auto simp: prepare_open_eq_Inr open_options_default_def flag_simps)
  moreover have "contains (with_flag_defaults (oo_flags ?o)) CREATE"
    by (simp add: with_flag_defaults_def open_options_default_def Let_def flag_simps)
  ultimately obtain r where r: "resolve_key plan None = (r, Some (SecretKey (replicate 32 2)))"
    by (simp add: resolve_key_def resolve_encrypted_key_def load_or_create_key_def slot_provider_def)
  have ro: "provider_of plan = Some p \<Longrightarrow> load_is_readonly p" for p
    using k by (auto simp: provider_of_def load_is_readonly_def slot_provider_def)
  have "contains (op_flags plan) CREATE"
    using key_store_changes_only_by_create [OF ro r] by blast
  with p r show ?thesis by blast
qed

section \<open>Diagnostics\<close>

text \<open>
  What a \<^verbatim>\<open>Debug\<close> implementation hands to the formatter: written text, numbers, tuples and
  structs with their named fields and the \<^verbatim>\<open>finish_non_exhaustive\<close> mark.
\<close>

datatype Dbg =
    DText string
  | DNat nat
  | DOption "Dbg option"
  | DTuple string "Dbg list"
  | DStruct string "(string \<times> Dbg) list" bool

definition debug_secret_key :: "SecretKey \<Rightarrow> Dbg" where
  "debug_secret_key k = DText ''SecretKey([REDACTED])''"

definition debug_secret_string :: "SecretString \<Rightarrow> Dbg" where
  "debug_secret_string s = DText ''SecretString([REDACTED])''"

fun debug_key_source :: "'s KeySource \<Rightarrow> Dbg" where
  "debug_key_source Auto = DText ''KeySource::Auto''"
| "debug_key_source (Raw _) = DText ''KeySource::Raw([REDACTED])''"
| "debug_key_source (Passphrase _) = DText ''KeySource::Passphrase([REDACTED])''"
| "debug_key_source (Provider i _) = DStruct ''KeySource::Provider'' [(''id'', DText i)] True"

definition debug_flags :: "OpenFlags \<Rightarrow> Dbg" where
  "debug_flags f = DTuple ''OpenFlags'' [DNat (unat (bits f))]"

definition debug_security :: "SecurityMode \<Rightarrow> Dbg" where
  "debug_security m = DText (case m of Encrypted \<Rightarrow> ''Encrypted'' | Plaintext \<Rightarrow> ''Plaintext'')"

definition debug_identity :: "DatabaseIdentity \<Rightarrow> Dbg" where
  "debug_identity i = DStruct ''DatabaseIdentity'' [(''path'', DText (identity_path i))] False"

definition debug_open_options :: "'s OpenOptions \<Rightarrow> Dbg" where
  "debug_open_options o' = DStruct ''OpenOptions''
     [(''flags'', debug_flags (oo_flags o')), (''busy_timeout'', DNat (oo_busy_timeout o')),
      (''cache_size_bytes'', DNat (unat (oo_cache_size_bytes o'))),
      (''memory_budget_bytes'', DNat (unat (oo_memory_budget_bytes o'))),
      (''vfs'', DOption (map_option DText (oo_vfs o'))), (''key'', debug_key_source (oo_key o')),
      (''auto_key_provider'',
         DOption (map_option (\<lambda>_. DText ''[CONFIGURED]'') (oo_auto_key_provider o')))] False"

definition debug_open_plan :: "'s OpenPlan \<Rightarrow> Dbg" where
  "debug_open_plan p = DStruct ''OpenPlan''
     [(''path'', DText (op_path p)), (''identity'', debug_identity (op_identity p)),
      (''flags'', debug_flags (op_flags p)), (''security'', debug_security (op_security p)),
      (''busy_timeout'', DNat (op_busy_timeout p)),
      (''cache_size_bytes'', DNat (unat (op_cache_size_bytes p))),
      (''memory_budget_bytes'', DNat (unat (op_memory_budget_bytes p))),
      (''vfs'', DOption (map_option DText (op_vfs p))), (''key'', debug_key_source (op_key p)),
      (''auto_key_provider'',
         DOption (map_option (\<lambda>_. DText ''[CONFIGURED]'') (op_auto_key_provider p)))] False"

fun debug_resolved_key_ref :: "ResolvedKeyRef \<Rightarrow> Dbg" where
  "debug_resolved_key_ref (RawRef _) = DText ''ResolvedKeyRef::Raw([REDACTED])''"
| "debug_resolved_key_ref (PassphraseRef _) = DText ''ResolvedKeyRef::Passphrase([REDACTED])''"

definition debug_resolved_open_plan :: "ResolvedOpenPlan \<Rightarrow> Dbg" where
  "debug_resolved_open_plan p = DStruct ''ResolvedOpenPlan''
     [(''path'', DText (rp_path p)), (''flags'', debug_flags (rp_flags p)),
      (''security'', debug_security (rp_security p)),
      (''busy_timeout'', DNat (rp_busy_timeout p)),
      (''cache_size_bytes'', DNat (unat (rp_cache_size_bytes p))),
      (''memory_budget_bytes'', DNat (unat (rp_memory_budget_bytes p))),
      (''vfs'', DOption (map_option DText (rp_vfs p))),
      (''key'', DOption (map_option (\<lambda>_. DText ''[REDACTED]'') (rp_key p)))] False"

text \<open>Two options or plans that differ in secret bytes only.\<close>

fun same_but_secret :: "'s KeySource \<Rightarrow> 's KeySource \<Rightarrow> bool" where
  "same_but_secret (Raw _) (Raw _) = True"
| "same_but_secret (Passphrase _) (Passphrase _) = True"
| "same_but_secret (Provider i _) (Provider j _) = (i = j)"
| "same_but_secret Auto Auto = True"
| "same_but_secret _ _ = False"

lemma debug_key_source_secret: "same_but_secret k l \<Longrightarrow> debug_key_source k = debug_key_source l"
  by (induction k l rule: same_but_secret.induct) simp_all

text \<open>
  Diagnostics do not depend on secrets: options, plans and resolved plans that differ
  only in the bytes of a raw key or a passphrase print the same \<^verbatim>\<open>Debug\<close> output, at every
  stage from the caller's options to the plan handed to the storage backend.
\<close>

lemma debug_is_independent_of_secrets:
  assumes "same_but_secret k l" and "kr = None \<longleftrightarrow> lr = None"
  shows "debug_open_options (options\<lparr>oo_key := k\<rparr>) = debug_open_options (options\<lparr>oo_key := l\<rparr>) \<and>
     debug_open_plan (plan\<lparr>op_key := k\<rparr>) = debug_open_plan (plan\<lparr>op_key := l\<rparr>) \<and>
     debug_resolved_open_plan (rp\<lparr>rp_key := kr\<rparr>) = debug_resolved_open_plan (rp\<lparr>rp_key := lr\<rparr>)"
  using assms debug_key_source_secret [OF assms(1)]
  by (cases kr; cases lr)
    (simp_all add: debug_open_options_def debug_open_plan_def debug_resolved_open_plan_def)

end
