(* ===== verification/Storage.thy ===== *)
theory Storage
  imports Effects Open_Policy
begin

text \<open>
  The storage adapter \<^verbatim>\<open>csgdb-storage/src/lib.rs\<close>: transactions, statements with exact
  positional binding, rows with checked column access, checkpoints, and the translation of engine
  failures. The engine (SQLCipher behind \<^verbatim>\<open>rusqlite\<close>) is not part of the repository: it is the
  record \<open>Engine\<close> over an arbitrary connection state, an argument of every operation.
\<close>

section \<open>The engine\<close>

datatype FailureCode =
    FNotADatabase | FDatabaseCorrupt | FDatabaseBusy | FDatabaseLocked | FReadOnly
  | FConstraintViolation | FOperationInterrupted | FOther

datatype SqlError =
    SqliteFailure FailureCode int
  | SqlInputError
  | InvalidParameterCountError
  | InvalidParameterNameError
  | InvalidColumnIndexError
  | InvalidColumnTypeError
  | Utf8ErrorError
  | OtherSqlError

datatype SqlValueRef = SqlNull | SqlInteger i64 | SqlReal f64 | SqlText "u8 list" | SqlBlob "u8 list"

type_synonym SqlRow = "SqlValueRef list"

datatype SqlTransactionState = SqlTxnNone | SqlTxnRead | SqlTxnWrite | SqlTxnUnknown

record 'db Engine =
  e_batch :: "string \<Rightarrow> ('db, SqlError, unit) effect"
  e_parameter_count :: "string \<Rightarrow> 'db \<Rightarrow> SqlError + nat"
  e_bind :: "string \<Rightarrow> nat \<Rightarrow> ValueRef \<Rightarrow> 'db \<Rightarrow> SqlError + unit"
  e_execute :: "string \<Rightarrow> ValueRef list \<Rightarrow> ('db, SqlError, nat) effect"
  e_query :: "string \<Rightarrow> ValueRef list \<Rightarrow> 'db \<Rightarrow> (SqlError + SqlRow) list"
  e_query_i64 :: "string \<Rightarrow> 'db \<Rightarrow> SqlError + i64"
  e_begin :: "('db, SqlError, unit) effect"
  e_commit :: "('db, SqlError, unit) effect"
  e_rollback :: "('db, SqlError, unit) effect"
  e_drop_transaction :: "'db \<Rightarrow> 'db"
  e_transaction_state :: "string option \<Rightarrow> 'db \<Rightarrow> SqlError + SqlTransactionState"
  e_busy_timeout :: "duration \<Rightarrow> ('db, SqlError, unit) effect"
  e_wal_checkpoint :: "string option \<Rightarrow> int \<Rightarrow> 'db \<Rightarrow> (int \<times> int \<times> int) \<times> 'db"
  e_wal_autocheckpoint :: "int \<Rightarrow> 'db \<Rightarrow> int \<times> 'db"
  e_failure_code :: "int \<Rightarrow> FailureCode"
  e_close :: "'db \<Rightarrow> SqlError + unit"

section \<open>Failures\<close>

definition SQLITE_OK :: int where "SQLITE_OK = 0"
definition SQLITE_BUSY :: int where "SQLITE_BUSY = 5"
definition SQLITE_IOERR_WRITE :: int where "SQLITE_IOERR_WRITE = 778"
definition SQLITE_IOERR_FSYNC :: int where "SQLITE_IOERR_FSYNC = 1034"
definition SQLITE_IOERR_TRUNCATE :: int where "SQLITE_IOERR_TRUNCATE = 1546"

definition map_storage_error :: "SqlError \<Rightarrow> Error" where
  "map_storage_error error =
     (case error of
        SqliteFailure code extended_code \<Rightarrow>
          if extended_code = SQLITE_IOERR_WRITE
          then Error StorageWriteFailed ''database storage write failed''
          else if extended_code = SQLITE_IOERR_FSYNC
          then Error StorageSyncFailed ''database storage synchronization failed''
          else if extended_code = SQLITE_IOERR_TRUNCATE
          then Error StorageTruncateFailed ''database storage truncation failed''
          else (case code of
             FDatabaseBusy \<Rightarrow> Error DatabaseBusy ''database is busy or locked''
           | FDatabaseLocked \<Rightarrow> Error DatabaseBusy ''database is busy or locked''
           | FReadOnly \<Rightarrow> Error DatabaseReadOnly ''database is read-only''
           | FConstraintViolation \<Rightarrow> Error ConstraintViolation ''database constraint failed''
           | FDatabaseCorrupt \<Rightarrow> Error DatabaseCorrupt ''database is corrupt''
           | FOperationInterrupted \<Rightarrow> Error QueryInterrupted ''database operation was interrupted''
           | _ \<Rightarrow> Error Storage ''database operation failed'')
      | SqlInputError \<Rightarrow> Error InvalidSql ''SQL statement is invalid''
      | InvalidParameterCountError \<Rightarrow>
          Error ParameterCountMismatch ''SQL parameter count does not match the supplied values''
      | InvalidParameterNameError \<Rightarrow>
          Error InvalidParameterIndex ''SQL parameter index or name is invalid''
      | InvalidColumnIndexError \<Rightarrow> Error InvalidColumnIndex ''result column index is out of range''
      | InvalidColumnTypeError \<Rightarrow>
          Error InvalidColumnType ''result column has an incompatible storage class''
      | Utf8ErrorError \<Rightarrow> Error InvalidUtf8 ''text value is not valid UTF-8''
      | OtherSqlError \<Rightarrow> Error Storage ''database operation failed'')"

definition map_open_error :: "SqlError \<Rightarrow> Error" where
  "map_open_error error =
     (case error of
        SqliteFailure FNotADatabase _ \<Rightarrow>
          Error InvalidDatabaseKey ''database key is incorrect or the file is not a supported database''
      | SqliteFailure FDatabaseCorrupt _ \<Rightarrow>
          Error DatabaseCorrupt ''database is corrupt or authentication failed''
      | _ \<Rightarrow> map_storage_error error)"

definition map_raw_storage_error :: "'db Engine \<Rightarrow> int \<Rightarrow> Error" where
  "map_raw_storage_error eng rc = map_storage_error (SqliteFailure (e_failure_code eng rc) rc)"

section \<open>Connections and transactions\<close>

definition execute_batch :: "'db Engine \<Rightarrow> string \<Rightarrow> ('db, Error, unit) effect" where
  "execute_batch eng sql = map_err_st map_storage_error (e_batch eng sql)"

definition transaction :: "'db Engine \<Rightarrow> ('db, Error, unit) effect" where
  "transaction eng = map_err_st map_storage_error (e_begin eng)"

definition commit :: "'db Engine \<Rightarrow> ('db, Error, unit) effect" where
  "commit eng = map_err_st map_storage_error (e_commit eng)"

definition rollback :: "'db Engine \<Rightarrow> ('db, Error, unit) effect" where
  "rollback eng = map_err_st map_storage_error (e_rollback eng)"

definition query_i64 :: "'db Engine \<Rightarrow> string \<Rightarrow> ('db, Error, i64) effect" where
  "query_i64 eng sql db = (map_err map_storage_error (e_query_i64 eng sql db), db)"

definition close :: "'db Engine \<Rightarrow> 'db \<Rightarrow> unit result" where
  "close eng db = map_err map_storage_error (e_close eng db)"

definition map_transaction_state :: "SqlTransactionState \<Rightarrow> TransactionState result" where
  "map_transaction_state state =
     (case state of
        SqlTxnNone \<Rightarrow> Inr TxnNone
      | SqlTxnRead \<Rightarrow> Inr TxnRead
      | SqlTxnWrite \<Rightarrow> Inr TxnWrite
      | SqlTxnUnknown \<Rightarrow> Inl (Error Storage ''database returned an unknown transaction state''))"

definition transaction_state :: "'db Engine \<Rightarrow> string option \<Rightarrow> ('db, Error, TransactionState) effect" where
  "transaction_state eng database_name db =
     (bind_result (map_err map_storage_error (e_transaction_state eng database_name db))
        map_transaction_state, db)"

section \<open>Busy timeout and checkpoints\<close>

definition MAX_BUSY_TIMEOUT_MILLIS :: nat where "MAX_BUSY_TIMEOUT_MILLIS = 2147483647"
definition MAX_WAL_AUTOCHECKPOINT_FRAMES :: u32 where "MAX_WAL_AUTOCHECKPOINT_FRAMES = 2147483647"

definition as_millis :: "duration \<Rightarrow> nat" where
  "as_millis d = d div 1000000"

definition validate_busy_timeout :: "duration \<Rightarrow> unit result" where
  "validate_busy_timeout timeout =
     (if as_millis timeout > MAX_BUSY_TIMEOUT_MILLIS
      then Inl (Error InvalidBusyTimeout ''busy timeout exceeds the supported millisecond range'')
      else Inr ())"

definition set_busy_timeout :: "'db Engine \<Rightarrow> duration \<Rightarrow> ('db, Error, unit) effect" where
  "set_busy_timeout eng timeout =
     bind_st (lift_st (validate_busy_timeout timeout)) (\<lambda>_.
     map_err_st map_storage_error (e_busy_timeout eng timeout))"

definition non_negative_frame_count :: "int \<Rightarrow> u32 option" where
  "non_negative_frame_count v = (if 0 \<le> v \<and> v < 2 ^ 32 then Some (word_of_int v) else None)"

definition checkpoint_database ::
  "'db Engine \<Rightarrow> string option \<Rightarrow> CheckpointMode \<Rightarrow> ('db, Error, CheckpointResult) effect" where
  "checkpoint_database eng database_name mode db =
     (if (case database_name of Some n \<Rightarrow> CHR 0x00 \<in> set n | None \<Rightarrow> False)
      then (Inl (Error InvalidDatabaseName ''database name contains an embedded NUL byte''), db)
      else
        (case e_wal_checkpoint eng database_name (checkpoint_mode_repr mode) db of
           ((rc, wal_frames, checkpointed_frames), db') \<Rightarrow>
             if rc \<noteq> SQLITE_OK \<and> rc \<noteq> SQLITE_BUSY then (Inl (map_raw_storage_error eng rc), db')
             else (Inr (checkpoint_result_new (non_negative_frame_count wal_frames)
                    (non_negative_frame_count checkpointed_frames) (rc = SQLITE_BUSY)), db')))"

definition checkpoint :: "'db Engine \<Rightarrow> CheckpointMode \<Rightarrow> ('db, Error, CheckpointResult) effect" where
  "checkpoint eng mode = checkpoint_database eng (Some ''main'') mode"

definition set_wal_autocheckpoint :: "'db Engine \<Rightarrow> u32 \<Rightarrow> ('db, Error, unit) effect" where
  "set_wal_autocheckpoint eng frames db =
     (if unat frames > 2147483647
      then (Inl (Error InvalidCheckpointThreshold
              ''WAL auto-checkpoint threshold exceeds the supported range''), db)
      else
        (case e_wal_autocheckpoint eng (uint frames) db of
           (rc, db') \<Rightarrow>
             if rc = SQLITE_OK then (Inr (), db') else (Inl (map_raw_storage_error eng rc), db')))"

section \<open>Statements\<close>

record Statement =
  st_sql :: string
  st_parameter_count :: nat
  st_bindings :: "ValueRef list"

definition prepare :: "'db Engine \<Rightarrow> string \<Rightarrow> ('db, Error, Statement) effect" where
  "prepare eng sql db =
     (map_ok (\<lambda>n. \<lparr>st_sql = sql, st_parameter_count = n, st_bindings = replicate n RNull\<rparr>)
        (map_err map_storage_error (e_parameter_count eng sql db)), db)"

definition clear_bindings :: "Statement \<Rightarrow> Statement" where
  "clear_bindings stmt = stmt\<lparr>st_bindings := replicate (st_parameter_count stmt) RNull\<rparr>"

fun bind_loop ::
  "'db Engine \<Rightarrow> 'db \<Rightarrow> nat \<Rightarrow> ValueRef list \<Rightarrow> Statement \<Rightarrow> unit result \<times> Statement" where
  "bind_loop eng db offset [] stmt = (Inr (), stmt)"
| "bind_loop eng db offset (value # rest) stmt =
     (case e_bind eng (st_sql stmt) (offset + 1) value db of
        Inl error \<Rightarrow> (Inl (map_storage_error error), clear_bindings stmt)
      | Inr _ \<Rightarrow> bind_loop eng db (offset + 1) rest
          (stmt\<lparr>st_bindings := (st_bindings stmt)[offset := value]\<rparr>))"

definition bind_iter ::
  "'db Engine \<Rightarrow> 'db \<Rightarrow> ValueRef list \<Rightarrow> Statement \<Rightarrow> unit result \<times> Statement" where
  "bind_iter eng db parameters stmt =
     (if length parameters \<noteq> st_parameter_count stmt
      then (Inl (Error ParameterCountMismatch
              ''SQL parameter count does not match the supplied values''), stmt)
      else bind_loop eng db 0 parameters stmt)"

definition bind_all ::
  "'db Engine \<Rightarrow> 'db \<Rightarrow> ValueRef list \<Rightarrow> Statement \<Rightarrow> unit result \<times> Statement" where
  "bind_all eng db parameters stmt = bind_iter eng db parameters stmt"

definition bind_owned_all ::
  "'db Engine \<Rightarrow> 'db \<Rightarrow> Value list \<Rightarrow> Statement \<Rightarrow> unit result \<times> Statement" where
  "bind_owned_all eng db parameters stmt = bind_iter eng db (map as_ref parameters) stmt"

definition raw_execute :: "'db Engine \<Rightarrow> Statement \<Rightarrow> ('db, Error, nat) effect" where
  "raw_execute eng stmt = map_err_st map_storage_error (e_execute eng (st_sql stmt) (st_bindings stmt))"

definition statement_execute :: "'db Engine \<Rightarrow> Statement \<Rightarrow> ValueRef list \<Rightarrow> ('db, Error, nat) effect" where
  "statement_execute eng stmt parameters db =
     (case bind_all eng db parameters stmt of
        (Inl e, _) \<Rightarrow> (Inl e, db)
      | (Inr _, stmt) \<Rightarrow> raw_execute eng stmt db)"

definition statement_execute_values :: "'db Engine \<Rightarrow> Statement \<Rightarrow> Value list \<Rightarrow> ('db, Error, nat) effect" where
  "statement_execute_values eng stmt parameters db =
     (case bind_owned_all eng db parameters stmt of
        (Inl e, _) \<Rightarrow> (Inl e, db)
      | (Inr _, stmt) \<Rightarrow> raw_execute eng stmt db)"

text \<open>The rows still to come; an item is a row or the failure the engine reports in its place.\<close>

type_synonym Rows = "(SqlError + SqlRow) list"

definition statement_query :: "'db Engine \<Rightarrow> Statement \<Rightarrow> ValueRef list \<Rightarrow> ('db, Error, Rows) effect" where
  "statement_query eng stmt parameters db =
     (case bind_all eng db parameters stmt of
        (Inl e, _) \<Rightarrow> (Inl e, db)
      | (Inr _, stmt) \<Rightarrow> (Inr (e_query eng (st_sql stmt) (st_bindings stmt) db), db))"

definition statement_query_values :: "'db Engine \<Rightarrow> Statement \<Rightarrow> Value list \<Rightarrow> ('db, Error, Rows) effect" where
  "statement_query_values eng stmt parameters db =
     (case bind_owned_all eng db parameters stmt of
        (Inl e, _) \<Rightarrow> (Inl e, db)
      | (Inr _, stmt) \<Rightarrow> (Inr (e_query eng (st_sql stmt) (st_bindings stmt) db), db))"

fun next_row :: "Rows \<Rightarrow> SqlRow option result \<times> Rows" where
  "next_row [] = (Inr None, [])"
| "next_row (Inl e # rows) = (Inl (map_storage_error e), rows)"
| "next_row (Inr row # rows) = (Inr (Some row), rows)"

definition execute :: "'db Engine \<Rightarrow> string \<Rightarrow> ValueRef list \<Rightarrow> ('db, Error, nat) effect" where
  "execute eng sql parameters = bind_st (prepare eng sql) (\<lambda>stmt. statement_execute eng stmt parameters)"

definition execute_values :: "'db Engine \<Rightarrow> string \<Rightarrow> Value list \<Rightarrow> ('db, Error, nat) effect" where
  "execute_values eng sql parameters =
     bind_st (prepare eng sql) (\<lambda>stmt. statement_execute_values eng stmt parameters)"

section \<open>Rows\<close>

text \<open>
  \<^verbatim>\<open>std::str::from_utf8\<close>: the byte sequences of well-formed UTF-8, with no overlong form, no
  surrogate and nothing above U+10FFFF.
\<close>

definition utf8_tail :: "u8 \<Rightarrow> bool" where
  "utf8_tail b = (0x80 \<le> b \<and> b \<le> 0xBF)"

fun utf8_valid :: "u8 list \<Rightarrow> bool" where
  "utf8_valid [] = True"
| "utf8_valid (b0 # rest) =
     (if b0 < 0x80 then utf8_valid rest
      else if 0xC2 \<le> b0 \<and> b0 \<le> 0xDF then
        (case rest of b1 # rest' \<Rightarrow> utf8_tail b1 \<and> utf8_valid rest' | _ \<Rightarrow> False)
      else if 0xE0 \<le> b0 \<and> b0 \<le> 0xEF then
        (case rest of
           b1 # b2 # rest' \<Rightarrow>
             (if b0 = 0xE0 then 0xA0 \<le> b1 else True) \<and> (if b0 = 0xED then b1 \<le> 0x9F else True) \<and>
             utf8_tail b1 \<and> utf8_tail b2 \<and> utf8_valid rest'
         | _ \<Rightarrow> False)
      else if 0xF0 \<le> b0 \<and> b0 \<le> 0xF4 then
        (case rest of
           b1 # b2 # b3 # rest' \<Rightarrow>
             (if b0 = 0xF0 then 0x90 \<le> b1 else True) \<and> (if b0 = 0xF4 then b1 \<le> 0x8F else True) \<and>
             utf8_tail b1 \<and> utf8_tail b2 \<and> utf8_tail b3 \<and> utf8_valid rest'
         | _ \<Rightarrow> False)
      else False)"

definition string_of_bytes :: "u8 list \<Rightarrow> string" where
  "string_of_bytes bs = map (\<lambda>b. char_of (unat b)) bs"

definition bytes_of_string :: "string \<Rightarrow> u8 list" where
  "bytes_of_string s = map (\<lambda>c. word_of_nat (of_char c)) s"

definition from_utf8 :: "u8 list \<Rightarrow> string option" where
  "from_utf8 bs = (if utf8_valid bs then Some (string_of_bytes bs) else None)"

lemma bytes_of_string_of_bytes [simp]: "bytes_of_string (string_of_bytes bs) = bs"
proof -
  have "unat b mod 256 = unat b" for b :: u8
    using unsigned_less [of b] by (intro mod_less) simp
  then have "of_char (char_of (unat b) :: char) = (unat b :: nat)" for b :: u8
    by (simp add: of_char_of)
  then show ?thesis by (simp add: bytes_of_string_def string_of_bytes_def comp_def)
qed

lemma string_of_bytes_of_string [simp]: "string_of_bytes (bytes_of_string s) = s"
proof -
  have "char_of (unat (word_of_nat (of_char c) :: u8)) = c" for c :: char
    by (simp add: unat_of_nat)
  then show ?thesis by (simp add: string_of_bytes_def bytes_of_string_def comp_def)
qed

definition column_index_error :: Error where
  "column_index_error = Error InvalidColumnIndex ''result column index is out of range''"

definition value_ref :: "SqlRow \<Rightarrow> nat \<Rightarrow> ValueRef result" where
  "value_ref row index =
     (if index \<ge> length row then Inl column_index_error
      else (case row ! index of
          SqlNull \<Rightarrow> Inr RNull
        | SqlInteger v \<Rightarrow> Inr (RInteger v)
        | SqlReal v \<Rightarrow> Inr (RReal v)
        | SqlText v \<Rightarrow> map_ok RText (ok_or (Error InvalidUtf8 ''text value is not valid UTF-8'') (from_utf8 v))
        | SqlBlob v \<Rightarrow> Inr (RBlob v)))"

definition row_value :: "SqlRow \<Rightarrow> nat \<Rightarrow> Value result" where
  "row_value row index = map_ok to_owned (value_ref row index)"

definition row_value_type :: "SqlRow \<Rightarrow> nat \<Rightarrow> ValueType result" where
  "row_value_type row index = map_ok ref_value_type (value_ref row index)"

definition invalid_column_type :: Error where
  "invalid_column_type = Error InvalidColumnType ''result column has an incompatible storage class''"

definition get_i64 :: "SqlRow \<Rightarrow> nat \<Rightarrow> i64 result" where
  "get_i64 row index =
     bind_result (value_ref row index) (\<lambda>v. case v of RInteger x \<Rightarrow> Inr x | _ \<Rightarrow> Inl invalid_column_type)"

definition get_f64 :: "SqlRow \<Rightarrow> nat \<Rightarrow> f64 result" where
  "get_f64 row index =
     bind_result (value_ref row index) (\<lambda>v. case v of RReal x \<Rightarrow> Inr x | _ \<Rightarrow> Inl invalid_column_type)"

definition get_text :: "SqlRow \<Rightarrow> nat \<Rightarrow> string result" where
  "get_text row index =
     bind_result (value_ref row index) (\<lambda>v. case v of RText x \<Rightarrow> Inr x | _ \<Rightarrow> Inl invalid_column_type)"

definition get_blob :: "SqlRow \<Rightarrow> nat \<Rightarrow> u8 list result" where
  "get_blob row index =
     bind_result (value_ref row index) (\<lambda>v. case v of RBlob x \<Rightarrow> Inr x | _ \<Rightarrow> Inl invalid_column_type)"

section \<open>Binding and execution\<close>

fun first_bind_error :: "'db Engine \<Rightarrow> 'db \<Rightarrow> string \<Rightarrow> nat \<Rightarrow> ValueRef list \<Rightarrow> SqlError option" where
  "first_bind_error eng db sql offset [] = None"
| "first_bind_error eng db sql offset (v # vs) =
     (case e_bind eng sql (offset + 1) v db of
        Inl e \<Rightarrow> Some e | Inr _ \<Rightarrow> first_bind_error eng db sql (offset + 1) vs)"

lemma bind_loop_eq:
  assumes "offset + length vs = length (st_bindings stmt)"
  shows "bind_loop eng db offset vs stmt =
    (case first_bind_error eng db (st_sql stmt) offset vs of
       Some e \<Rightarrow> (Inl (map_storage_error e), clear_bindings stmt)
     | None \<Rightarrow> (Inr (), stmt\<lparr>st_bindings := take offset (st_bindings stmt) @ vs\<rparr>))"
  using assms
proof (induction vs arbitrary: offset stmt)
  case (Cons v vs)
  let ?s = "stmt\<lparr>st_bindings := (st_bindings stmt)[offset := v]\<rparr>"
  have "take (Suc offset) ((st_bindings stmt)[offset := v]) = take offset (st_bindings stmt) @ [v]"
    using Cons.prems by (simp add: take_Suc_conv_app_nth)
  moreover have "clear_bindings ?s = clear_bindings stmt" by (simp add: clear_bindings_def)
  ultimately show ?case
    using Cons.IH [of "Suc offset" ?s] Cons.prems
    by (cases "e_bind eng (st_sql stmt) (Suc offset) v db") (simp_all split: option.splits)
qed simp

text \<open>
  Statements execute with exactly the values the caller supplied. For every engine,
  \<^const>\<open>execute_values\<close> reaches the engine's execution only when the statement compiles, the number of
  values equals the statement's parameter count and every value binds; the engine then sees the
  values in order at positions 1 to n and nothing left from an earlier execution. In every other case
  the connection state is untouched and the error is the translated compile or bind failure, or
  \<^verbatim>\<open>ParameterCountMismatch\<close>.
\<close>

lemma execute_values_eq:
  "execute_values eng sql ps db =
     (case e_parameter_count eng sql db of
        Inl e \<Rightarrow> (Inl (map_storage_error e), db)
      | Inr n \<Rightarrow>
          if length ps \<noteq> n
          then (Inl (Error ParameterCountMismatch ''SQL parameter count does not match the supplied values''), db)
          else (case first_bind_error eng db sql 0 (map as_ref ps) of
                  Some e \<Rightarrow> (Inl (map_storage_error e), db)
                | None \<Rightarrow> map_err_st map_storage_error (e_execute eng sql (map as_ref ps)) db))"
  by (cases "e_parameter_count eng sql db")
    (auto simp: execute_values_def bind_st_def prepare_def statement_execute_values_def bind_owned_all_def
      bind_iter_def bind_loop_eq raw_execute_def split: option.splits)

lemma execute_values_Inr:
  assumes "execute_values eng sql ps db = (Inr n, db')"
  shows "e_execute eng sql (map as_ref ps) db = (Inr n, db')"
  using assms by (auto simp: execute_values_eq split: sum.splits if_splits option.splits)

lemma execute_values_Inl:
  assumes "execute_values eng sql ps db = (Inl e, db')"
  shows "db' = db \<or> (\<exists>e'. e_execute eng sql (map as_ref ps) db = (Inl e', db') \<and> e = map_storage_error e')"
  using assms by (auto simp: execute_values_eq split: sum.splits if_splits option.splits)

text \<open>The outcome of a getter in terms of the cell: the text it would be, or the error.\<close>

definition utf8_error :: Error where
  "utf8_error = Error InvalidUtf8 ''text value is not valid UTF-8''"

definition typed_get :: "SqlRow \<Rightarrow> nat \<Rightarrow> (SqlValueRef \<Rightarrow> 'a option) \<Rightarrow> 'a result" where
  "typed_get row i sel =
     (if length row \<le> i then Inl column_index_error
      else case row ! i of
          SqlText b \<Rightarrow> if utf8_valid b then ok_or invalid_column_type (sel (SqlText b)) else Inl utf8_error
        | cell \<Rightarrow> ok_or invalid_column_type (sel cell))"

lemmas getter_defs = typed_get_def value_ref_def from_utf8_def utf8_error_def

lemma getters_typed:
  "get_i64 row i = typed_get row i (\<lambda>c. case c of SqlInteger x \<Rightarrow> Some x | _ \<Rightarrow> None)"
  "get_f64 row i = typed_get row i (\<lambda>c. case c of SqlReal x \<Rightarrow> Some x | _ \<Rightarrow> None)"
  "get_text row i = typed_get row i (\<lambda>c. case c of SqlText b \<Rightarrow> Some (string_of_bytes b) | _ \<Rightarrow> None)"
  "get_blob row i = typed_get row i (\<lambda>c. case c of SqlBlob b \<Rightarrow> Some b | _ \<Rightarrow> None)"
  by (cases "row ! i"; simp add: getter_defs get_i64_def get_f64_def get_text_def get_blob_def)+

lemma typed_get_Inr:
  "typed_get row i sel = Inr x \<longleftrightarrow>
     i < length row \<and> sel (row ! i) = Some x \<and> (\<forall>b. row ! i = SqlText b \<longrightarrow> utf8_valid b)"
  by (cases "row ! i") (auto simp: typed_get_def)

lemma typed_get_errors:
  "typed_get row i sel = Inl column_index_error \<longleftrightarrow> length row \<le> i"
  "typed_get row i sel = Inl utf8_error \<longleftrightarrow> i < length row \<and> (\<exists>b. row ! i = SqlText b \<and> \<not> utf8_valid b)"
  "typed_get row i sel = Inl invalid_column_type \<longleftrightarrow>
     i < length row \<and> sel (row ! i) = None \<and> (\<forall>b. row ! i = SqlText b \<longrightarrow> utf8_valid b)"
  by (cases "row ! i"; auto simp: typed_get_def ok_or_def column_index_error_def utf8_error_def
      invalid_column_type_def split: option.splits)+

text \<open>
  Column access never coerces. A typed getter succeeds exactly when the column exists and
  holds that storage class (text moreover being well-formed UTF-8, in which case the bytes are the
  string's bytes); a missing column is \<^verbatim>\<open>InvalidColumnIndex\<close>, another storage class is
  \<^verbatim>\<open>InvalidColumnType\<close> and ill-formed text is \<^verbatim>\<open>InvalidUtf8\<close>.
\<close>

lemma column_getters_strict:
  "(get_i64 row i = Inr x) = (i < length row \<and> row ! i = SqlInteger x) \<and>
   (get_f64 row i = Inr y) = (i < length row \<and> row ! i = SqlReal y) \<and>
   (get_text row i = Inr s) = (i < length row \<and>
      (\<exists>bs. row ! i = SqlText bs \<and> utf8_valid bs \<and> s = string_of_bytes bs \<and> bytes_of_string s = bs)) \<and>
   (get_blob row i = Inr bs) = (i < length row \<and> row ! i = SqlBlob bs) \<and>
   (get_i64 row i = Inl column_index_error) = (length row \<le> i) \<and>
   (get_i64 row i = Inl utf8_error) = (i < length row \<and> (\<exists>b. row ! i = SqlText b \<and> \<not> utf8_valid b)) \<and>
   (get_i64 row i = Inl invalid_column_type) = (i < length row \<and> (\<nexists>x. row ! i = SqlInteger x) \<and>
      (\<nexists>b. row ! i = SqlText b \<and> \<not> utf8_valid b))"
  unfolding getters_typed typed_get_Inr typed_get_errors
  by (cases "row ! i") auto

end
