(* ===== verification/Fault.thy ===== *)
theory Fault
  imports Storage
begin

text \<open>
  The fault-injection file system of \<^verbatim>\<open>csgdb-storage/src/fault.rs\<close>: one-shot rules, the controller that
  counts operations and decides which one fails, the session that owns it, the registration of the
  wrapping VFS, and the I/O methods that forward to the real file. The real file and the engine's registry
  are not part of the repository: the file is a state with a table of optional methods, the answers of the
  engine are arguments. Out-parameters belong to the state a method transforms.
\<close>

section \<open>Rules\<close>

datatype FaultTarget = AnyFile | MainDatabase | WriteAheadLog
datatype FaultOperation = FWrite | FSync | FTruncate
datatype FaultAction = FError | PartialWrite nat

record FaultRule =
  fr_operation :: FaultOperation
  fr_target :: FaultTarget
  fr_occurrence :: u64
  fr_action :: FaultAction

definition invalid_rule :: "string \<Rightarrow> Error" where
  "invalid_rule message = Error InvalidFaultRule message"

definition fault_rule_new :: "FaultOperation \<Rightarrow> FaultTarget \<Rightarrow> u64 \<Rightarrow> FaultAction \<Rightarrow> FaultRule result" where
  "fault_rule_new operation target occurrence action =
     (if occurrence = 0 then Inl (invalid_rule ''fault occurrence must be greater than zero'')
      else Inr \<lparr>fr_operation = operation, fr_target = target, fr_occurrence = occurrence, fr_action = action\<rparr>)"

definition write_error :: "FaultTarget \<Rightarrow> u64 \<Rightarrow> FaultRule result" where
  "write_error target occurrence = fault_rule_new FWrite target occurrence FError"

definition partial_write :: "FaultTarget \<Rightarrow> u64 \<Rightarrow> nat \<Rightarrow> FaultRule result" where
  "partial_write target occurrence prefix_bytes =
     (if prefix_bytes = 0 then Inl (invalid_rule ''partial-write prefix must be greater than zero'')
      else fault_rule_new FWrite target occurrence (PartialWrite prefix_bytes))"

definition sync_error :: "FaultTarget \<Rightarrow> u64 \<Rightarrow> FaultRule result" where
  "sync_error target occurrence = fault_rule_new FSync target occurrence FError"

definition truncate_error :: "FaultTarget \<Rightarrow> u64 \<Rightarrow> FaultRule result" where
  "truncate_error target occurrence = fault_rule_new FTruncate target occurrence FError"

section \<open>The controller\<close>

record FaultStats =
  fst_writes :: u64
  fst_syncs :: u64
  fst_truncates :: u64
  fst_matching_operations :: u64
  fst_injections :: u64

record Controller =
  ctl_rule :: "FaultRule option"
  ctl_match_count :: u64
  ctl_stats :: FaultStats

definition controller_new :: Controller where
  "controller_new = \<lparr>ctl_rule = None, ctl_match_count = 0,
     ctl_stats = \<lparr>fst_writes = 0, fst_syncs = 0, fst_truncates = 0, fst_matching_operations = 0, fst_injections = 0\<rparr>\<rparr>"

definition target_matches :: "FaultTarget \<Rightarrow> FaultTarget \<Rightarrow> bool" where
  "target_matches expected actual \<longleftrightarrow> expected = AnyFile \<or> expected = actual"

definition count_operation :: "FaultOperation \<Rightarrow> FaultStats \<Rightarrow> FaultStats" where
  "count_operation operation stats =
     (case operation of
        FWrite \<Rightarrow> stats\<lparr>fst_writes := saturating_add (fst_writes stats) 1\<rparr>
      | FSync \<Rightarrow> stats\<lparr>fst_syncs := saturating_add (fst_syncs stats) 1\<rparr>
      | FTruncate \<Rightarrow> stats\<lparr>fst_truncates := saturating_add (fst_truncates stats) 1\<rparr>)"

definition intercept :: "FaultOperation \<Rightarrow> FaultTarget \<Rightarrow> Controller \<Rightarrow> FaultAction option \<times> Controller" where
  "intercept operation target c =
     (let c = c\<lparr>ctl_stats := count_operation operation (ctl_stats c)\<rparr> in
      case ctl_rule c of
        None \<Rightarrow> (None, c)
      | Some rule \<Rightarrow>
          if fr_operation rule \<noteq> operation \<or> \<not> target_matches (fr_target rule) target then (None, c)
          else
            let s = ctl_stats c;
                c = c\<lparr>ctl_match_count := saturating_add (ctl_match_count c) 1,
                      ctl_stats := s\<lparr>fst_matching_operations := saturating_add (fst_matching_operations s) 1\<rparr>\<rparr> in
            if ctl_match_count c \<noteq> fr_occurrence rule then (None, c)
            else
              let s = ctl_stats c in
              (Some (fr_action rule),
               c\<lparr>ctl_rule := None, ctl_stats := s\<lparr>fst_injections := saturating_add (fst_injections s) 1\<rparr>\<rparr>))"

section \<open>Sessions and registration\<close>

definition arm :: "FaultRule \<Rightarrow> Controller \<Rightarrow> Controller" where
  "arm rule c = c\<lparr>ctl_rule := Some rule, ctl_match_count := 0\<rparr>"

definition disarm :: "Controller \<Rightarrow> Controller" where
  "disarm c = c\<lparr>ctl_rule := None, ctl_match_count := 0\<rparr>"

definition session_stats :: "Controller \<Rightarrow> FaultStats" where
  "session_stats c = ctl_stats c"

definition reset_controller :: "Controller \<Rightarrow> Controller" where
  "reset_controller c = controller_new"

definition session_drop :: "Controller \<Rightarrow> Controller" where
  "session_drop c = reset_controller c"

text \<open>
  What the engine answers during registration: the result of its initialisation, the default VFS (its file
  size, if there is one), and the result of registering the wrapper.
\<close>

record vfs_answers =
  va_initialize :: int
  va_default :: "int option"
  va_register :: int

record VfsState =
  vs_registration :: "unit result option"
  vs_parent :: "int option"
  vs_wrapper_size :: "int option"
  vs_controller :: Controller

definition backend_unavailable :: "string \<Rightarrow> Error" where
  "backend_unavailable message = Error StorageBackendUnavailable message"

definition wrapper_size :: "nat \<Rightarrow> int \<Rightarrow> int option" where
  "wrapper_size file_offset sz =
     (let real = (if 0 \<le> sz then nat sz else 2 ^ 64 - 1) in
      if file_offset + real < 2 ^ 64 \<and> file_offset + real < 2 ^ 31 then Some (int (file_offset + real)) else None)"

definition register_vfs_once :: "nat \<Rightarrow> vfs_answers \<Rightarrow> VfsState \<Rightarrow> unit result \<times> VfsState" where
  "register_vfs_once file_offset answers st =
     (if va_initialize answers \<noteq> SQLITE_OK
      then (Inl (backend_unavailable ''storage runtime initialization failed''), st)
      else case va_default answers of
        None \<Rightarrow> (Inl (backend_unavailable ''default storage VFS is unavailable''), st)
      | Some sz \<Rightarrow>
          (case wrapper_size file_offset sz of
             None \<Rightarrow> (Inl (backend_unavailable ''storage VFS file structure is too large''), st)
           | Some size' \<Rightarrow>
               if va_register answers \<noteq> SQLITE_OK
               then (Inl (backend_unavailable ''fault-injection VFS registration failed''), st\<lparr>vs_parent := None\<rparr>)
               else (Inr (), st\<lparr>vs_parent := Some sz, vs_wrapper_size := Some size'\<rparr>)))"

definition register_vfs :: "nat \<Rightarrow> vfs_answers \<Rightarrow> VfsState \<Rightarrow> unit result \<times> VfsState" where
  "register_vfs file_offset answers st =
     (case vs_registration st of
        Some r \<Rightarrow> (r, st)
      | None \<Rightarrow> (case register_vfs_once file_offset answers st of (r, st) \<Rightarrow> (r, st\<lparr>vs_registration := Some r\<rparr>)))"

definition session_start :: "nat \<Rightarrow> vfs_answers \<Rightarrow> VfsState \<Rightarrow> unit result \<times> VfsState" where
  "session_start file_offset answers st =
     (case register_vfs file_offset answers st of
        (Inl e, st) \<Rightarrow> (Inl e, st)
      | (Inr _, st) \<Rightarrow> (Inr (), st\<lparr>vs_controller := reset_controller (vs_controller st)\<rparr>))"

section \<open>Files\<close>

definition SQLITE_CANTOPEN :: int where "SQLITE_CANTOPEN = 14"
definition SQLITE_IOERR :: int where "SQLITE_IOERR = 10"
definition OPEN_MAIN_DB :: u32 where "OPEN_MAIN_DB = 0x100"
definition OPEN_WAL :: u32 where "OPEN_WAL = 0x80000"

definition target_from_flags :: "u32 \<Rightarrow> FaultTarget" where
  "target_from_flags flags =
     (if flags AND OPEN_WAL \<noteq> 0 then WriteAheadLog
      else if flags AND OPEN_MAIN_DB \<noteq> 0 then MainDatabase
      else AnyFile)"

type_synonym 'f io = "'f \<Rightarrow> int \<times> 'f"
type_synonym ptr = nat

record 'f io_methods =
  x_version :: int
  x_close :: "'f io option"
  x_read :: "(ptr \<Rightarrow> int \<Rightarrow> int \<Rightarrow> 'f io) option"
  x_write :: "(u8 list \<Rightarrow> int \<Rightarrow> int \<Rightarrow> 'f io) option"
  x_truncate :: "(int \<Rightarrow> 'f io) option"
  x_sync :: "(int \<Rightarrow> 'f io) option"
  x_file_size :: "(ptr \<Rightarrow> 'f io) option"
  x_lock :: "(int \<Rightarrow> 'f io) option"
  x_unlock :: "(int \<Rightarrow> 'f io) option"
  x_check_reserved_lock :: "(ptr \<Rightarrow> 'f io) option"
  x_file_control :: "(int \<Rightarrow> ptr \<Rightarrow> 'f io) option"
  x_sector_size :: "'f io option"
  x_device_characteristics :: "'f io option"
  x_shm_map :: "(int \<Rightarrow> int \<Rightarrow> int \<Rightarrow> ptr \<Rightarrow> 'f io) option"
  x_shm_lock :: "(int \<Rightarrow> int \<Rightarrow> int \<Rightarrow> 'f io) option"
  x_shm_barrier :: "('f \<Rightarrow> 'f) option"
  x_shm_unmap :: "(int \<Rightarrow> 'f io) option"
  x_fetch :: "(int \<Rightarrow> int \<Rightarrow> ptr \<Rightarrow> 'f io) option"
  x_unfetch :: "(int \<Rightarrow> ptr \<Rightarrow> 'f io) option"

text \<open>An open wrapped file: its target, the version of the method table installed on it, and the real file.\<close>

record 'f FaultFile =
  ff_target :: FaultTarget
  ff_version :: "int option"
  ff_real :: 'f
  ff_methods :: "'f io_methods"

definition wrapper_version :: "int \<Rightarrow> int" where
  "wrapper_version version = (if version \<ge> 3 then 3 else if version = 2 then 2 else 1)"

text \<open>
  \<^verbatim>\<open>fault_open\<close>. \<open>parent_open\<close> is the parent's \<^verbatim>\<open>xOpen\<close>, if it has one: its result, the real file, and the real file's
  methods.
\<close>

definition fault_open ::
  "int option \<Rightarrow> bool \<Rightarrow> (u32 \<Rightarrow> int \<times> 'f \<times> 'f io_methods) option \<Rightarrow> u32 \<Rightarrow> int \<times> 'f FaultFile option" where
  "fault_open parent file_is_null parent_open flags =
     (if parent = None \<or> file_is_null then (SQLITE_CANTOPEN, None)
      else case parent_open of
        None \<Rightarrow> (SQLITE_CANTOPEN, None)
      | Some xopen \<Rightarrow>
          (case xopen flags of
             (result, real, methods) \<Rightarrow>
               if result \<noteq> SQLITE_OK
               then (result, Some \<lparr>ff_target = target_from_flags flags, ff_version = None, ff_real = real, ff_methods = methods\<rparr>)
               else (SQLITE_OK, Some \<lparr>ff_target = target_from_flags flags,
                 ff_version = Some (wrapper_version (x_version methods)), ff_real = real, ff_methods = methods\<rparr>)))"

definition on_real :: "'f io \<Rightarrow> 'f FaultFile io" where
  "on_real method file = (case method (ff_real file) of (rc, real) \<Rightarrow> (rc, file\<lparr>ff_real := real\<rparr>))"

text \<open>A method that forwards, or answers with a fixed code when the real file does not have it.\<close>

definition forward_int_method :: "int \<Rightarrow> 'f io option \<Rightarrow> 'f FaultFile io" where
  "forward_int_method missing method file = (case method of Some m \<Rightarrow> on_real m file | None \<Rightarrow> (missing, file))"

definition io_close :: "'f FaultFile io" where
  "io_close file =
     (case forward_int_method SQLITE_IOERR (x_close (ff_methods file)) file of
        (result, file) \<Rightarrow> (result, file\<lparr>ff_version := None\<rparr>))"

definition io_read :: "ptr \<Rightarrow> int \<Rightarrow> int \<Rightarrow> 'f FaultFile io" where
  "io_read buffer amount offset file =
     forward_int_method SQLITE_IOERR (map_option (\<lambda>m. m buffer amount offset) (x_read (ff_methods file))) file"

definition io_file_size :: "ptr \<Rightarrow> 'f FaultFile io" where
  "io_file_size size' file = forward_int_method SQLITE_IOERR (map_option (\<lambda>m. m size') (x_file_size (ff_methods file))) file"

definition io_lock :: "int \<Rightarrow> 'f FaultFile io" where
  "io_lock level file = forward_int_method SQLITE_IOERR (map_option (\<lambda>m. m level) (x_lock (ff_methods file))) file"

definition io_unlock :: "int \<Rightarrow> 'f FaultFile io" where
  "io_unlock level file = forward_int_method SQLITE_IOERR (map_option (\<lambda>m. m level) (x_unlock (ff_methods file))) file"

definition io_check_reserved_lock :: "ptr \<Rightarrow> 'f FaultFile io" where
  "io_check_reserved_lock r file =
     forward_int_method SQLITE_IOERR (map_option (\<lambda>m. m r) (x_check_reserved_lock (ff_methods file))) file"

definition io_file_control :: "int \<Rightarrow> ptr \<Rightarrow> 'f FaultFile io" where
  "io_file_control operation argument file =
     forward_int_method SQLITE_IOERR (map_option (\<lambda>m. m operation argument) (x_file_control (ff_methods file))) file"

definition io_shm_map :: "int \<Rightarrow> int \<Rightarrow> int \<Rightarrow> ptr \<Rightarrow> 'f FaultFile io" where
  "io_shm_map page page_size ext out file =
     forward_int_method SQLITE_IOERR (map_option (\<lambda>m. m page page_size ext out) (x_shm_map (ff_methods file))) file"

definition io_shm_lock :: "int \<Rightarrow> int \<Rightarrow> int \<Rightarrow> 'f FaultFile io" where
  "io_shm_lock offset cnt flags file =
     forward_int_method SQLITE_IOERR (map_option (\<lambda>m. m offset cnt flags) (x_shm_lock (ff_methods file))) file"

definition io_shm_unmap :: "int \<Rightarrow> 'f FaultFile io" where
  "io_shm_unmap delete file = forward_int_method SQLITE_IOERR (map_option (\<lambda>m. m delete) (x_shm_unmap (ff_methods file))) file"

definition io_unfetch :: "int \<Rightarrow> ptr \<Rightarrow> 'f FaultFile io" where
  "io_unfetch offset buffer file =
     forward_int_method SQLITE_OK (map_option (\<lambda>m. m offset buffer) (x_unfetch (ff_methods file))) file"

definition io_sector_size :: "'f FaultFile io" where
  "io_sector_size file = forward_int_method 0 (x_sector_size (ff_methods file)) file"

definition io_device_characteristics :: "'f FaultFile io" where
  "io_device_characteristics file = forward_int_method 0 (x_device_characteristics (ff_methods file)) file"

definition io_shm_barrier :: "'f FaultFile \<Rightarrow> 'f FaultFile" where
  "io_shm_barrier file = (case x_shm_barrier (ff_methods file) of Some m \<Rightarrow> file\<lparr>ff_real := m (ff_real file)\<rparr> | None \<Rightarrow> file)"

text \<open>\<open>poke_null\<close> writes a null pointer to the out-parameter.\<close>

definition io_fetch :: "(ptr \<Rightarrow> 'f \<Rightarrow> 'f) \<Rightarrow> int \<Rightarrow> int \<Rightarrow> ptr \<Rightarrow> 'f FaultFile io" where
  "io_fetch poke_null offset amount out file =
     (case x_fetch (ff_methods file) of
        Some m \<Rightarrow> on_real (m offset amount out) file
      | None \<Rightarrow> (SQLITE_OK, if out \<noteq> 0 then file\<lparr>ff_real := poke_null out (ff_real file)\<rparr> else file))"

definition io_write :: "u8 list \<Rightarrow> int \<Rightarrow> int \<Rightarrow> Controller \<times> 'f FaultFile \<Rightarrow> int \<times> Controller \<times> 'f FaultFile" where
  "io_write buffer amount offset st =
     (case st of (c, file) \<Rightarrow>
      case x_write (ff_methods file) of
        None \<Rightarrow> (SQLITE_IOERR_WRITE, c, file)
      | Some write \<Rightarrow>
          (case intercept FWrite (ff_target file) c of
             (Some FError, c) \<Rightarrow> (SQLITE_IOERR_WRITE, c, file)
           | (Some (PartialWrite prefix), c) \<Rightarrow>
               let prefix = (if 0 \<le> amount then min (nat amount) prefix else 0) in
               if prefix > 0
               then (case on_real (write buffer (if prefix < 2 ^ 31 then int prefix else amount) offset) file of
                       (result, file) \<Rightarrow> (if result \<noteq> SQLITE_OK then result else SQLITE_IOERR_WRITE, c, file))
               else (SQLITE_IOERR_WRITE, c, file)
           | (None, c) \<Rightarrow> (case on_real (write buffer amount offset) file of (result, file) \<Rightarrow> (result, c, file))))"

definition io_truncate :: "int \<Rightarrow> Controller \<times> 'f FaultFile \<Rightarrow> int \<times> Controller \<times> 'f FaultFile" where
  "io_truncate size' st =
     (case st of (c, file) \<Rightarrow>
      case x_truncate (ff_methods file) of
        None \<Rightarrow> (SQLITE_IOERR_TRUNCATE, c, file)
      | Some trunc \<Rightarrow>
          (case intercept FTruncate (ff_target file) c of
             (Some _, c) \<Rightarrow> (SQLITE_IOERR_TRUNCATE, c, file)
           | (None, c) \<Rightarrow> (case on_real (trunc size') file of (result, file) \<Rightarrow> (result, c, file))))"

definition io_sync :: "int \<Rightarrow> Controller \<times> 'f FaultFile \<Rightarrow> int \<times> Controller \<times> 'f FaultFile" where
  "io_sync flags st =
     (case st of (c, file) \<Rightarrow>
      case x_sync (ff_methods file) of
        None \<Rightarrow> (SQLITE_IOERR_FSYNC, c, file)
      | Some sync \<Rightarrow>
          (case intercept FSync (ff_target file) c of
             (Some _, c) \<Rightarrow> (SQLITE_IOERR_FSYNC, c, file)
           | (None, c) \<Rightarrow> (case on_real (sync flags) file of (result, file) \<Rightarrow> (result, c, file))))"


section \<open>One rule, one fault\<close>

definition rule_matches :: "FaultRule \<Rightarrow> FaultOperation \<times> FaultTarget \<Rightarrow> bool" where
  "rule_matches rule op \<longleftrightarrow> fr_operation rule = fst op \<and> target_matches (fr_target rule) (snd op)"

definition matches_in :: "FaultRule \<Rightarrow> (FaultOperation \<times> FaultTarget) list \<Rightarrow> nat" where
  "matches_in rule ops = length (filter (rule_matches rule) ops)"

text \<open>The controller's answers to a sequence of operations.\<close>

fun intercept_all :: "(FaultOperation \<times> FaultTarget) list \<Rightarrow> Controller \<Rightarrow> FaultAction option list \<times> Controller" where
  "intercept_all [] c = ([], c)"
| "intercept_all (op # ops) c =
     (case intercept (fst op) (snd op) c of (a, c) \<Rightarrow> (case intercept_all ops c of (as, c) \<Rightarrow> (a # as, c)))"

lemma matches_in_simps [simp]:
  "matches_in rule [] = 0"
  "matches_in rule (op # ops) = (if rule_matches rule op then Suc (matches_in rule ops) else matches_in rule ops)"
  "matches_in rule (ops @ ops') = matches_in rule ops + matches_in rule ops'"
  by (simp_all add: matches_in_def)

lemma unat_saturating_Suc:
  assumes "unat (w :: u64) < unat (v :: u64)"
  shows "unat (saturating_add w 1) = Suc (unat w)"
proof -
  have "unat v < 2 ^ 64" using unsigned_less [of v, where ?'a = nat] by simp
  with assms show ?thesis by (simp add: unat_saturating_add)
qed

text \<open>The three steps of the controller: nothing armed, an operation the rule does not count, one it counts.\<close>

lemma intercept_disarmed:
  "ctl_rule c = None \<Longrightarrow> fst (intercept op tgt c) = None \<and> ctl_rule (snd (intercept op tgt c)) = None
     \<and> fst_injections (ctl_stats (snd (intercept op tgt c))) = fst_injections (ctl_stats c)
     \<and> fst_matching_operations (ctl_stats (snd (intercept op tgt c))) = fst_matching_operations (ctl_stats c)"
  by (cases op) (simp_all add: intercept_def count_operation_def Let_def)

lemma intercept_skips:
  assumes "ctl_rule c = Some rule" "\<not> rule_matches rule (op, tgt)"
  shows "fst (intercept op tgt c) = None" "ctl_rule (snd (intercept op tgt c)) = Some rule"
    "ctl_match_count (snd (intercept op tgt c)) = ctl_match_count c"
    "fst_injections (ctl_stats (snd (intercept op tgt c))) = fst_injections (ctl_stats c)"
    "fst_matching_operations (ctl_stats (snd (intercept op tgt c))) = fst_matching_operations (ctl_stats c)"
  using assms by (cases op; simp add: intercept_def count_operation_def Let_def rule_matches_def)+

lemma intercept_counts:
  assumes "ctl_rule c = Some rule" "rule_matches rule (op, tgt)"
    and "saturating_add (ctl_match_count c) 1 \<noteq> fr_occurrence rule"
  shows "fst (intercept op tgt c) = None" "ctl_rule (snd (intercept op tgt c)) = Some rule"
    "ctl_match_count (snd (intercept op tgt c)) = saturating_add (ctl_match_count c) 1"
    "fst_injections (ctl_stats (snd (intercept op tgt c))) = fst_injections (ctl_stats c)"
    "fst_matching_operations (ctl_stats (snd (intercept op tgt c)))
       = saturating_add (fst_matching_operations (ctl_stats c)) 1"
  using assms by (cases op; simp add: intercept_def count_operation_def Let_def rule_matches_def)+

lemma intercept_fires:
  assumes "ctl_rule c = Some rule" "rule_matches rule (op, tgt)"
    and "saturating_add (ctl_match_count c) 1 = fr_occurrence rule"
  shows "fst (intercept op tgt c) = Some (fr_action rule)" "ctl_rule (snd (intercept op tgt c)) = None"
    "fst_injections (ctl_stats (snd (intercept op tgt c))) = saturating_add (fst_injections (ctl_stats c)) 1"
    "fst_matching_operations (ctl_stats (snd (intercept op tgt c)))
       = saturating_add (fst_matching_operations (ctl_stats c)) 1"
  using assms by (cases op; simp add: intercept_def count_operation_def Let_def rule_matches_def)+

lemma intercept_all_disarmed:
  assumes "ctl_rule c = None"
  shows "fst (intercept_all ops c) = replicate (length ops) None \<and> ctl_rule (snd (intercept_all ops c)) = None
    \<and> fst_injections (ctl_stats (snd (intercept_all ops c))) = fst_injections (ctl_stats c)"
  using assms
proof (induction ops arbitrary: c)
  case Nil
  then show ?case by simp
next
  case (Cons op ops)
  have "ctl_rule (snd (intercept (fst op) (snd op) c)) = None"
    using intercept_disarmed [OF Cons.prems] by simp
  from Cons.IH [OF this] show ?case
    using intercept_disarmed [OF Cons.prems, of "fst op" "snd op"] by (simp add: case_prod_beta)
qed

lemma intercept_all_append:
  "intercept_all (xs @ ys) c =
     (case intercept_all xs c of (as, c) \<Rightarrow> (case intercept_all ys c of (bs, c) \<Rightarrow> (as @ bs, c)))"
  by (induction xs arbitrary: c) (simp_all add: case_prod_beta)

text \<open>While the counter stays below the rule's occurrence, the controller only counts.\<close>

lemma intercept_all_waits:
  assumes "ctl_rule c = Some rule" "unat (ctl_match_count c) + matches_in rule ops < unat (fr_occurrence rule)"
  shows "fst (intercept_all ops c) = replicate (length ops) None
    \<and> ctl_rule (snd (intercept_all ops c)) = Some rule
    \<and> unat (ctl_match_count (snd (intercept_all ops c))) = unat (ctl_match_count c) + matches_in rule ops
    \<and> fst_injections (ctl_stats (snd (intercept_all ops c))) = fst_injections (ctl_stats c)"
  using assms
proof (induction ops arbitrary: c)
  case Nil
  then show ?case by simp
next
  case (Cons op ops)
  obtain o' t where op: "op = (o', t)" by (cases op)
  let ?c = "snd (intercept o' t c)"
  show ?case
  proof (cases "rule_matches rule op")
    case False
    note step = intercept_skips [OF Cons.prems(1) False [unfolded op]]
    have "unat (ctl_match_count ?c) + matches_in rule ops < unat (fr_occurrence rule)"
      using Cons.prems(2) False by (simp add: step)
    from Cons.IH [OF step(2) this] show ?thesis
      using False by (simp add: op step case_prod_beta)
  next
    case True
    have lt: "unat (ctl_match_count c) < unat (fr_occurrence rule)" using Cons.prems(2) by linarith
    note suc = unat_saturating_Suc [OF lt]
    have ne: "saturating_add (ctl_match_count c) 1 \<noteq> fr_occurrence rule"
    proof
      assume "saturating_add (ctl_match_count c) 1 = fr_occurrence rule"
      then have "unat (fr_occurrence rule) = Suc (unat (ctl_match_count c))" using suc by simp
      with Cons.prems(2) True show False by simp
    qed
    note step = intercept_counts [OF Cons.prems(1) True [unfolded op] ne]
    have "unat (ctl_match_count ?c) + matches_in rule ops < unat (fr_occurrence rule)"
      using Cons.prems(2) True by (simp add: step suc)
    from Cons.IH [OF step(2) this] show ?thesis
      using True by (simp add: op step suc case_prod_beta)
  qed
qed

lemma intercept_all_fires:
  assumes "ctl_rule c = Some rule" "rule_matches rule op"
    and "Suc (unat (ctl_match_count c) + matches_in rule before) = unat (fr_occurrence rule)"
  shows "fst (intercept_all (before @ op # after) c)
      = replicate (length before) None @ Some (fr_action rule) # replicate (length after) None
    \<and> ctl_rule (snd (intercept_all (before @ op # after) c)) = None
    \<and> fst_injections (ctl_stats (snd (intercept_all (before @ op # after) c)))
      = saturating_add (fst_injections (ctl_stats c)) 1"
proof -
  let ?c = "snd (intercept_all before c)"
  have lt: "unat (ctl_match_count c) + matches_in rule before < unat (fr_occurrence rule)" using assms(3) by simp
  note w = intercept_all_waits [OF assms(1) lt]
  have "unat (saturating_add (ctl_match_count ?c) 1) = unat (fr_occurrence rule)"
    using unat_saturating_Suc [of "ctl_match_count ?c" "fr_occurrence rule"] w assms(3) by simp
  then have eq: "saturating_add (ctl_match_count ?c) 1 = fr_occurrence rule" by (metis unsigned_word_eqI)
  have m: "rule_matches rule (fst op, snd op)" using assms(2) by simp
  have r: "ctl_rule ?c = Some rule" using w by simp
  note f = intercept_fires [OF r m eq]
  note d = intercept_all_disarmed [OF f(2), of after]
  show ?thesis using w f d by (simp add: intercept_all_append case_prod_beta)
qed


lemma matches_in_take_Suc:
  "i < length ops \<Longrightarrow>
     matches_in rule (take (Suc i) ops) = matches_in rule (take i ops) + (if rule_matches rule (ops ! i) then 1 else 0)"
  by (simp add: take_Suc_conv_app_nth)

lemma matches_in_take_mono: "i \<le> j \<Longrightarrow> matches_in rule (take i ops) \<le> matches_in rule (take j ops)"
proof -
  assume "i \<le> j"
  then have "take j ops = take i ops @ take (j - i) (drop i ops)" by (metis le_add_diff_inverse take_add)
  then show ?thesis by simp
qed

lemma matches_in_take_le: "matches_in rule (take i ops) \<le> matches_in rule ops"
  using matches_in_take_mono [of i "max i (length ops)" rule ops] by simp

lemma nth_match_exists:
  "0 < n \<Longrightarrow> n \<le> matches_in rule ops \<Longrightarrow>
     \<exists>before op after. ops = before @ op # after \<and> rule_matches rule op \<and> Suc (matches_in rule before) = n"
proof (induction ops arbitrary: n)
  case Nil
  then show ?case by simp
next
  case (Cons x ops)
  show ?case
  proof (cases "rule_matches rule x \<and> n = 1")
    case True
    then show ?thesis by (intro exI [of _ "[]"] exI [of _ x] exI [of _ ops]) simp
  next
    case False
    define m where "m = (if rule_matches rule x then n - 1 else n)"
    have "0 < m" "m \<le> matches_in rule ops" using False Cons.prems by (auto simp: m_def split: if_splits)
    from Cons.IH [OF this] obtain before op after where
      "ops = before @ op # after" "rule_matches rule op" "Suc (matches_in rule before) = m" by blast
    then show ?thesis using False Cons.prems
      by (intro exI [of _ "x # before"] exI [of _ op] exI [of _ after]) (auto simp: m_def split: if_splits)
  qed
qed

lemma nth_match_iff:
  assumes "ops = before @ op # after" "rule_matches rule op" "i < length ops"
  shows "(rule_matches rule (ops ! i) \<and> matches_in rule (take (Suc i) ops) = Suc (matches_in rule before))
    \<longleftrightarrow> i = length before"
proof (cases i "length before" rule: linorder_cases)
  case less
  have "matches_in rule (take (Suc i) ops) \<le> matches_in rule (take (length before) ops)"
    using less by (intro matches_in_take_mono) simp
  then show ?thesis using less assms(1) by auto
next
  case equal
  then show ?thesis using assms by (simp add: matches_in_take_Suc)
next
  case greater
  have "matches_in rule (take (Suc (length before)) ops) \<le> matches_in rule (take i ops)"
    using greater by (intro matches_in_take_mono) simp
  moreover have "matches_in rule (take (Suc (length before)) ops) = Suc (matches_in rule before)"
    using assms by simp
  ultimately show ?thesis using greater by (auto simp: matches_in_take_Suc [OF assms(3)])
qed

lemma nth_replicate_one:
  "i < Suc (n + m) \<Longrightarrow> (replicate n None @ Some a # replicate m None) ! i = (if i = n then Some a else None)"
  by (auto simp: nth_append nth_Cons')

text \<open>
  Claim C34. From the moment a rule is armed, the sequence of intercepted operations is failed in at most one
  place: the operation at position i is answered with the rule's action exactly when the rule matches it and
  it is the occurrence-th matching operation since arming; every other operation passes. The rule is disarmed
  by firing, stays armed as long as fewer matching operations were seen, and the number of injections grows
  by one exactly when it fired. This holds for sequences of any length, past the point where the 64-bit
  counters saturate.\<close>

theorem fault_fires_exactly_once:
  assumes "fr_occurrence rule \<noteq> 0"
  shows "length (fst (intercept_all ops (arm rule c))) = length ops
    \<and> (\<forall>i < length ops. fst (intercept_all ops (arm rule c)) ! i =
        (if rule_matches rule (ops ! i) \<and> matches_in rule (take (Suc i) ops) = unat (fr_occurrence rule)
         then Some (fr_action rule) else None))
    \<and> ctl_rule (snd (intercept_all ops (arm rule c)))
        = (if matches_in rule ops < unat (fr_occurrence rule) then Some rule else None)
    \<and> fst_injections (ctl_stats (snd (intercept_all ops (arm rule c))))
        = (if matches_in rule ops < unat (fr_occurrence rule) then fst_injections (ctl_stats c)
           else saturating_add (fst_injections (ctl_stats c)) 1)"
proof -
  let ?n = "unat (fr_occurrence rule)"
  have a: "ctl_rule (arm rule c) = Some rule" "ctl_match_count (arm rule c) = 0" "ctl_stats (arm rule c) = ctl_stats c"
    by (simp_all add: arm_def)
  have pos: "0 < ?n" using assms by (simp add: unat_gt_0)
  show ?thesis
  proof (cases "matches_in rule ops < ?n")
    case True
    have "matches_in rule (take (Suc i) ops) \<noteq> ?n" for i using matches_in_take_le [of rule "Suc i" ops] True by simp
    then show ?thesis using intercept_all_waits [OF a(1)] True a by simp
  next
    case False
    then obtain before op after where
      s: "ops = before @ op # after" and m: "rule_matches rule op" and n: "Suc (matches_in rule before) = ?n"
      using nth_match_exists [OF pos, of rule ops] by auto
    have "Suc (unat (ctl_match_count (arm rule c)) + matches_in rule before) = ?n" using n a by simp
    note f = intercept_all_fires [OF a(1) m this, of after, folded s]
    have "fst (intercept_all ops (arm rule c)) ! i =
        (if rule_matches rule (ops ! i) \<and> matches_in rule (take (Suc i) ops) = ?n
         then Some (fr_action rule) else None)" if "i < length ops" for i
      using nth_match_iff [OF s m that] nth_replicate_one [of i "length before" "length after"] f that s n by auto
    then show ?thesis using f False a by (simp add: s)
  qed
qed

definition sample_rule :: FaultRule where
  "sample_rule = \<lparr>fr_operation = FWrite, fr_target = WriteAheadLog, fr_occurrence = 2, fr_action = PartialWrite 5\<rparr>"

theorem fault_fires_exactly_once_witness:
  "fst (intercept_all [(FWrite, WriteAheadLog), (FSync, WriteAheadLog), (FWrite, MainDatabase), (FWrite, WriteAheadLog),
      (FWrite, WriteAheadLog)] (arm sample_rule controller_new)) ! 3 = Some (PartialWrite 5)"
proof -
  have occ: "fr_occurrence sample_rule \<noteq> 0" by (simp add: sample_rule_def)
  show ?thesis
    using fault_fires_exactly_once [OF occ, of "[(FWrite, WriteAheadLog), (FSync, WriteAheadLog), (FWrite, MainDatabase),
      (FWrite, WriteAheadLog), (FWrite, WriteAheadLog)]" controller_new]
    by (simp add: rule_matches_def target_matches_def sample_rule_def)
qed


section \<open>The wrapped file\<close>

text \<open>The three operations that can be failed, through the wrapper and on the real file.\<close>

datatype file_op = OpWrite "u8 list" int int | OpSync int | OpTruncate int

definition op_kind :: "file_op \<Rightarrow> FaultOperation" where
  "op_kind op = (case op of OpWrite _ _ _ \<Rightarrow> FWrite | OpSync _ \<Rightarrow> FSync | OpTruncate _ \<Rightarrow> FTruncate)"

definition io_op :: "file_op \<Rightarrow> Controller \<times> 'f FaultFile \<Rightarrow> int \<times> Controller \<times> 'f FaultFile" where
  "io_op op = (case op of OpWrite b n off \<Rightarrow> io_write b n off | OpSync f \<Rightarrow> io_sync f | OpTruncate n \<Rightarrow> io_truncate n)"

fun io_ops :: "file_op list \<Rightarrow> Controller \<times> 'f FaultFile \<Rightarrow> int list \<times> Controller \<times> 'f FaultFile" where
  "io_ops [] st = ([], st)"
| "io_ops (op # ops) st = (case io_op op st of (rc, st) \<Rightarrow> (case io_ops ops st of (rcs, st) \<Rightarrow> (rc # rcs, st)))"

definition real_op :: "'f io_methods \<Rightarrow> file_op \<Rightarrow> 'f io" where
  "real_op m op = (case op of
     OpWrite b n off \<Rightarrow> the (x_write m) b n off | OpSync f \<Rightarrow> the (x_sync m) f | OpTruncate n \<Rightarrow> the (x_truncate m) n)"

fun real_ops :: "'f io_methods \<Rightarrow> file_op list \<Rightarrow> 'f \<Rightarrow> int list \<times> 'f" where
  "real_ops m [] real = ([], real)"
| "real_ops m (op # ops) real =
     (case real_op m op real of (rc, real) \<Rightarrow> (case real_ops m ops real of (rcs, real) \<Rightarrow> (rc # rcs, real)))"

text \<open>
  The operation that is failed: its own I/O error on an untouched file, or, for a partial write, the prefix
  written first and the error of that write if it fails itself.
\<close>

definition io_error_of :: "FaultOperation \<Rightarrow> int" where
  "io_error_of k = (case k of FWrite \<Rightarrow> SQLITE_IOERR_WRITE | FSync \<Rightarrow> SQLITE_IOERR_FSYNC | FTruncate \<Rightarrow> SQLITE_IOERR_TRUNCATE)"

definition faulted_op :: "'f io_methods \<Rightarrow> FaultAction \<Rightarrow> file_op \<Rightarrow> 'f io" where
  "faulted_op m action op real =
     (case (op, action) of
        (OpWrite b n off, PartialWrite k) \<Rightarrow>
          (if 0 < n \<and> 0 < k
           then case real_op m (OpWrite b (min n (int k)) off) real of
                  (rc, real) \<Rightarrow> (if rc = SQLITE_OK then SQLITE_IOERR_WRITE else rc, real)
           else (SQLITE_IOERR_WRITE, real))
      | _ \<Rightarrow> (io_error_of (op_kind op), real))"

definition writable_methods :: "'f io_methods \<Rightarrow> bool" where
  "writable_methods m \<longleftrightarrow> x_write m \<noteq> None \<and> x_sync m \<noteq> None \<and> x_truncate m \<noteq> None"

text \<open>A write's length is a C \<^verbatim>\<open>int\<close>.\<close>

definition c_int_length :: "file_op \<Rightarrow> bool" where
  "c_int_length op = (case op of OpWrite _ n _ \<Rightarrow> n < 2 ^ 31 | _ \<Rightarrow> True)"

lemma io_op_exact:
  assumes "writable_methods (ff_methods file)" "c_int_length op"
  shows "io_op op (c, file) =
    (case intercept (op_kind op) (ff_target file) c of
       (a, c) \<Rightarrow> (case (case a of None \<Rightarrow> real_op (ff_methods file) op (ff_real file)
                             | Some action \<Rightarrow> faulted_op (ff_methods file) action op (ff_real file)) of
         (rc, real) \<Rightarrow> (rc, c, file\<lparr>ff_real := real\<rparr>)))"
proof (cases op)
  case (OpWrite b n off)
  from assms(1) obtain w where w: "x_write (ff_methods file) = Some w" by (auto simp: writable_methods_def)
  have n: "n < 2 ^ 31" using assms(2) OpWrite by (simp add: c_int_length_def)
  have len: "int (min (nat n) k) = min n (int k)" if "0 < n" for k using that by auto
  show ?thesis
    using n OpWrite
    by (auto simp: io_op_def io_write_def w op_kind_def real_op_def faulted_op_def io_error_of_def on_real_def len
        case_prod_beta Let_def min_def split: option.splits FaultAction.splits prod.splits)
next
  case (OpSync f)
  from assms(1) obtain s where "x_sync (ff_methods file) = Some s" by (auto simp: writable_methods_def)
  then show ?thesis using OpSync
    by (auto simp: io_op_def io_sync_def op_kind_def real_op_def faulted_op_def io_error_of_def on_real_def case_prod_beta
        split: option.splits FaultAction.splits prod.splits)
next
  case (OpTruncate n)
  from assms(1) obtain t where "x_truncate (ff_methods file) = Some t" by (auto simp: writable_methods_def)
  then show ?thesis using OpTruncate
    by (auto simp: io_op_def io_truncate_def op_kind_def real_op_def faulted_op_def io_error_of_def on_real_def case_prod_beta
        split: option.splits FaultAction.splits prod.splits)
qed


text \<open>Once no rule is armed, and before the armed rule's occurrence, the wrapper is the real file.\<close>

definition op_stream :: "FaultTarget \<Rightarrow> file_op list \<Rightarrow> (FaultOperation \<times> FaultTarget) list" where
  "op_stream tgt ops = map (\<lambda>op. (op_kind op, tgt)) ops"

lemma io_ops_append:
  "io_ops (xs @ ys) st =
     (case io_ops xs st of (as, st) \<Rightarrow> (case io_ops ys st of (bs, st) \<Rightarrow> (as @ bs, st)))"
  by (induction xs arbitrary: st) (simp_all add: case_prod_beta)

lemma io_ops_transparent:
  assumes "writable_methods (ff_methods file)" "list_all c_int_length ops"
    and "fst (intercept_all (op_stream (ff_target file) ops) c) = replicate (length ops) None"
  shows "io_ops ops (c, file) =
    (case real_ops (ff_methods file) ops (ff_real file) of
       (rcs, real) \<Rightarrow> (rcs, snd (intercept_all (op_stream (ff_target file) ops) c), file\<lparr>ff_real := real\<rparr>))"
  using assms
proof (induction ops arbitrary: c "file")
  case Nil
  then show ?case by (simp add: op_stream_def)
next
  case (Cons op ops)
  have len: "c_int_length op" "list_all c_int_length ops" using Cons.prems(2) by simp_all
  let ?c = "snd (intercept (op_kind op) (ff_target file) c)"
  let ?file = "file\<lparr>ff_real := snd (real_op (ff_methods file) op (ff_real file))\<rparr>"
  have pass: "fst (intercept (op_kind op) (ff_target file) c) = None"
    and rest: "fst (intercept_all (op_stream (ff_target ?file) ops) ?c) = replicate (length ops) None"
    using Cons.prems(3) by (simp_all add: op_stream_def case_prod_beta)
  have w: "writable_methods (ff_methods ?file)" using Cons.prems(1) by simp
  show ?case
    using Cons.IH [OF w len(2) rest]
    by (simp add: io_op_exact [OF Cons.prems(1) len(1)] pass case_prod_beta op_stream_def)
qed

text \<open>
  Claim C35. A run of writes, syncs and truncations through the wrapped file with a freshly armed rule, in
  which some operation is the rule's occurrence-th match: the operations before it and after it are those of
  the real file, results and effects; the selected one leaves the real file untouched and returns the I/O
  error of its kind, or, for a partial-write rule, writes exactly the shorter of the two lengths and then
  fails; and the adapter reports those codes as failed write, sync and truncation.\<close>

theorem fault_strikes_one_operation:
  assumes fmeth: "writable_methods (ff_methods f)" "list_all c_int_length (before @ op # after)"
    and rule: "fault_rule_new kind tgt occurrence action = Inr rule"
    and pick: "rule_matches rule (op_kind op, ff_target f)"
      "Suc (matches_in rule (op_stream (ff_target f) before)) = unat occurrence"
    and run_before: "real_ops (ff_methods f) before (ff_real f) = (rcs1, real1)"
    and fault: "faulted_op (ff_methods f) action op real1 = (rc, real2)"
    and run_after: "real_ops (ff_methods f) after real2 = (rcs2, real3)"
  shows "\<exists>c'. io_ops (before @ op # after) (arm rule c, f) = (rcs1 @ rc # rcs2, c', f\<lparr>ff_real := real3\<rparr>)
      \<and> ctl_rule c' = None
      \<and> fst_injections (ctl_stats c') = saturating_add (fst_injections (ctl_stats c)) 1
    \<and> err_code (map_storage_error (SqliteFailure failure (io_error_of kind))) =
        (case kind of FWrite \<Rightarrow> StorageWriteFailed | FSync \<Rightarrow> StorageSyncFailed | FTruncate \<Rightarrow> StorageTruncateFailed)"
proof -
  let ?c0 = "arm rule c" and ?tgt = "ff_target f"
  let ?c1 = "snd (intercept_all (op_stream ?tgt before) ?c0)"
  let ?c2 = "snd (intercept (op_kind op) ?tgt ?c1)"
  let ?c3 = "snd (intercept_all (op_stream ?tgt after) ?c2)"
  have r: "fr_occurrence rule = occurrence" "fr_action rule = action" "fr_operation rule = kind" 
    using rule by (auto simp: fault_rule_new_def split: if_splits)
  have a: "ctl_rule ?c0 = Some rule" "ctl_match_count ?c0 = 0" "ctl_stats ?c0 = ctl_stats c" by (simp_all add: arm_def)
  have m: "Suc (unat (ctl_match_count ?c0) + matches_in rule (op_stream ?tgt before)) = unat (fr_occurrence rule)"
    using pick(2) a r by simp
  note fires = intercept_all_fires [OF a(1) pick(1) m, of "op_stream ?tgt after"]
  have len: "length (op_stream ?tgt xs) = length xs" for xs by (simp add: op_stream_def)
  have ab: "fst (intercept_all (op_stream ?tgt before) ?c0) = replicate (length before) None"
    using intercept_all_waits [OF a(1), of "op_stream ?tgt before"] m by (simp add: len)
  have fst_all: "fst (intercept_all (op_stream ?tgt before) ?c0) @ fst (intercept (op_kind op) ?tgt ?c1)
      # fst (intercept_all (op_stream ?tgt after) ?c2)
      = replicate (length before) None @ Some action # replicate (length after) None"
    using fires by (simp add: intercept_all_append case_prod_beta len r)
  then have hit: "fst (intercept (op_kind op) ?tgt ?c1) = Some action"
    and aft: "fst (intercept_all (op_stream ?tgt after) ?c2) = replicate (length after) None"
    by (simp_all add: ab)
  have c3: "?c3 = snd (intercept_all (op_stream ?tgt before @ (op_kind op, ?tgt) # op_stream ?tgt after) ?c0)"
    by (simp add: intercept_all_append case_prod_beta)
  have lens: "list_all c_int_length before" "c_int_length op" "list_all c_int_length after" using fmeth(2) by simp_all
  have w: "writable_methods (ff_methods (f\<lparr>ff_real := x\<rparr>))" for x using fmeth(1) by simp
  have "io_ops (before @ op # after) (?c0, f) = (rcs1 @ rc # rcs2, ?c3, f\<lparr>ff_real := real3\<rparr>)"
    using io_ops_transparent [OF fmeth(1) lens(1) ab] io_op_exact [OF w [of real1] lens(2), of ?c1]
      io_ops_transparent [OF w [of real2] lens(3), of ?c2] run_before fault run_after hit aft
    by (simp add: io_ops_append case_prod_beta)
  moreover have "ctl_rule ?c3 = None"
    "fst_injections (ctl_stats ?c3) = saturating_add (fst_injections (ctl_stats c)) 1"
    using fires a unfolding c3 by simp_all
  moreover have "err_code (map_storage_error (SqliteFailure failure (io_error_of kind))) =
        (case kind of FWrite \<Rightarrow> StorageWriteFailed | FSync \<Rightarrow> StorageSyncFailed | FTruncate \<Rightarrow> StorageTruncateFailed)"
    by (cases kind) (simp_all add: map_storage_error_def io_error_of_def SQLITE_IOERR_WRITE_def
        SQLITE_IOERR_FSYNC_def SQLITE_IOERR_TRUNCATE_def)
  ultimately show ?thesis by blast
qed


text \<open>A file of bytes that appends what it is given, for the example.\<close>

definition byte_file :: "u8 list io_methods" where
  "byte_file = \<lparr>x_version = 1, x_close = None, x_read = None,
     x_write = Some (\<lambda>b n off bytes. (SQLITE_OK, bytes @ take (nat n) b)),
     x_truncate = Some (\<lambda>n bytes. (SQLITE_OK, take (nat n) bytes)),
     x_sync = Some (\<lambda>flags bytes. (SQLITE_OK, bytes)),
     x_file_size = None, x_lock = None, x_unlock = None, x_check_reserved_lock = None, x_file_control = None,
     x_sector_size = None, x_device_characteristics = None, x_shm_map = None, x_shm_lock = None,
     x_shm_barrier = None, x_shm_unmap = None, x_fetch = None, x_unfetch = None\<rparr>"

definition sample_file :: "u8 list FaultFile" where
  "sample_file = \<lparr>ff_target = WriteAheadLog, ff_version = Some 1, ff_real = [], ff_methods = byte_file\<rparr>"

theorem fault_strikes_one_operation_witness:
  "\<exists>c'. io_ops ([OpWrite [1, 2, 3] 3 0, OpSync 2] @ OpWrite [4, 5, 6, 7, 8, 9, 10] 7 3 # [OpTruncate 7, OpSync 2])
      (arm sample_rule controller_new, sample_file)
      = ([0, 0] @ 778 # [0, 0], c', sample_file\<lparr>ff_real := [1, 2, 3, 4, 5, 6, 7]\<rparr>)
      \<and> ctl_rule c' = None
      \<and> fst_injections (ctl_stats c') = saturating_add (fst_injections (ctl_stats controller_new)) 1
    \<and> err_code (map_storage_error (SqliteFailure FReadOnly (io_error_of FWrite))) =
        (case FWrite of FWrite \<Rightarrow> StorageWriteFailed | FSync \<Rightarrow> StorageSyncFailed | FTruncate \<Rightarrow> StorageTruncateFailed)"
  by (rule fault_strikes_one_operation [where before = "[OpWrite [1, 2, 3] 3 0, OpSync 2]"
        and f = sample_file and rule = sample_rule and tgt = WriteAheadLog and occurrence = 2
        and action = "PartialWrite 5" and ?real1.0 = "[1, 2, 3]" and ?real2.0 = "[1, 2, 3, 4, 5, 6, 7, 8]"])
    (simp_all add: sample_file_def byte_file_def sample_rule_def writable_methods_def c_int_length_def
      fault_rule_new_def rule_matches_def target_matches_def op_kind_def op_stream_def faulted_op_def real_op_def
      SQLITE_OK_def SQLITE_IOERR_WRITE_def)

end
