(* ===== verification/Write_Queue.thy ===== *)
theory Write_Queue
  imports Open_Policy
begin

text \<open>
  The bounded single-writer queue of \<^verbatim>\<open>csgdb/src/pool.rs\<close>. Every method holds the mutex except
  while it waits on a condition variable, so a method is a sequence of atomic sections: \<open>push_begin\<close> and
  \<open>push_wake\<close>, \<open>pop_begin\<close> and \<open>collect_wake\<close>, \<open>close_queue\<close>. A section either returns or blocks; clock
  readings (whether a wait timed out, how much time has passed, whether the deadline is over) are
  arguments, and a wake-up may be spurious. The step relation interleaves the sections of any
  number of submitting threads with those of the writer thread.
\<close>

section \<open>Jobs and queue\<close>

datatype ('x, 'g) WriteJob = Exclusive 'x bool | Groupable 'g

datatype ('x, 'g) DequeuedWrite = DExclusive 'x bool | DGroup "'g list"

datatype WriteBackpressure = Wait | Reject | Timeout duration

record ('x, 'g) WriteQueueState =
  wq_jobs :: "('x, 'g) WriteJob list"
  wq_accepting :: bool

definition write_queue_new :: "('x, 'g) WriteQueueState" where
  "write_queue_new = \<lparr>wq_jobs = [], wq_accepting = True\<rparr>"

definition write_queue_full :: Error where
  "write_queue_full = Error WriteQueueFull ''write queue has reached its configured capacity''"

definition write_queue_timeout :: Error where
  "write_queue_timeout = Error WriteQueueTimeout ''timed out waiting for write queue capacity''"

definition connection_manager_closed :: Error where
  "connection_manager_closed = Error ConnectionManagerClosed ''database connection manager is closed''"

section \<open>Submitting\<close>

text \<open>The outcome \<^const>\<open>None\<close> means that the thread waits on \<^verbatim>\<open>not_full\<close>.\<close>

definition push_finish ::
  "('x, 'g) WriteJob \<Rightarrow> ('x, 'g) WriteQueueState \<Rightarrow> unit result option \<times> ('x, 'g) WriteQueueState" where
  "push_finish job st =
     (if \<not> wq_accepting st then (Some (Inl connection_manager_closed), st)
      else (Some (Inr ()), st\<lparr>wq_jobs := wq_jobs st @ [job]\<rparr>))"

definition push_begin ::
  "nat \<Rightarrow> ('x, 'g) WriteJob \<Rightarrow> WriteBackpressure \<Rightarrow> ('x, 'g) WriteQueueState
     \<Rightarrow> unit result option \<times> ('x, 'g) WriteQueueState" where
  "push_begin capacity job policy st =
     (case policy of
        Wait \<Rightarrow>
          if wq_accepting st \<and> length (wq_jobs st) \<ge> capacity then (None, st) else push_finish job st
      | Reject \<Rightarrow>
          if length (wq_jobs st) \<ge> capacity then (Some (Inl write_queue_full), st) else push_finish job st
      | Timeout _ \<Rightarrow>
          if wq_accepting st \<and> length (wq_jobs st) \<ge> capacity then (None, st) else push_finish job st)"

definition push_wake ::
  "nat \<Rightarrow> ('x, 'g) WriteJob \<Rightarrow> WriteBackpressure \<Rightarrow> bool \<Rightarrow> duration \<Rightarrow> ('x, 'g) WriteQueueState
     \<Rightarrow> unit result option \<times> ('x, 'g) WriteQueueState" where
  "push_wake capacity job policy timed_out elapsed st =
     (case policy of
        Timeout timeout \<Rightarrow>
          if length (wq_jobs st) < capacity then push_finish job st
          else if timed_out \<or> elapsed \<ge> timeout then (Some (Inl write_queue_timeout), st)
          else if wq_accepting st then (None, st)
          else push_finish job st
      | _ \<Rightarrow> push_begin capacity job policy st)"

section \<open>Taking work\<close>

datatype ('x, 'g) pop_result =
    PopReturn "('x, 'g) DequeuedWrite option"
  | PopWaiting
  | PopCollecting "'g list"

text \<open>
  The collection loop after a first groupable job: take adjacent groupable jobs up to the limit; stop
  at an exclusive job, at a closed queue, or when the deadline has passed; otherwise wait for more.
\<close>

fun collect ::
  "nat \<Rightarrow> bool \<Rightarrow> 'g list \<Rightarrow> ('x, 'g) WriteJob list \<Rightarrow> bool
     \<Rightarrow> ('x, 'g) pop_result \<times> ('x, 'g) WriteJob list" where
  "collect max_jobs expired acc (Groupable g # jobs) accepting =
     (if length acc < max_jobs then collect max_jobs expired (acc @ [g]) jobs accepting
      else (PopReturn (Some (DGroup acc)), Groupable g # jobs))"
| "collect max_jobs expired acc jobs accepting =
     (if length acc < max_jobs \<and> jobs = [] \<and> accepting \<and> \<not> expired then (PopCollecting acc, jobs)
      else (PopReturn (Some (DGroup acc)), jobs))"

definition pop_begin ::
  "nat \<Rightarrow> bool \<Rightarrow> ('x, 'g) WriteQueueState \<Rightarrow> ('x, 'g) pop_result \<times> ('x, 'g) WriteQueueState" where
  "pop_begin max_jobs expired st =
     (case wq_jobs st of
        [] \<Rightarrow> if \<not> wq_accepting st then (PopReturn None, st) else (PopWaiting, st)
      | Exclusive operation counts_as_write # jobs \<Rightarrow>
          (PopReturn (Some (DExclusive operation counts_as_write)), st\<lparr>wq_jobs := jobs\<rparr>)
      | Groupable g # jobs \<Rightarrow>
          (case collect max_jobs expired [g] jobs (wq_accepting st) of
             (r, jobs') \<Rightarrow> (r, st\<lparr>wq_jobs := jobs'\<rparr>)))"

definition collect_wake ::
  "nat \<Rightarrow> bool \<Rightarrow> bool \<Rightarrow> 'g list \<Rightarrow> ('x, 'g) WriteQueueState \<Rightarrow> ('x, 'g) pop_result \<times> ('x, 'g) WriteQueueState" where
  "collect_wake max_jobs timed_out expired acc st =
     (if timed_out \<and> wq_jobs st = [] then (PopReturn (Some (DGroup acc)), st)
      else (case collect max_jobs expired acc (wq_jobs st) (wq_accepting st) of
              (r, jobs') \<Rightarrow> (r, st\<lparr>wq_jobs := jobs'\<rparr>)))"

definition close_queue :: "('x, 'g) WriteQueueState \<Rightarrow> ('x, 'g) WriteQueueState" where
  "close_queue st = st\<lparr>wq_accepting := False\<rparr>"

section \<open>All interleavings\<close>

datatype 'g writer_phase = WIdle | WWaiting | WCollecting "'g list" | WStopped

record ('x, 'g) queue_system =
  qs_queue :: "('x, 'g) WriteQueueState"
  qs_writer :: "'g writer_phase"
  qs_pushers :: "(('x, 'g) WriteJob \<times> WriteBackpressure) list"
  qs_accepted :: "('x, 'g) WriteJob list"
  qs_delivered :: "('x, 'g) DequeuedWrite list"

definition after_push ::
  "('x, 'g) WriteJob \<Rightarrow> WriteBackpressure \<Rightarrow> unit result option \<times> ('x, 'g) WriteQueueState
     \<Rightarrow> ('x, 'g) queue_system \<Rightarrow> ('x, 'g) queue_system" where
  "after_push job policy rq s =
     (case rq of
        (None, q) \<Rightarrow> s\<lparr>qs_queue := q, qs_pushers := qs_pushers s @ [(job, policy)]\<rparr>
      | (Some (Inl _), q) \<Rightarrow> s\<lparr>qs_queue := q\<rparr>
      | (Some (Inr _), q) \<Rightarrow> s\<lparr>qs_queue := q, qs_accepted := qs_accepted s @ [job]\<rparr>)"

definition after_pop ::
  "('x, 'g) pop_result \<times> ('x, 'g) WriteQueueState \<Rightarrow> ('x, 'g) queue_system \<Rightarrow> ('x, 'g) queue_system" where
  "after_pop rq s =
     (case rq of
        (PopReturn (Some d), q) \<Rightarrow> s\<lparr>qs_queue := q, qs_writer := WIdle, qs_delivered := qs_delivered s @ [d]\<rparr>
      | (PopReturn None, q) \<Rightarrow> s\<lparr>qs_queue := q, qs_writer := WStopped\<rparr>
      | (PopWaiting, q) \<Rightarrow> s\<lparr>qs_queue := q, qs_writer := WWaiting\<rparr>
      | (PopCollecting acc, q) \<Rightarrow> s\<lparr>qs_queue := q, qs_writer := WCollecting acc\<rparr>)"

inductive queue_step :: "nat \<Rightarrow> nat \<Rightarrow> ('x, 'g) queue_system \<Rightarrow> ('x, 'g) queue_system \<Rightarrow> bool"
  for capacity max_jobs where
  submit: "queue_step capacity max_jobs s
     (after_push job policy (push_begin capacity job policy (qs_queue s)) s)"
| wake_submitter: "qs_pushers s = before @ (job, policy) # behind \<Longrightarrow>
   queue_step capacity max_jobs s
     (after_push job policy (push_wake capacity job policy timed_out elapsed (qs_queue s))
        (s\<lparr>qs_pushers := before @ behind\<rparr>))"
| pop: "qs_writer s \<in> {WIdle, WWaiting} \<Longrightarrow>
   queue_step capacity max_jobs s (after_pop (pop_begin max_jobs expired (qs_queue s)) s)"
| wake_collector: "qs_writer s = WCollecting acc \<Longrightarrow>
   queue_step capacity max_jobs s (after_pop (collect_wake max_jobs timed_out expired acc (qs_queue s)) s)"
| shut: "queue_step capacity max_jobs s (s\<lparr>qs_queue := close_queue (qs_queue s)\<rparr>)"

inductive_cases queue_stepE: "queue_step capacity max_jobs s t"

definition queue_start :: "('x, 'g) queue_system \<Rightarrow> bool" where
  "queue_start s \<longleftrightarrow> s = \<lparr>qs_queue = write_queue_new, qs_writer = WIdle, qs_pushers = [],
     qs_accepted = [], qs_delivered = []\<rparr>"

section \<open>The invariant\<close>

fun jobs_of :: "('x, 'g) DequeuedWrite \<Rightarrow> ('x, 'g) WriteJob list" where
  "jobs_of (DExclusive x c) = [Exclusive x c]"
| "jobs_of (DGroup gs) = map Groupable gs"

fun in_hand :: "'g writer_phase \<Rightarrow> ('x, 'g) WriteJob list" where
  "in_hand (WCollecting gs) = map Groupable gs"
| "in_hand _ = []"

fun group_ok :: "nat \<Rightarrow> ('x, 'g) DequeuedWrite \<Rightarrow> bool" where
  "group_ok m (DGroup gs) = (gs \<noteq> [] \<and> length gs \<le> m)"
| "group_ok m _ = True"

definition queue_inv :: "nat \<Rightarrow> nat \<Rightarrow> ('x, 'g) queue_system \<Rightarrow> bool" where
  "queue_inv capacity max_jobs s \<longleftrightarrow>
     length (wq_jobs (qs_queue s)) \<le> capacity \<and>
     qs_accepted s = concat (map jobs_of (qs_delivered s)) @ in_hand (qs_writer s) @ wq_jobs (qs_queue s) \<and>
     (\<forall>d \<in> set (qs_delivered s). group_ok max_jobs d) \<and>
     (\<forall>acc. qs_writer s = WCollecting acc \<longrightarrow> acc \<noteq> [] \<and> length acc \<le> max_jobs) \<and>
     (qs_writer s = WStopped \<longrightarrow> \<not> wq_accepting (qs_queue s) \<and> wq_jobs (qs_queue s) = [])"

text \<open>What a section returns, without the bookkeeping around it.\<close>

lemma push_finish_cases:
  "push_finish job st =
     (Some (if wq_accepting st then Inr () else Inl connection_manager_closed),
      if wq_accepting st then st\<lparr>wq_jobs := wq_jobs st @ [job]\<rparr> else st)"
  by (simp add: push_finish_def)

definition push_sound ::
  "nat \<Rightarrow> ('x, 'g) WriteJob \<Rightarrow> ('x, 'g) WriteQueueState \<Rightarrow> unit result option \<times> ('x, 'g) WriteQueueState \<Rightarrow> bool" where
  "push_sound capacity job st rq \<longleftrightarrow>
     (case rq of
        (Some (Inr _), q) \<Rightarrow> wq_accepting st \<and> length (wq_jobs st) < capacity \<and> q = st\<lparr>wq_jobs := wq_jobs st @ [job]\<rparr>
      | (_, q) \<Rightarrow> q = st)"

lemma push_begin_sound: "push_sound capacity job st (push_begin capacity job policy st)"
  by (cases policy) (auto simp: push_sound_def push_begin_def push_finish_cases)

lemma push_wake_sound: "push_sound capacity job st (push_wake capacity job policy timed_out elapsed st)"
  using push_begin_sound [of capacity job st policy]
  by (cases policy) (auto simp: push_wake_def push_sound_def push_finish_cases)

fun taken :: "('x, 'g) pop_result \<Rightarrow> ('x, 'g) WriteJob list" where
  "taken (PopReturn (Some d)) = jobs_of d"
| "taken (PopCollecting acc) = map Groupable acc"
| "taken _ = []"

definition pop_sound ::
  "nat \<Rightarrow> 'g list \<Rightarrow> ('x, 'g) WriteJob list \<Rightarrow> ('x, 'g) pop_result \<times> ('x, 'g) WriteJob list \<Rightarrow> bool" where
  "pop_sound max_jobs acc jobs rj \<longleftrightarrow>
     map Groupable acc @ jobs = taken (fst rj) @ snd rj \<and>
     (case fst rj of
        PopReturn (Some d) \<Rightarrow> group_ok max_jobs d
      | PopCollecting gs \<Rightarrow> gs \<noteq> [] \<and> length gs \<le> max_jobs
      | _ \<Rightarrow> False)"

lemma collect_sound:
  assumes "acc \<noteq> []" "length acc \<le> max_jobs"
  shows "pop_sound max_jobs acc jobs (collect max_jobs expired acc jobs accepting)"
  using assms
proof (induction max_jobs expired acc jobs accepting rule: collect.induct)
  case (1 max_jobs expired acc g jobs accepting)
  then show ?case by (simp add: pop_sound_def)
qed (simp_all add: pop_sound_def)

lemma after_push_inv:
  assumes "queue_inv capacity max_jobs s" "push_sound capacity job (qs_queue s) rq"
  shows "queue_inv capacity max_jobs (after_push job policy rq (s\<lparr>qs_pushers := ps\<rparr>))"
proof -
  obtain r q where "rq = (r, q)" by (cases rq)
  then show ?thesis
    using assms
    by (cases r; cases "the r") (auto simp: queue_inv_def push_sound_def after_push_def)
qed

lemma after_pop_inv:
  assumes "queue_inv capacity max_jobs s"
    and "pop_sound max_jobs acc (wq_jobs (qs_queue s)) (r, jobs)" "in_hand (qs_writer s) @ wq_jobs (qs_queue s) = map Groupable acc @ wq_jobs (qs_queue s)"
    and "length jobs \<le> length (wq_jobs (qs_queue s))"
  shows "queue_inv capacity max_jobs (after_pop (r, (qs_queue s)\<lparr>wq_jobs := jobs\<rparr>) s)"
proof (cases r)
  case (PopReturn d)
  then show ?thesis
    using assms by (cases d) (auto simp: queue_inv_def pop_sound_def after_pop_def)
next
  case PopWaiting
  then show ?thesis using assms(2) by (simp add: pop_sound_def)
next
  case (PopCollecting gs)
  then show ?thesis
    using assms by (auto simp: queue_inv_def pop_sound_def after_pop_def)
qed

lemma pop_sound_length:
  "pop_sound max_jobs acc jobs (r, jobs') \<Longrightarrow> length acc \<le> length (taken r) \<Longrightarrow> length jobs' \<le> length jobs"
proof -
  assume "pop_sound max_jobs acc jobs (r, jobs')" "length acc \<le> length (taken r)"
  moreover from this have "length (map Groupable acc @ jobs) = length (taken r @ jobs')"
    by (simp add: pop_sound_def)
  ultimately show ?thesis by simp
qed

lemma collect_taken: "length acc \<le> length (taken (fst (collect max_jobs expired acc jobs accepting)))"
  by (induction max_jobs expired acc jobs accepting rule: collect.induct) auto

lemma collect_inv:
  assumes "queue_inv capacity max_jobs s" "in_hand (qs_writer s) @ wq_jobs (qs_queue s) = map Groupable acc @ wq_jobs (qs_queue s)"
    and "acc \<noteq> []" "length acc \<le> max_jobs"
    and "collect max_jobs expired acc (wq_jobs (qs_queue s)) a = (r, jobs)"
  shows "queue_inv capacity max_jobs (after_pop (r, (qs_queue s)\<lparr>wq_jobs := jobs\<rparr>) s)"
proof -
  have sound: "pop_sound max_jobs acc (wq_jobs (qs_queue s)) (r, jobs)"
    using collect_sound [OF assms(3,4), of "wq_jobs (qs_queue s)" expired a] assms(5) by simp
  have "length acc \<le> length (taken r)"
    using collect_taken [of acc max_jobs expired "wq_jobs (qs_queue s)" a] assms(5) by simp
  then show ?thesis
    by (intro after_pop_inv [OF assms(1) sound assms(2)] pop_sound_length [OF sound])
qed

lemma pop_begin_inv:
  assumes inv: "queue_inv capacity max_jobs s" and "1 \<le> max_jobs" "qs_writer s \<in> {WIdle, WWaiting}"
  shows "queue_inv capacity max_jobs (after_pop (pop_begin max_jobs expired (qs_queue s)) s)"
proof (cases "wq_jobs (qs_queue s)")
  case Nil
  then show ?thesis using assms by (auto simp: queue_inv_def pop_begin_def after_pop_def)
next
  case (Cons j js)
  show ?thesis
  proof (cases j)
    case (Exclusive x c)
    then show ?thesis using Cons assms by (auto simp: queue_inv_def pop_begin_def after_pop_def)
  next
    case (Groupable g)
    obtain r jobs where c: "collect max_jobs expired [g] js (wq_accepting (qs_queue s)) = (r, jobs)" by fastforce
    have sound: "pop_sound max_jobs [g] js (r, jobs)"
      using collect_sound [of "[g]" max_jobs js expired "wq_accepting (qs_queue s)"] c assms(2) by simp
    then have "pop_sound max_jobs [] (wq_jobs (qs_queue s)) (r, jobs)"
      by (simp add: pop_sound_def Cons Groupable)
    moreover have "length jobs \<le> length js"
      using pop_sound_length [OF sound] collect_taken [of "[g]" max_jobs expired js "wq_accepting (qs_queue s)"] c
      by simp
    ultimately show ?thesis
      using after_pop_inv [OF inv, of "[]" r jobs] assms(3) c
      by (auto simp: pop_begin_def Cons Groupable)
  qed
qed

lemma queue_step_inv:
  assumes "queue_step capacity max_jobs s t" "queue_inv capacity max_jobs s" "1 \<le> max_jobs"
  shows "queue_inv capacity max_jobs t"
  using assms(1)
proof (cases rule: queue_step.cases)
  case (submit job policy)
  then show ?thesis
    using after_push_inv [OF assms(2) push_begin_sound, of job policy policy "qs_pushers s"] by simp
next
  case (wake_submitter before job policy behind timed_out elapsed)
  then show ?thesis
    using after_push_inv [OF assms(2) push_wake_sound] by simp
next
  case (pop expired)
  then show ?thesis using pop_begin_inv [OF assms(2,3)] by simp
next
  case (wake_collector acc timed_out expired)
  obtain r jobs where c: "collect max_jobs expired acc (wq_jobs (qs_queue s)) (wq_accepting (qs_queue s)) = (r, jobs)"
    by fastforce
  have acc: "acc \<noteq> []" "length acc \<le> max_jobs" "in_hand (qs_writer s) @ wq_jobs (qs_queue s) = map Groupable acc @ wq_jobs (qs_queue s)"
    using assms(2) wake_collector by (auto simp: queue_inv_def)
  show ?thesis
  proof (cases "timed_out \<and> wq_jobs (qs_queue s) = []")
    case True
    then show ?thesis
      using wake_collector acc assms(2) by (auto simp: collect_wake_def after_pop_def queue_inv_def)
  next
    case False
    then show ?thesis
      using wake_collector collect_inv [OF assms(2) acc(3,1,2) c] c by (auto simp: collect_wake_def)
  qed
next
  case shut
  then show ?thesis using assms(2) by (auto simp: queue_inv_def close_queue_def)
qed

lemma queue_start_inv: "queue_start s \<Longrightarrow> queue_inv capacity max_jobs s"
  by (simp add: queue_start_def queue_inv_def write_queue_new_def)

interpretation wq: invariant_machine queue_start "queue_step capacity (Suc m)" "queue_inv capacity (Suc m)"
  for capacity m
  by unfold_locales (auto intro: queue_start_inv queue_step_inv)

section \<open>After closing\<close>

definition closed_with :: "('x, 'g) WriteJob list \<Rightarrow> ('x, 'g) queue_system \<Rightarrow> bool" where
  "closed_with jobs s \<longleftrightarrow> \<not> wq_accepting (qs_queue s) \<and> qs_accepted s = jobs"

lemma push_closed:
  assumes "push_sound capacity job q (r, q')" "\<not> wq_accepting q"
  shows "q' = q \<and> (\<forall>u. r \<noteq> Some (Inr u))"
  using assms by (cases r; cases "the r") (auto simp: push_sound_def)

lemma after_push_closed:
  assumes "closed_with jobs s" "push_sound capacity job (qs_queue s) rq"
  shows "closed_with jobs (after_push job policy rq (s\<lparr>qs_pushers := ps\<rparr>))"
proof -
  obtain r q where rq: "rq = (r, q)" by (cases rq)
  have "q = qs_queue s" "\<forall>u. r \<noteq> Some (Inr u)"
    using push_closed [OF assms(2) [unfolded rq]] assms(1) by (auto simp: closed_with_def)
  then show ?thesis
    using assms(1) by (cases r; cases "the r") (auto simp: rq closed_with_def after_push_def)
qed

lemma pop_keeps_closed:
  "closed_with jobs s \<Longrightarrow> closed_with jobs (after_pop (pop_begin m e (qs_queue s)) s)"
  "closed_with jobs s \<Longrightarrow> closed_with jobs (after_pop (collect_wake m d e acc (qs_queue s)) s)"
  by (auto simp: closed_with_def after_pop_def pop_begin_def collect_wake_def
      split: list.splits WriteJob.splits prod.splits pop_result.splits option.splits)

lemma queue_step_closed:
  assumes "queue_step capacity max_jobs s t" "closed_with jobs s"
  shows "closed_with jobs t"
  using assms(1)
proof (cases rule: queue_step.cases)
  case (submit job policy)
  then show ?thesis
    using after_push_closed [OF assms(2) push_begin_sound, where ps = "qs_pushers s"] by simp
next
  case (wake_submitter before job policy behind timed_out elapsed)
  then show ?thesis using after_push_closed [OF assms(2) push_wake_sound] by simp
next
  case (pop expired)
  then show ?thesis using pop_keeps_closed(1) [OF assms(2)] by simp
next
  case (wake_collector acc timed_out expired)
  then show ?thesis using pop_keeps_closed(2) [OF assms(2)] by simp
next
  case shut
  then show ?thesis using assms(2) by (simp add: closed_with_def close_queue_def)
qed

interpretation closed: invariant_machine "closed_with jobs" "queue_step capacity m" "closed_with jobs"
  for jobs capacity m
  by unfold_locales (auto intro: queue_step_closed)

section \<open>Properties\<close>

text \<open>
  Claim C19. The writer queue is bounded, loses nothing and keeps submission order. In every state
  reachable by any interleaving of submitters, spurious wake-ups, the writer and shutdown: at most
  \<open>capacity\<close> jobs wait; the jobs accepted so far are, in order and without duplication, those handed to the
  writer, those it is collecting and those waiting (so a group is a run of adjacent
  submissions and never crosses an exclusive job); and every group handed out has between 1 and
  \<open>max_jobs\<close> members.
\<close>

theorem queue_bounded_fifo:
  assumes "queue_start s0" "(queue_step capacity max_jobs)\<^sup>*\<^sup>* s0 s" "1 \<le> max_jobs"
  shows "length (wq_jobs (qs_queue s)) \<le> capacity \<and>
    qs_accepted s = concat (map jobs_of (qs_delivered s)) @ in_hand (qs_writer s) @ wq_jobs (qs_queue s) \<and>
    (\<forall>gs. DGroup gs \<in> set (qs_delivered s) \<longrightarrow> 1 \<le> length gs \<and> length gs \<le> max_jobs)"
proof -
  obtain m where m: "max_jobs = Suc m" using assms(3) by (cases max_jobs) auto
  have inv: "queue_inv capacity max_jobs s" using wq.reachable_inv assms(1,2) unfolding m by blast
  then have "group_ok max_jobs (DGroup gs)" if "DGroup gs \<in> set (qs_delivered s)" for gs
    using that by (auto simp: queue_inv_def)
  then show ?thesis using inv by (auto simp: queue_inv_def Suc_le_eq)
qed

definition sample_start :: "(string, nat) queue_system" where
  "sample_start = \<lparr>qs_queue = write_queue_new, qs_writer = WIdle, qs_pushers = [], qs_accepted = [], qs_delivered = []\<rparr>"

definition sample_one :: "(string, nat) queue_system" where
  "sample_one = after_push (Groupable 7) Wait (push_begin 2 (Groupable 7) Wait (qs_queue sample_start)) sample_start"

definition sample_two :: "(string, nat) queue_system" where
  "sample_two = after_pop (pop_begin 4 True (qs_queue sample_one)) sample_one"

lemmas sample_defs = sample_start_def sample_one_def sample_two_def after_push_def after_pop_def push_begin_def
  push_finish_def pop_begin_def write_queue_new_def

lemma sample_run: "(queue_step 2 4)\<^sup>*\<^sup>* sample_start sample_two"
proof -
  have "queue_step 2 4 sample_start sample_one" unfolding sample_one_def by (rule submit)
  moreover have "queue_step 2 4 sample_one sample_two"
    unfolding sample_two_def by (rule pop) (simp add: sample_defs)
  ultimately show ?thesis by (meson converse_rtranclp_into_rtranclp r_into_rtranclp)
qed

theorem queue_bounded_fifo_witness:
  "length (wq_jobs (qs_queue sample_two)) \<le> 2 \<and> qs_delivered sample_two = [DGroup [7]] \<and>
   qs_accepted sample_two = concat (map jobs_of (qs_delivered sample_two)) @ in_hand (qs_writer sample_two) @
     wq_jobs (qs_queue sample_two)"
proof -
  have "queue_start sample_start" by (simp add: queue_start_def sample_start_def)
  from queue_bounded_fifo [OF this sample_run] show ?thesis by (simp add: sample_defs)
qed

text \<open>
  Claim C20. Shutdown delivers everything that was accepted. Once the queue is closed no job is ever
  accepted again, and when the writer's \<^verbatim>\<open>pop\<close> has returned \<^verbatim>\<open>None\<close> (so that the writer thread
  ends) the queue is closed and empty and every job ever accepted has been handed to the writer in
  submission order; this stays so in every later state.
\<close>

theorem queue_shutdown_complete:
  assumes "queue_start s0" "(queue_step capacity max_jobs)\<^sup>*\<^sup>* s0 s" "1 \<le> max_jobs"
    and "(queue_step capacity max_jobs)\<^sup>*\<^sup>* s t" "\<not> wq_accepting (qs_queue s)"
  shows "qs_accepted t = qs_accepted s \<and> \<not> wq_accepting (qs_queue t) \<and>
    (qs_writer t = WStopped \<longrightarrow> qs_accepted s = concat (map jobs_of (qs_delivered t)) \<and> wq_jobs (qs_queue t) = [])"
proof -
  obtain m where m: "max_jobs = Suc m" using assms(3) by (cases max_jobs) auto
  have "(queue_step capacity max_jobs)\<^sup>*\<^sup>* s0 t" using assms(2,4) by (rule rtranclp_trans)
  then have inv: "queue_inv capacity max_jobs t" using wq.reachable_inv assms(1) unfolding m by blast
  have "closed_with (qs_accepted s) t"
    using closed.steps_inv [OF assms(4)] assms(5) by (simp add: closed_with_def)
  then show ?thesis using inv by (auto simp: closed_with_def queue_inv_def)
qed

definition sample_closed :: "(string, nat) queue_system" where
  "sample_closed = sample_two\<lparr>qs_queue := close_queue (qs_queue sample_two)\<rparr>"

definition sample_stopped :: "(string, nat) queue_system" where
  "sample_stopped = after_pop (pop_begin 4 True (qs_queue sample_closed)) sample_closed"

theorem queue_shutdown_complete_witness:
  "qs_writer sample_stopped = WStopped \<and> qs_accepted sample_closed = concat (map jobs_of (qs_delivered sample_stopped))"
proof -
  have start: "queue_start sample_start" by (simp add: queue_start_def sample_start_def)
  have "queue_step 2 4 sample_two sample_closed" unfolding sample_closed_def by (rule shut)
  then have run: "(queue_step 2 4)\<^sup>*\<^sup>* sample_start sample_closed"
    using sample_run by (rule rtranclp.rtrancl_into_rtrancl [rotated])
  have "queue_step 2 4 sample_closed sample_stopped"
    unfolding sample_stopped_def by (rule pop) (simp add: sample_closed_def sample_defs)
  then have last: "(queue_step 2 4)\<^sup>*\<^sup>* sample_closed sample_stopped" by (rule r_into_rtranclp)
  have stopped: "qs_writer sample_stopped = WStopped"
    by (simp add: sample_stopped_def sample_closed_def close_queue_def sample_defs)
  have "\<not> wq_accepting (qs_queue sample_closed)" by (simp add: sample_closed_def close_queue_def)
  from queue_shutdown_complete [OF start run _ last this] show ?thesis using stopped by simp
qed

text \<open>
  Backpressure policies behave as named. A submission enters exactly when the queue is
  open and below capacity; it blocks exactly when the policy is not \<^const>\<open>Reject\<close> and the open queue is full; a
  full queue is reported only to \<^const>\<open>Reject\<close>; a submitter with a time limit whose wait has timed out, or that
  has used up its time, on a still full queue gets \<^verbatim>\<open>WriteQueueTimeout\<close> and never blocks again; and no outcome other
  than entering changes the queue.
\<close>

lemma push_policy_exact:
  "(push_begin c job p q = (Some (Inr ()), q\<lparr>wq_jobs := wq_jobs q @ [job]\<rparr>)) =
     (wq_accepting q \<and> length (wq_jobs q) < c) \<and>
   (push_begin c job p q = (None, q)) = (p \<noteq> Reject \<and> wq_accepting q \<and> c \<le> length (wq_jobs q)) \<and>
   (push_begin c job p q = (Some (Inl write_queue_full), q)) = (p = Reject \<and> c \<le> length (wq_jobs q)) \<and>
   (push_begin c job p q = (Some (Inl connection_manager_closed), q)) =
     (\<not> wq_accepting q \<and> (p = Reject \<longrightarrow> length (wq_jobs q) < c)) \<and>
   (push_wake c job (Timeout d) timed_out elapsed q = (Some (Inl write_queue_timeout), q)) =
     (c \<le> length (wq_jobs q) \<and> (timed_out \<or> d \<le> elapsed)) \<and>
   (push_wake c job p timed_out elapsed q = (None, q)) =
     (p \<noteq> Reject \<and> wq_accepting q \<and> c \<le> length (wq_jobs q) \<and>
      (\<forall>d. p = Timeout d \<longrightarrow> \<not> timed_out \<and> elapsed < d))"
  by (cases p)
    (auto simp: push_begin_def push_wake_def push_finish_def write_queue_full_def write_queue_timeout_def
      connection_manager_closed_def)

lemma collect_expired: "\<exists>gs rest. collect m True acc jobs a = (PopReturn (Some (DGroup (acc @ gs))), rest) \<and> length rest \<le> length jobs"
proof (induction m True acc jobs a rule: collect.induct)
  case (1 m acc g jobs a)
  show ?case
  proof (cases "length acc < m")
    case True
    then obtain gs rest where "collect m True (acc @ [g]) jobs a = (PopReturn (Some (DGroup ((acc @ [g]) @ gs))), rest)"
      "length rest \<le> length jobs" using 1 by blast
    then show ?thesis using True by (intro exI [of _ "g # gs"] exI [of _ rest]) simp
  qed (auto intro: exI [of _ "[]"])
qed (auto intro: exI [of _ "[]"])

text \<open>
  The writer is never stuck with work. On a non-empty queue \<^const>\<open>pop_begin\<close> never waits
  for \<^verbatim>\<open>not_empty\<close>: it hands out a job or a group, or is collecting a non-empty group; once the
  deadline of a collection has passed, the next wake-up hands the group out with everything collected so far; and a
  closed queue is always answered at once, with \<^verbatim>\<open>None\<close> exactly when it is empty and with a shorter
  queue otherwise.
\<close>

lemma pop_progress:
  "(wq_jobs q \<noteq> [] \<longrightarrow> fst (pop_begin m e q) \<noteq> PopWaiting \<and> fst (pop_begin m e q) \<noteq> PopReturn None) \<and>
   (\<exists>gs. fst (collect_wake m timed_out True acc q) = PopReturn (Some (DGroup (acc @ gs)))) \<and>
   (\<not> wq_accepting q \<longrightarrow> (\<exists>r q'. pop_begin m True q = (PopReturn r, q') \<and> (r = None \<longleftrightarrow> wq_jobs q = []) \<and>
      (r \<noteq> None \<longrightarrow> length (wq_jobs q') < length (wq_jobs q))))"
proof (intro conjI)
  have group: "\<exists>d jobs'. collect m e' [g] jobs a = (PopReturn (Some d), jobs') \<or>
      (\<exists>gs. collect m e' [g] jobs a = (PopCollecting gs, jobs'))" for e' g jobs a
  proof -
    have "collect m e' acc jobs a = (r, js) \<Longrightarrow> (\<exists>d. r = PopReturn (Some d)) \<or> (\<exists>gs. r = PopCollecting gs)" for acc r js
      by (induction m e' acc jobs a rule: collect.induct) (auto split: if_splits)
    then show ?thesis by (metis surj_pair)
  qed
  show "wq_jobs q \<noteq> [] \<longrightarrow> fst (pop_begin m e q) \<noteq> PopWaiting \<and> fst (pop_begin m e q) \<noteq> PopReturn None"
  proof (cases "wq_jobs q")
    case (Cons j js)
    then show ?thesis
    proof (cases j)
      case (Groupable g)
      then show ?thesis using group [of e g js "wq_accepting q"] by (auto simp: pop_begin_def Cons)
    qed (simp add: pop_begin_def)
  qed simp
  show "\<exists>gs. fst (collect_wake m timed_out True acc q) = PopReturn (Some (DGroup (acc @ gs)))"
    using collect_expired [of m acc "wq_jobs q" "wq_accepting q"]
    by (auto simp: collect_wake_def intro: exI [of _ "[]"])
  show "\<not> wq_accepting q \<longrightarrow> (\<exists>r q'. pop_begin m True q = (PopReturn r, q') \<and> (r = None \<longleftrightarrow> wq_jobs q = []) \<and>
      (r \<noteq> None \<longrightarrow> length (wq_jobs q') < length (wq_jobs q)))"
  proof (cases "wq_jobs q")
    case (Cons j js)
    then show ?thesis
    proof (cases j)
      case (Groupable g)
      then show ?thesis
        using collect_expired [of m "[g]" js "wq_accepting q"] by (auto simp: pop_begin_def Cons)
    qed (auto simp: pop_begin_def)
  qed (auto simp: pop_begin_def)
qed

end
