(* ===== verification/Group_Commit.thy ===== *)
theory Group_Commit
  imports Storage Write_Queue
begin

text \<open>
  Group commit, from \<^verbatim>\<open>csgdb/src/pool.rs\<close>: several logical write jobs share one physical
  transaction, each inside its own savepoint. The theorem is atomicity per job for every engine
  whose transactions and savepoints behave as documented; the laws are the predicate
  \<open>transactional\<close>, and a small engine with them is at the end.
\<close>

section \<open>Jobs, metrics and responses\<close>

record BatchStatement =
  bs_sql :: string
  bs_parameters :: "Value list"

record 'r GroupableWrite =
  gw_statements :: "BatchStatement list"
  gw_response :: 'r

record 'r GroupCommitCompletion =
  gc_committed :: bool
  gc_responses :: "('r \<times> nat list result) list"

record PoolMetrics =
  writer_active :: bool
  write_jobs_submitted :: u64
  write_jobs_completed :: u64
  write_jobs_rejected :: u64
  group_commit_transactions :: u64
  grouped_write_jobs :: u64
  largest_group_commit :: nat
  checkpoint_runs :: u64
  automatic_checkpoint_runs :: u64
  incomplete_checkpoints :: u64
  maintenance_failures :: u64
  wal_pressure_events :: u64
  wal_pressure_active :: bool
  automatic_maintenance_enabled :: bool
  last_observed_wal_frames :: u32
  last_remaining_wal_frames :: u32

definition pool_metrics_default :: PoolMetrics where
  "pool_metrics_default = \<lparr>writer_active = False, write_jobs_submitted = 0, write_jobs_completed = 0,
     write_jobs_rejected = 0, group_commit_transactions = 0, grouped_write_jobs = 0, largest_group_commit = 0,
     checkpoint_runs = 0, automatic_checkpoint_runs = 0, incomplete_checkpoints = 0, maintenance_failures = 0,
     wal_pressure_events = 0, wal_pressure_active = False, automatic_maintenance_enabled = False,
     last_observed_wal_frames = 0, last_remaining_wal_frames = 0\<rparr>"

section \<open>Execution\<close>

definition SAVEPOINT :: string where "SAVEPOINT = ''SAVEPOINT csgdb_group_commit_job''"
definition RELEASE :: string where "RELEASE = ''RELEASE csgdb_group_commit_job''"
definition ROLLBACK :: string where
  "ROLLBACK = ''ROLLBACK TO csgdb_group_commit_job; RELEASE csgdb_group_commit_job''"

text \<open>
  The outer error aborts the whole group; the inner result is the answer of this job.
\<close>

fun run_group_statements ::
  "'db Engine \<Rightarrow> BatchStatement list \<Rightarrow> nat list \<Rightarrow> ('db, Error, nat list result) effect" where
  "run_group_statements eng [] changes =
     bind_st (execute_batch eng RELEASE) (\<lambda>_. ret_st (Inr changes))"
| "run_group_statements eng (statement # rest) changes =
     (\<lambda>db. case execute_values eng (bs_sql statement) (bs_parameters statement) db of
        (Inr statement_changes, db') \<Rightarrow> run_group_statements eng rest (changes @ [statement_changes]) db'
      | (Inl error, db') \<Rightarrow> bind_st (execute_batch eng ROLLBACK) (\<lambda>_. ret_st (Inl error)) db')"

definition execute_group_job ::
  "'db Engine \<Rightarrow> BatchStatement list \<Rightarrow> ('db, Error, nat list result) effect" where
  "execute_group_job eng statements =
     bind_st (execute_batch eng SAVEPOINT) (\<lambda>_. run_group_statements eng statements [])"

fun group_loop ::
  "'db Engine \<Rightarrow> 'r GroupableWrite list \<Rightarrow> Error option \<Rightarrow> ('r \<times> nat list result) list \<Rightarrow> 'db
     \<Rightarrow> ('r \<times> nat list result) list \<times> Error option \<times> 'db" where
  "group_loop eng [] fatal_error responses db = (responses, fatal_error, db)"
| "group_loop eng (job # jobs) fatal_error responses db =
     (case fatal_error of
        Some error \<Rightarrow> group_loop eng jobs fatal_error (responses @ [(gw_response job, Inl error)]) db
      | None \<Rightarrow>
          (case execute_group_job eng (gw_statements job) db of
             (Inr answer, db') \<Rightarrow> group_loop eng jobs None (responses @ [(gw_response job, answer)]) db'
           | (Inl error, db') \<Rightarrow>
               group_loop eng jobs (Some error) (responses @ [(gw_response job, Inl error)]) db'))"

definition count_group :: "nat \<Rightarrow> PoolMetrics \<Rightarrow> PoolMetrics" where
  "count_group n m =
     (let m = m\<lparr>group_commit_transactions := group_commit_transactions m + 1,
                largest_group_commit := max (largest_group_commit m) n\<rparr>
      in if n > 1 then m\<lparr>grouped_write_jobs := grouped_write_jobs m + of_nat n\<rparr> else m)"

definition complete_jobs :: "nat \<Rightarrow> PoolMetrics \<Rightarrow> PoolMetrics" where
  "complete_jobs n m = m\<lparr>write_jobs_completed := write_jobs_completed m + of_nat n\<rparr>"

definition finish_group ::
  "'db Engine \<Rightarrow> ('r \<times> nat list result) list \<Rightarrow> Error option \<Rightarrow> 'db \<Rightarrow> 'r GroupCommitCompletion \<times> 'db" where
  "finish_group eng responses fatal_error db =
     (case fatal_error of
        Some error \<Rightarrow>
          (\<lparr>gc_committed = False, gc_responses = map (\<lambda>(r, _). (r, Inl error)) responses\<rparr>,
           e_drop_transaction eng db)
      | None \<Rightarrow>
          (case commit eng db of
             (Inr _, db') \<Rightarrow>
               (\<lparr>gc_committed = (\<exists>x \<in> set responses. is_ok (snd x)), gc_responses = responses\<rparr>, db')
           | (Inl error, db') \<Rightarrow>
               (\<lparr>gc_committed = False,
                 gc_responses = map (\<lambda>(r, x). (r, if is_ok x then Inl error else x)) responses\<rparr>, db')))"

definition execute_group_commit ::
  "'db Engine \<Rightarrow> 'r GroupableWrite list \<Rightarrow> PoolMetrics \<Rightarrow> 'db
     \<Rightarrow> 'r GroupCommitCompletion \<times> PoolMetrics \<times> 'db" where
  "execute_group_commit eng jobs metrics db =
     (let job_count = length jobs; metrics = count_group job_count metrics in
      case transaction eng db of
        (Inl error, db') \<Rightarrow>
          (\<lparr>gc_committed = False, gc_responses = map (\<lambda>job. (gw_response job, Inl error)) jobs\<rparr>,
           complete_jobs job_count metrics, db')
      | (Inr _, db') \<Rightarrow>
          (case group_loop eng jobs None [] db' of
             (responses, fatal_error, db'') \<Rightarrow>
               (case finish_group eng responses fatal_error db'' of
                  (completion, db''') \<Rightarrow> (completion, complete_jobs job_count metrics, db'''))))"

section \<open>Documented behaviour of the engine\<close>

text \<open>
  What the proof looks at in an engine state: the committed content, the content the open transaction sees,
  the contents saved by open savepoints (innermost first), and whether a transaction is
  open. \<open>tv_plain\<close> marks data statements (no transaction control) and \<open>tv_run\<close> is their effect.
\<close>

record ('db, 'c) tx_view =
  tv_durable :: "'db \<Rightarrow> 'c"
  tv_content :: "'db \<Rightarrow> 'c"
  tv_saves :: "'db \<Rightarrow> 'c list"
  tv_open :: "'db \<Rightarrow> bool"
  tv_plain :: "string \<Rightarrow> bool"
  tv_run :: "string \<Rightarrow> ValueRef list \<Rightarrow> 'c \<Rightarrow> nat \<times> 'c"

definition begin_law :: "'db Engine \<Rightarrow> ('db, 'c) tx_view \<Rightarrow> bool" where
  "begin_law eng v \<longleftrightarrow> (\<forall>d r d'. \<not> tv_open v d \<longrightarrow> e_begin eng d = (r, d') \<longrightarrow>
     tv_durable v d' = tv_durable v d \<and>
     (if is_ok r then tv_open v d' \<and> tv_saves v d' = [] \<and> tv_content v d' = tv_durable v d
      else \<not> tv_open v d'))"

definition savepoint_law :: "'db Engine \<Rightarrow> ('db, 'c) tx_view \<Rightarrow> bool" where
  "savepoint_law eng v \<longleftrightarrow> (\<forall>d r d'. tv_open v d \<longrightarrow> e_batch eng SAVEPOINT d = (r, d') \<longrightarrow>
     tv_durable v d' = tv_durable v d \<and>
     (is_ok r \<longrightarrow> tv_open v d' \<and> tv_saves v d' = tv_content v d # tv_saves v d \<and> tv_content v d' = tv_content v d))"

text \<open>Releasing or rolling back to a savepoint fails when there is none.\<close>

definition release_law :: "'db Engine \<Rightarrow> ('db, 'c) tx_view \<Rightarrow> bool" where
  "release_law eng v \<longleftrightarrow> (\<forall>d r d'. e_batch eng RELEASE d = (r, d') \<longrightarrow>
     tv_durable v d' = tv_durable v d \<and>
     (is_ok r \<longrightarrow> tv_saves v d \<noteq> [] \<and> tv_open v d' \<and> tv_saves v d' = tl (tv_saves v d) \<and>
        tv_content v d' = tv_content v d))"

definition rollback_law :: "'db Engine \<Rightarrow> ('db, 'c) tx_view \<Rightarrow> bool" where
  "rollback_law eng v \<longleftrightarrow> (\<forall>d r d'. e_batch eng ROLLBACK d = (r, d') \<longrightarrow>
     tv_durable v d' = tv_durable v d \<and>
     (is_ok r \<longrightarrow> tv_saves v d \<noteq> [] \<and> tv_open v d' \<and> tv_saves v d' = tl (tv_saves v d) \<and>
        tv_content v d' = hd (tv_saves v d)))"

text \<open>
  A failing statement leaves the savepoints in place, or the engine has abandoned the whole
  transaction, which removes them; either way nothing is committed. The content inside the
  transaction is not assumed to be restored.
\<close>

definition execute_law :: "'db Engine \<Rightarrow> ('db, 'c) tx_view \<Rightarrow> bool" where
  "execute_law eng v \<longleftrightarrow> (\<forall>sql ps d r d'. tv_plain v sql \<longrightarrow> tv_open v d \<longrightarrow> e_execute eng sql ps d = (r, d') \<longrightarrow>
     tv_durable v d' = tv_durable v d \<and>
     (case r of
        Inr n \<Rightarrow> tv_open v d' \<and> tv_saves v d' = tv_saves v d \<and> tv_run v sql ps (tv_content v d) = (n, tv_content v d')
      | Inl _ \<Rightarrow> (tv_open v d' \<and> tv_saves v d' = tv_saves v d) \<or> (\<not> tv_open v d' \<and> tv_saves v d' = [])))"

text \<open>A failed commit is rolled back when the transaction value goes out of scope.\<close>

definition commit_law :: "'db Engine \<Rightarrow> ('db, 'c) tx_view \<Rightarrow> bool" where
  "commit_law eng v \<longleftrightarrow> (\<forall>d r d'. tv_open v d \<longrightarrow> e_commit eng d = (r, d') \<longrightarrow>
     \<not> tv_open v d' \<and> tv_durable v d' = (if is_ok r then tv_content v d else tv_durable v d))"

definition drop_law :: "'db Engine \<Rightarrow> ('db, 'c) tx_view \<Rightarrow> bool" where
  "drop_law eng v \<longleftrightarrow> (\<forall>d. \<not> tv_open v (e_drop_transaction eng d) \<and>
     tv_durable v (e_drop_transaction eng d) = tv_durable v d)"

definition transactional :: "'db Engine \<Rightarrow> ('db, 'c) tx_view \<Rightarrow> bool" where
  "transactional eng v \<longleftrightarrow> begin_law eng v \<and> savepoint_law eng v \<and> release_law eng v \<and>
     rollback_law eng v \<and> execute_law eng v \<and> commit_law eng v \<and> drop_law eng v"

section \<open>Atomicity\<close>

fun run_statements :: "('db, 'c) tx_view \<Rightarrow> BatchStatement list \<Rightarrow> 'c \<Rightarrow> nat list \<times> 'c" where
  "run_statements v [] c = ([], c)"
| "run_statements v (s # ss) c =
     (case tv_run v (bs_sql s) (map as_ref (bs_parameters s)) c of
        (n, c') \<Rightarrow> (case run_statements v ss c' of (ns, c'') \<Rightarrow> (n # ns, c'')))"

text \<open>
  The content after the jobs that were answered with success, run one after the other; \<^const>\<open>None\<close> if an
  answer does not list the changed rows of its statements.
\<close>

fun replay :: "('db, 'c) tx_view \<Rightarrow> (BatchStatement list \<times> nat list result) list \<Rightarrow> 'c \<Rightarrow> 'c option" where
  "replay v [] c = Some c"
| "replay v ((ss, Inl e) # js) c = replay v js c"
| "replay v ((ss, Inr ns) # js) c =
     (case run_statements v ss c of (ms, c') \<Rightarrow> if ms = ns then replay v js c' else None)"

definition inside :: "('db, 'c) tx_view \<Rightarrow> 'c list \<Rightarrow> 'c \<Rightarrow> 'c \<Rightarrow> 'db \<Rightarrow> bool" where
  "inside v saves c dur d \<longleftrightarrow> tv_open v d \<and> tv_saves v d = saves \<and> tv_content v d = c \<and> tv_durable v d = dur"

definition plain_job :: "('db, 'c) tx_view \<Rightarrow> BatchStatement list \<Rightarrow> bool" where
  "plain_job v ss \<longleftrightarrow> (\<forall>s \<in> set ss. tv_plain v (bs_sql s))"

lemma batch_result: "execute_batch eng sql d = (r, d') \<Longrightarrow> \<exists>r'. e_batch eng sql d = (r', d') \<and> is_ok r' = is_ok r"
  by (cases "e_batch eng sql d"; cases "fst (e_batch eng sql d)") (auto simp: execute_batch_def map_err_st_def)

lemma savepoint_step:
  assumes "savepoint_law eng v" "inside v saves c dur d" "execute_batch eng SAVEPOINT d = (r, d')"
  shows "tv_durable v d' = dur" "is_ok r \<Longrightarrow> inside v (c # saves) c dur d'"
  using assms batch_result [OF assms(3)] unfolding savepoint_law_def inside_def by metis+

lemma release_step:
  assumes "release_law eng v" "inside v (s0 # saves) c dur d" "execute_batch eng RELEASE d = (r, d')"
  shows "tv_durable v d' = dur" "is_ok r \<Longrightarrow> inside v saves c dur d'"
  using assms batch_result [OF assms(3)] unfolding release_law_def inside_def by (metis list.sel(3))+

lemma rollback_step:
  assumes "rollback_law eng v" "execute_batch eng ROLLBACK d = (r, d')"
  shows "tv_durable v d' = tv_durable v d" "is_ok r \<Longrightarrow> tv_saves v d \<noteq> []"
    "is_ok r \<Longrightarrow> inside v (tl (tv_saves v d)) (hd (tv_saves v d)) (tv_durable v d) d'"
  using assms batch_result [OF assms(2)] unfolding rollback_law_def inside_def by metis+

lemma execute_step:
  assumes "execute_law eng v" "tv_plain v sql" "inside v saves c dur d" "execute_values eng sql ps d = (r, d')"
  shows "tv_durable v d' = dur"
    and "r = Inr n \<Longrightarrow> inside v saves (snd (tv_run v sql (map as_ref ps) c)) dur d' \<and>
      fst (tv_run v sql (map as_ref ps) c) = n"
    and "r = Inl e \<Longrightarrow> tv_saves v d' = saves \<or> tv_saves v d' = []"
proof -
  have law: "tv_durable v t = tv_durable v d \<and>
     (case x of
        Inr n \<Rightarrow> tv_open v t \<and> tv_saves v t = tv_saves v d \<and> tv_run v sql ps' (tv_content v d) = (n, tv_content v t)
      | Inl _ \<Rightarrow> (tv_open v t \<and> tv_saves v t = tv_saves v d) \<or> (\<not> tv_open v t \<and> tv_saves v t = []))"
    if "e_execute eng sql ps' d = (x, t)" for ps' x t
    using assms(1-3) that unfolding execute_law_def inside_def by blast
  show "tv_durable v d' = dur"
  proof (cases r)
    case (Inl e)
    then show ?thesis using execute_values_Inl [OF assms(4) [unfolded Inl]] law assms(3) by (auto simp: inside_def)
  next
    case (Inr n)
    then show ?thesis using law [OF execute_values_Inr [OF assms(4) [unfolded Inr]]] assms(3) by (auto simp: inside_def)
  qed
  show "r = Inr n \<Longrightarrow> inside v saves (snd (tv_run v sql (map as_ref ps) c)) dur d' \<and>
      fst (tv_run v sql (map as_ref ps) c) = n"
    using law [OF execute_values_Inr] assms(3,4) by (auto simp: inside_def)
  show "r = Inl e \<Longrightarrow> tv_saves v d' = saves \<or> tv_saves v d' = []"
    using execute_values_Inl [of eng sql ps d e d'] law assms(3,4) by (fastforce simp: inside_def)
qed

lemma begin_step:
  assumes "begin_law eng v" "\<not> tv_open v d" "e_begin eng d = (r, d')"
  shows "tv_durable v d' = tv_durable v d" "\<not> is_ok r \<Longrightarrow> \<not> tv_open v d'"
    "is_ok r \<Longrightarrow> inside v [] (tv_durable v d) (tv_durable v d) d'"
  using assms unfolding begin_law_def inside_def by metis+

text \<open>The statements of one job, between its savepoint and the end of the savepoint.\<close>

lemma run_group_statements_step:
  assumes "transactional eng v" "plain_job v ss" "inside v (s0 # saves) c dur d"
    and "run_group_statements eng ss ch d = (r, d')"
  shows "tv_durable v d' = dur \<and>
    (case r of
       Inl e \<Rightarrow> True
     | Inr (Inl e) \<Rightarrow> inside v saves s0 dur d'
     | Inr (Inr ns) \<Rightarrow> ns = ch @ fst (run_statements v ss c) \<and> inside v saves (snd (run_statements v ss c)) dur d')"
  using assms(2-4)
proof (induction ss arbitrary: ch c d)
  case Nil
  obtain x t where x: "execute_batch eng RELEASE d = (x, t)" by fastforce
  have "release_law eng v" using assms(1) by (simp add: transactional_def)
  then show ?case
    using release_step [OF _ Nil.prems(2) x] Nil.prems(3) x by (cases x) (auto simp: bind_st_def)
next
  case (Cons s ss)
  have laws: "execute_law eng v" "rollback_law eng v" using assms(1) by (simp_all add: transactional_def)
  have plain: "tv_plain v (bs_sql s)" "plain_job v ss" using Cons.prems(1) by (simp_all add: plain_job_def)
  obtain x t where x: "execute_values eng (bs_sql s) (bs_parameters s) d = (x, t)" by fastforce
  note step = execute_step [OF laws(1) plain(1) Cons.prems(2) x]
  show ?case
  proof (cases x)
    case (Inr n)
    have run: "run_group_statements eng ss (ch @ [n]) t = (r, d')" using Cons.prems(3) x Inr by simp
    obtain m c' where m: "tv_run v (bs_sql s) (map as_ref (bs_parameters s)) c = (m, c')" by fastforce
    have i: "inside v (s0 # saves) c' dur t" "m = n" using step(2) [OF Inr] m by auto
    show ?thesis
      using Cons.IH [OF plain(2) i(1) run] i(2) m by (auto split: sum.splits prod.splits)
  next
    case (Inl e)
    obtain y u where y: "execute_batch eng ROLLBACK t = (y, u)" by fastforce
    have r: "d' = u" "r = (case y of Inl f \<Rightarrow> Inl f | Inr _ \<Rightarrow> Inr (Inl e))"
      using Cons.prems(3) x Inl y by (auto simp: bind_st_def split: sum.splits)
    have saves: "tv_saves v t = s0 # saves \<or> tv_saves v t = []" using step(3) [OF Inl] by simp
    show ?thesis
      using rollback_step [OF laws(2) y] step(1) saves by (cases y) (auto simp: r)
  qed
qed

lemma execute_group_job_step:
  assumes "transactional eng v" "plain_job v ss" "inside v saves c dur d" "execute_group_job eng ss d = (r, d')"
  shows "tv_durable v d' = dur \<and>
    (case r of
       Inl e \<Rightarrow> True
     | Inr (Inl e) \<Rightarrow> inside v saves c dur d'
     | Inr (Inr ns) \<Rightarrow> ns = fst (run_statements v ss c) \<and> inside v saves (snd (run_statements v ss c)) dur d')"
proof -
  obtain x t where x: "execute_batch eng SAVEPOINT d = (x, t)" by fastforce
  have "savepoint_law eng v" using assms(1) by (simp add: transactional_def)
  note sp = savepoint_step [OF this assms(3) x]
  show ?thesis
  proof (cases x)
    case (Inl e)
    then show ?thesis using assms(4) x sp(1) by (auto simp: execute_group_job_def bind_st_def)
  next
    case (Inr u)
    have run: "run_group_statements eng ss [] t = (r, d')"
      using assms(4) x Inr by (simp add: execute_group_job_def bind_st_def)
    have "inside v (c # saves) c dur t" using sp(2) Inr by simp
    from run_group_statements_step [OF assms(1,2) this run] show ?thesis
      unfolding append_Nil .
  qed
qed

text \<open>The loop over the jobs, with the answers it appends.\<close>

lemma group_loop_responses:
  "group_loop eng jobs fatal acc d = (rs, f, d') \<Longrightarrow> \<exists>new. rs = acc @ new \<and> map fst new = map gw_response jobs"
proof (induction jobs arbitrary: fatal acc d)
  case (Cons j jobs)
  obtain x t where x: "execute_group_job eng (gw_statements j) d = (x, t)" by fastforce
  obtain a fatal' d'' where "group_loop eng jobs fatal' (acc @ [(gw_response j, a)]) d'' = (rs, f, d')"
    using Cons.prems x by (cases fatal; cases x) auto
  from Cons.IH [OF this] show ?case by auto
qed simp

lemma group_loop_fatal: "group_loop eng jobs (Some e) acc d = (rs, f, d') \<Longrightarrow> f = Some e \<and> d' = d"
  by (induction jobs arbitrary: acc) auto

lemma group_loop_step:
  assumes "transactional eng v" "\<forall>j \<in> set jobs. plain_job v (gw_statements j)" "inside v [] c dur d"
    and "group_loop eng jobs None acc d = (rs, f, d')"
  shows "tv_durable v d' = dur \<and>
    (f = None \<longrightarrow> (\<exists>new c'. rs = acc @ new \<and> inside v [] c' dur d' \<and>
       replay v (zip (map gw_statements jobs) (map snd new)) c = Some c'))"
  using assms(2-4)
proof (induction jobs arbitrary: acc c d)
  case Nil
  then show ?case by (auto simp: inside_def)
next
  case (Cons j jobs)
  obtain x t where x: "execute_group_job eng (gw_statements j) d = (x, t)" by fastforce
  have plain: "plain_job v (gw_statements j)" "\<forall>j \<in> set jobs. plain_job v (gw_statements j)"
    using Cons.prems(1) by simp_all
  note job = execute_group_job_step [OF assms(1) plain(1) Cons.prems(2) x]
  show ?case
  proof (cases x)
    case (Inl e)
    then show ?thesis using Cons.prems(3) x job group_loop_fatal by fastforce
  next
    case (Inr a)
    have run: "group_loop eng jobs None (acc @ [(gw_response j, a)]) t = (rs, f, d')"
      using Cons.prems(3) x Inr by simp
    obtain c' where c': "inside v [] c' dur t" "\<And>js. replay v ((gw_statements j, a) # js) c = replay v js c'"
      using job Inr by (cases a) (auto split: prod.splits)
    show ?thesis using Cons.IH [OF plain(2) c'(1) run] c'(2) by force
  qed
qed

lemma replay_failed:
  assumes "\<forall>x \<in> set xs. \<not> is_ok (snd x)"
  shows "replay v xs c = Some c"
  using assms
proof (induction xs)
  case (Cons x xs)
  then show ?case by (cases x; cases "snd x") auto
qed simp

lemma replay_not_ok:
  "\<forall>x \<in> set rs. \<not> is_ok (snd x) \<Longrightarrow> replay v (zip ss (map snd rs)) c = Some c"
  by (rule replay_failed) (fastforce dest: set_zip_rightD)

lemma finish_group_step:
  assumes "commit_law eng v" "drop_law eng v" "finish_group eng rs f d = (g, d')"
    and "tv_durable v d = dur" "f = None \<Longrightarrow> inside v [] c dur d \<and> replay v (zip ss (map snd rs)) dur = Some c"
  shows "\<not> tv_open v d' \<and> replay v (zip ss (map snd (gc_responses g))) dur = Some (tv_durable v d') \<and>
    map fst (gc_responses g) = map fst rs \<and> gc_committed g = (\<exists>x \<in> set (gc_responses g). is_ok (snd x))"
proof (cases f)
  case (Some e)
  then have g: "gc_responses g = map (\<lambda>(r, _). (r, Inl e)) rs" "\<not> gc_committed g" "d' = e_drop_transaction eng d"
    using assms(3) by (auto simp: finish_group_def)
  have bad: "\<forall>x \<in> set (gc_responses g). \<not> is_ok (snd x)" by (auto simp: g)
  moreover have "\<not> tv_open v d' \<and> tv_durable v d' = dur"
    using assms(2,4) by (simp add: drop_law_def g)
  moreover have "map fst (gc_responses g) = map fst rs" by (simp add: g split_beta)
  ultimately show ?thesis using replay_not_ok [OF bad, of v ss dur] g(2) by simp
next
  case None
  note i = assms(5) [OF None]
  have open_d: "tv_open v d" "tv_content v d = c" using i by (simp_all add: inside_def)
  obtain y where y: "e_commit eng d = (y, d')" "commit eng d = (map_err map_storage_error y, d')"
    using assms(3) None by (auto simp: finish_group_def commit_def map_err_st_def split: prod.splits sum.splits)
  have after: "\<not> tv_open v d'" "tv_durable v d' = (if is_ok y then c else dur)"
    using assms(1,4) open_d y(1) unfolding commit_law_def by metis+
  show ?thesis
  proof (cases y)
    case (Inr u)
    then have g: "g = \<lparr>gc_committed = (\<exists>x \<in> set rs. is_ok (snd x)), gc_responses = rs\<rparr>"
      using assms(3) None y by (simp add: finish_group_def)
    show ?thesis using after i Inr unfolding g by simp
  next
    case (Inl e)
    then have g: "gc_responses g = map (\<lambda>(r, x). (r, if is_ok x then Inl (map_storage_error e) else x)) rs" "\<not> gc_committed g"
      using assms(3) None y by (auto simp: finish_group_def)
    have bad: "\<forall>x \<in> set (gc_responses g). \<not> is_ok (snd x)" by (auto simp: g split: if_splits)
    moreover have "map fst (gc_responses g) = map fst rs" by (simp add: g split_beta)
    ultimately show ?thesis using replay_not_ok [OF bad, of v ss dur] after Inl g(2) by simp
  qed
qed

section \<open>Properties\<close>

lemma group_commit_replay:
  assumes "transactional eng v" "\<not> tv_open v d" "\<forall>j \<in> set jobs. plain_job v (gw_statements j)"
    and "execute_group_commit eng jobs m d = (g, m', d')"
  shows "\<not> tv_open v d' \<and> map fst (gc_responses g) = map gw_response jobs \<and>
    replay v (zip (map gw_statements jobs) (map snd (gc_responses g))) (tv_durable v d) = Some (tv_durable v d') \<and>
    gc_committed g = (\<exists>x \<in> set (gc_responses g). is_ok (snd x))"
proof -
  have laws: "begin_law eng v" "commit_law eng v" "drop_law eng v" using assms(1) by (simp_all add: transactional_def)
  obtain b t where b: "e_begin eng d = (b, t)" by fastforce
  then have tx: "transaction eng d = (map_err map_storage_error b, t)" by (simp add: transaction_def map_err_st_def)
  note bs = begin_step [OF laws(1) assms(2) b]
  have dur: "tv_durable v t = tv_durable v d" by (rule bs(1))
  show ?thesis
  proof (cases b)
    case (Inl e)
    then have "\<not> tv_open v t" using bs(2) by simp
    moreover have g: "gc_responses g = map (\<lambda>j. (gw_response j, Inl (map_storage_error e))) jobs" "\<not> gc_committed g" "d' = t"
      using assms(4) tx Inl by (auto simp: execute_group_commit_def Let_def)
    moreover have "\<forall>x \<in> set (gc_responses g). \<not> is_ok (snd x)" by (auto simp: g)
    ultimately show ?thesis using replay_not_ok dur by (fastforce simp: comp_def)
  next
    case (Inr u)
    obtain rs f d2 where loop: "group_loop eng jobs None [] t = (rs, f, d2)" using prod_cases3 by blast
    have fin: "finish_group eng rs f d2 = (g, d')"
      using assms(4) tx Inr loop by (auto simp: execute_group_commit_def Let_def split: prod.splits)
    have "inside v [] (tv_durable v d) (tv_durable v d) t"
      using bs(3) Inr by simp
    note step = group_loop_step [OF assms(1,3) this loop]
    have "map fst rs = map gw_response jobs" using group_loop_responses [OF loop] by auto
    moreover obtain c where "f = None \<Longrightarrow> inside v [] c (tv_durable v d) d2 \<and>
        replay v (zip (map gw_statements jobs) (map snd rs)) (tv_durable v d) = Some c"
      using step by (cases f) auto
    ultimately show ?thesis using finish_group_step [OF laws(2,3) fin] step by metis
  qed
qed

text \<open>
  Claim C1. Group commit is atomic per job. For every engine with the documented transaction and
  savepoint behaviour and every group of data-statement jobs started outside a transaction: afterwards
  no transaction is open; every job is answered, in order; the committed content is the previous one with exactly the
  jobs that were answered with success applied one after the other, each answer listing the changed rows of its own
  statements; a job answered with an error has left no trace, although it shared the transaction with
  others; and the group counts as committed exactly when some job succeeded.
\<close>

theorem group_commit_atomic:
  assumes "transactional eng v" "\<not> tv_open v d" "\<forall>j \<in> set jobs. plain_job v (gw_statements j)"
    and "execute_group_commit eng jobs m d = (g, m', d')"
  shows "\<not> tv_open v d' \<and> map fst (gc_responses g) = map gw_response jobs \<and>
    replay v (zip (map gw_statements jobs) (map snd (gc_responses g))) (tv_durable v d) = Some (tv_durable v d') \<and>
    gc_committed g = (\<exists>x \<in> set (gc_responses g). is_ok (snd x))"
  by (rule group_commit_replay [OF assms])

text \<open>A small engine with these laws: a counter. A failing statement even leaves a changed counter behind.\<close>

record mem_db =
  md_durable :: nat
  md_tx :: "(nat \<times> nat list) option"

definition mem_failure :: SqlError where
  "mem_failure = SqliteFailure FConstraintViolation 19"

definition mem_batch :: "string \<Rightarrow> mem_db \<Rightarrow> (SqlError + unit) \<times> mem_db" where
  "mem_batch sql d =
     (case md_tx d of
        None \<Rightarrow> (Inl mem_failure, d)
      | Some (c, ss) \<Rightarrow>
          if sql = SAVEPOINT then (Inr (), d\<lparr>md_tx := Some (c, c # ss)\<rparr>)
          else (case ss of
                  [] \<Rightarrow> (Inl mem_failure, d)
                | s # ss \<Rightarrow> (Inr (), d\<lparr>md_tx := Some (if sql = ROLLBACK then s else c, ss)\<rparr>)))"

definition mem_execute :: "string \<Rightarrow> ValueRef list \<Rightarrow> mem_db \<Rightarrow> (SqlError + nat) \<times> mem_db" where
  "mem_execute sql ps d =
     (case md_tx d of
        None \<Rightarrow> (Inl mem_failure, d)
      | Some (c, ss) \<Rightarrow>
          if sql = ''ADD'' then (Inr 1, d\<lparr>md_tx := Some (c + 1, ss)\<rparr>)
          else (Inl mem_failure, d\<lparr>md_tx := Some (c + 100, ss)\<rparr>))"

definition mem_commit :: "mem_db \<Rightarrow> (SqlError + unit) \<times> mem_db" where
  "mem_commit d =
     (case md_tx d of None \<Rightarrow> (Inl mem_failure, d) | Some (c, _) \<Rightarrow> (Inr (), d\<lparr>md_durable := c, md_tx := None\<rparr>))"

definition mem_engine :: "mem_db Engine" where
  "mem_engine = \<lparr>e_batch = mem_batch, e_parameter_count = (\<lambda>_ _. Inr 0), e_bind = (\<lambda>_ _ _ _. Inr ()),
     e_execute = mem_execute, e_query = (\<lambda>_ _ _. []), e_query_i64 = (\<lambda>_ _. Inr 0),
     e_begin = (\<lambda>d. (Inr (), d\<lparr>md_tx := Some (md_durable d, [])\<rparr>)), e_commit = mem_commit,
     e_rollback = (\<lambda>d. (Inr (), d\<lparr>md_tx := None\<rparr>)), e_drop_transaction = (\<lambda>d. d\<lparr>md_tx := None\<rparr>),
     e_transaction_state = (\<lambda>_ _. Inr SqlTxnNone), e_busy_timeout = (\<lambda>_ d. (Inr (), d)),
     e_wal_checkpoint = (\<lambda>_ _ d. ((0, 0, 0), d)), e_wal_autocheckpoint = (\<lambda>_ d. (0, d)),
     e_failure_code = (\<lambda>_. FOther), e_close = (\<lambda>_. Inr ())\<rparr>"

definition mem_view :: "(mem_db, nat) tx_view" where
  "mem_view = \<lparr>tv_durable = md_durable, tv_content = (\<lambda>d. case md_tx d of Some (c, _) \<Rightarrow> c | None \<Rightarrow> md_durable d),
     tv_saves = (\<lambda>d. case md_tx d of Some (_, ss) \<Rightarrow> ss | None \<Rightarrow> []), tv_open = (\<lambda>d. md_tx d \<noteq> None),
     tv_plain = (\<lambda>_. True), tv_run = (\<lambda>_ _ c. (1, c + 1))\<rparr>"

lemma mem_sql_distinct [simp]: "SAVEPOINT \<noteq> RELEASE" "SAVEPOINT \<noteq> ROLLBACK" "RELEASE \<noteq> ROLLBACK"
  "RELEASE \<noteq> SAVEPOINT" "ROLLBACK \<noteq> SAVEPOINT" "ROLLBACK \<noteq> RELEASE"
  by (simp_all add: SAVEPOINT_def RELEASE_def ROLLBACK_def)

lemma mem_transactional: "transactional mem_engine mem_view"
  unfolding transactional_def
  by (intro conjI;
      auto simp: begin_law_def savepoint_law_def release_law_def rollback_law_def execute_law_def commit_law_def
        drop_law_def mem_engine_def mem_view_def mem_batch_def mem_execute_def mem_commit_def
        split: option.splits list.splits if_splits)

definition mem_jobs :: "nat GroupableWrite list" where
  "mem_jobs = (let st = (\<lambda>s. \<lparr>bs_sql = s, bs_parameters = []\<rparr>) in
     [\<lparr>gw_statements = [st ''ADD'', st ''ADD''], gw_response = 1\<rparr>,
      \<lparr>gw_statements = [st ''ADD'', st ''BAD''], gw_response = 2\<rparr>,
      \<lparr>gw_statements = [st ''ADD''], gw_response = 3\<rparr>])"

theorem group_commit_atomic_witness:
  "\<exists>g m d'. execute_group_commit mem_engine mem_jobs pool_metrics_default \<lparr>md_durable = 0, md_tx = None\<rparr> = (g, m, d') \<and>
     md_durable d' = 3 \<and> map snd (gc_responses g) = [Inr [1, 1], Inl (map_storage_error mem_failure), Inr [1]] \<and>
     replay mem_view (zip (map gw_statements mem_jobs) (map snd (gc_responses g))) 0 = Some 3"
proof -
  obtain g m d' where r: "execute_group_commit mem_engine mem_jobs pool_metrics_default \<lparr>md_durable = 0, md_tx = None\<rparr> = (g, m, d')"
    using prod_cases3 by blast
  have eval: "md_durable d' = 3 \<and> map snd (gc_responses g) = [Inr [1, 1], Inl (map_storage_error mem_failure), Inr [1]]"
    using r
    by (auto simp: execute_group_commit_def Let_def transaction_def map_err_st_def mem_engine_def mem_jobs_def
        execute_group_job_def execute_batch_def bind_st_def mem_batch_def execute_values_eq mem_execute_def
        finish_group_def commit_def mem_commit_def)
  have "replay mem_view (zip (map gw_statements mem_jobs) (map snd (gc_responses g))) 0 = Some (md_durable d')"
    using group_commit_atomic [OF mem_transactional _ _ r] by (simp add: mem_view_def plain_job_def)
  with r eval show ?thesis by auto
qed

end
