(* ===== verification/Record_Ops.thy ===== *)
theory Record_Ops
  imports Group_Commit Query
begin

text \<open>
  Collections and the operations on one record of \<^verbatim>\<open>csgdb/src/collection.rs\<close>, and the execution of compiled
  queries of \<^verbatim>\<open>csgdb/src/query.rs\<close>, over the engine argument of the storage adapter. Statements are compiled anew here; \<open>Connection_Ops\<close> has
  the operations as they go through the statement cache, and shows that it makes no difference.
\<close>

section \<open>Collections and records\<close>

record 'a Collection =
  co_schema :: CollectionSchema
  co_create_table_sql :: string
  co_insert_sql :: string
  co_select_by_key_sql :: string
  co_update_sql :: string
  co_delete_by_key_sql :: string
  co_create_index_sql :: "string list"
  co_values :: "'a \<Rightarrow> Value list result"
  co_from_row :: "SqlRow \<Rightarrow> 'a result"

definition execute_record :: "'db Engine \<Rightarrow> Statement \<Rightarrow> Value list \<Rightarrow> ('db, Error, nat) effect" where
  "execute_record eng stmt vs = statement_execute_values eng stmt vs"

definition query_record ::
  "'db Engine \<Rightarrow> 'a Collection \<Rightarrow> Statement \<Rightarrow> Value \<Rightarrow> ('db, Error, 'a option) effect" where
  "query_record eng C stmt key =
     bind_st (statement_query eng stmt [as_ref key]) (\<lambda>rows.
     lift_st (bind_result (fst (next_row rows)) (\<lambda>row.
       case row of None \<Rightarrow> Inr None | Some r \<Rightarrow> map_ok Some (co_from_row C r))))"

definition insert_record :: "'db Engine \<Rightarrow> 'a Collection \<Rightarrow> 'a \<Rightarrow> ('db, Error, nat) effect" where
  "insert_record eng C record =
     bind_st (lift_st (co_values C record)) (\<lambda>vs.
     bind_st (prepare eng (co_insert_sql C)) (\<lambda>stmt. execute_record eng stmt vs))"

definition get_record ::
  "'db Engine \<Rightarrow> 'a Collection \<Rightarrow> Value result \<Rightarrow> ('db, Error, 'a option) effect" where
  "get_record eng C key =
     bind_st (lift_st key) (\<lambda>k.
     bind_st (prepare eng (co_select_by_key_sql C)) (\<lambda>stmt. query_record eng C stmt k))"

definition update_record :: "'db Engine \<Rightarrow> 'a Collection \<Rightarrow> 'a \<Rightarrow> ('db, Error, nat) effect" where
  "update_record eng C record =
     bind_st (lift_st (bind_result (co_values C record) (update_values (co_schema C)))) (\<lambda>vs.
     bind_st (prepare eng (co_update_sql C)) (\<lambda>stmt. execute_record eng stmt vs))"

definition delete_record :: "'db Engine \<Rightarrow> 'a Collection \<Rightarrow> Value result \<Rightarrow> ('db, Error, nat) effect" where
  "delete_record eng C key =
     bind_st (lift_st key) (\<lambda>k.
     bind_st (prepare eng (co_delete_by_key_sql C)) (\<lambda>stmt. execute_record eng stmt [k]))"

text \<open>
  The loop \<^verbatim>\<open>while let Some(row) = rows.next_row()?\<close>: the body may skip a row, fail, or add to the list.
\<close>

fun collect_rows :: "(SqlRow \<Rightarrow> 'a option result) \<Rightarrow> Rows \<Rightarrow> 'a list \<Rightarrow> 'a list result" where
  "collect_rows body [] acc = Inr acc"
| "collect_rows body (Inl e # rows) acc = Inl (map_storage_error e)"
| "collect_rows body (Inr row # rows) acc =
     bind_result (body row) (\<lambda>x.
     collect_rows body rows (case x of None \<Rightarrow> acc | Some y \<Rightarrow> acc @ [y]))"

definition execute_query ::
  "'db Engine \<Rightarrow> 'a Collection \<Rightarrow> Statement \<Rightarrow> CollectionQuery \<Rightarrow> ('db, Error, 'a list) effect" where
  "execute_query eng C stmt query =
     bind_st (statement_query_values eng stmt (cq_values query)) (\<lambda>rows.
     lift_st (collect_rows (\<lambda>row. map_ok Some (co_from_row C row)) rows []))"

definition execute_exists_query ::
  "'db Engine \<Rightarrow> Statement \<Rightarrow> CollectionExistsQuery \<Rightarrow> ('db, Error, bool) effect" where
  "execute_exists_query eng stmt query =
     bind_st (statement_query_values eng stmt (ceq_values query)) (\<lambda>rows.
     lift_st (map_ok (\<lambda>row. row \<noteq> None) (fst (next_row rows))))"

definition query_collection ::
  "'db Engine \<Rightarrow> 'a Collection \<Rightarrow> CollectionQuery \<Rightarrow> ('db, Error, 'a list) effect" where
  "query_collection eng C query =
     bind_st (prepare eng (cq_sql query)) (\<lambda>stmt. execute_query eng C stmt query)"

definition collection_exists ::
  "'db Engine \<Rightarrow> CollectionExistsQuery \<Rightarrow> ('db, Error, bool) effect" where
  "collection_exists eng query =
     bind_st (prepare eng (ceq_sql query)) (\<lambda>stmt. execute_exists_query eng stmt query)"

end
