(* ===== verification/Registry.thy ===== *)
theory Registry
  imports Record_Ops
begin

text \<open>
  Collections in the database, from \<^verbatim>\<open>csgdb/src/collection.rs\<close>: the schema, index and migration registries kept in
  \<^verbatim>\<open>__csgdb_\<close> tables, registration with physical validation, and migrations. All of it runs on the
  statements and transactions of the storage adapter, so the engine stays an argument.
\<close>

section \<open>Statements of the registry\<close>

definition newline :: char where "newline = CHR 0x0A"

definition raw_lines :: "string list \<Rightarrow> string" where
  "raw_lines ls = newline # join [newline] ls @ [newline]"

definition SCHEMA_REGISTRY_SQL :: string where
  \<open>SCHEMA_REGISTRY_SQL = raw_lines
    [''CREATE TABLE IF NOT EXISTS "__csgdb_schema" ('',
     ''    "collection_id" TEXT NOT NULL PRIMARY KEY,'',
     ''    "table_name" TEXT NOT NULL UNIQUE,'',
     ''    "schema_version" INTEGER NOT NULL CHECK ("schema_version" > 0),'',
     ''    "fingerprint" BLOB NOT NULL CHECK (length("fingerprint") = 32),'',
     ''    "descriptor" TEXT NOT NULL'',
     '')'']\<close>

definition FIND_REGISTERED_SCHEMA_SQL :: string where
  \<open>FIND_REGISTERED_SCHEMA_SQL = raw_lines
    [''SELECT "table_name", "schema_version", "fingerprint", "descriptor"'',
     ''FROM "__csgdb_schema"'',
     ''WHERE "collection_id" = ?1'']\<close>

definition INSERT_REGISTERED_SCHEMA_SQL :: string where
  \<open>INSERT_REGISTERED_SCHEMA_SQL = raw_lines
    [''INSERT INTO "__csgdb_schema" ('',
     ''    "collection_id", "table_name", "schema_version", "fingerprint", "descriptor"'',
     '') VALUES (?1, ?2, ?3, ?4, ?5)'']\<close>

definition FIND_TABLE_OWNER_SQL :: string where
  \<open>FIND_TABLE_OWNER_SQL = raw_lines
    [''SELECT count(*)'',
     ''FROM "__csgdb_schema"'',
     ''WHERE "table_name" = ?1 AND "collection_id" <> ?2'']\<close>

definition TABLE_COLUMNS_SQL :: string where
  \<open>TABLE_COLUMNS_SQL = raw_lines
    [''SELECT "name", "type", "notnull", "pk"'',
     ''FROM pragma_table_info(?1)'',
     ''ORDER BY "name"'']\<close>

definition INDEX_REGISTRY_SQL :: string where
  \<open>INDEX_REGISTRY_SQL = raw_lines
    [''CREATE TABLE IF NOT EXISTS "__csgdb_index_schema" ('',
     ''    "collection_id" TEXT NOT NULL,'',
     ''    "index_id" TEXT NOT NULL,'',
     ''    "index_name" TEXT NOT NULL UNIQUE,'',
     ''    "is_unique" INTEGER NOT NULL CHECK ("is_unique" IN (0, 1)),'',
     ''    "fingerprint" BLOB NOT NULL CHECK (length("fingerprint") = 32),'',
     ''    "descriptor" TEXT NOT NULL,'',
     ''    PRIMARY KEY ("collection_id", "index_id"),'',
     ''    FOREIGN KEY ("collection_id") REFERENCES "__csgdb_schema" ("collection_id")'',
     '')'']\<close>

definition MIGRATION_REGISTRY_SQL :: string where
  \<open>MIGRATION_REGISTRY_SQL = raw_lines
    [''CREATE TABLE IF NOT EXISTS "__csgdb_migration" ('',
     ''    "collection_id" TEXT NOT NULL,'',
     ''    "migration_id" TEXT NOT NULL,'',
     ''    "from_version" INTEGER NOT NULL CHECK ("from_version" > 0),'',
     ''    "to_version" INTEGER NOT NULL CHECK ("to_version" > "from_version"),'',
     ''    "from_fingerprint" BLOB NOT NULL CHECK (length("from_fingerprint") = 32),'',
     ''    "to_fingerprint" BLOB NOT NULL CHECK (length("to_fingerprint") = 32),'',
     ''    PRIMARY KEY ("collection_id", "migration_id"),'',
     ''    FOREIGN KEY ("collection_id") REFERENCES "__csgdb_schema" ("collection_id")'',
     '')'']\<close>

definition FIND_REGISTERED_INDEXES_SQL :: string where
  \<open>FIND_REGISTERED_INDEXES_SQL = raw_lines
    [''SELECT "index_id", "index_name", "is_unique", "fingerprint", "descriptor"'',
     ''FROM "__csgdb_index_schema"'',
     ''WHERE "collection_id" = ?1'',
     ''ORDER BY "index_id"'']\<close>

definition INSERT_REGISTERED_INDEX_SQL :: string where
  \<open>INSERT_REGISTERED_INDEX_SQL = raw_lines
    [''INSERT INTO "__csgdb_index_schema" ('',
     ''    "collection_id", "index_id", "index_name", "is_unique", "fingerprint", "descriptor"'',
     '') VALUES (?1, ?2, ?3, ?4, ?5, ?6)'']\<close>

definition UPDATE_REGISTERED_SCHEMA_SQL :: string where
  \<open>UPDATE_REGISTERED_SCHEMA_SQL = raw_lines
    [''UPDATE "__csgdb_schema"'',
     ''SET "table_name" = ?2, "schema_version" = ?3, "fingerprint" = ?4, "descriptor" = ?5'',
     ''WHERE "collection_id" = ?1'']\<close>

definition FIND_MIGRATION_SQL :: string where
  \<open>FIND_MIGRATION_SQL = raw_lines
    [''SELECT "from_version", "to_version", "from_fingerprint", "to_fingerprint"'',
     ''FROM "__csgdb_migration"'',
     ''WHERE "collection_id" = ?1 AND "migration_id" = ?2'']\<close>

definition INSERT_MIGRATION_SQL :: string where
  \<open>INSERT_MIGRATION_SQL = raw_lines
    [''INSERT INTO "__csgdb_migration" ('',
     ''    "collection_id", "migration_id", "from_version", "to_version",'',
     ''    "from_fingerprint", "to_fingerprint"'',
     '') VALUES (?1, ?2, ?3, ?4, ?5, ?6)'']\<close>

definition PHYSICAL_INDEX_SQL :: string where
  \<open>PHYSICAL_INDEX_SQL = raw_lines
    [''SELECT "unique", "origin", "partial"'',
     ''FROM pragma_index_list(?1)'',
     ''WHERE "name" = ?2'']\<close>

definition PHYSICAL_INDEX_COLUMNS_SQL :: string where
  \<open>PHYSICAL_INDEX_COLUMNS_SQL = raw_lines
    [''SELECT coalesce("name", '' @ [CHR 0x27, CHR 0x27] @ ''), "desc", coalesce("coll", '' @
        [CHR 0x27, CHR 0x27] @ ''), "key"'',
     ''FROM pragma_index_xinfo(?1)'',
     ''ORDER BY "seqno"'']\<close>


definition DELETE_REGISTERED_INDEXES_SQL :: string where
  \<open>DELETE_REGISTERED_INDEXES_SQL = ''DELETE FROM "__csgdb_index_schema" WHERE "collection_id" = ?1''\<close>

definition SCHEMA_REGISTRY_EXISTS_SQL :: string where
  \<open>SCHEMA_REGISTRY_EXISTS_SQL =
     ''SELECT count(*) FROM sqlite_schema WHERE type = '' @ [CHR 0x27] @ ''table'' @ [CHR 0x27] @
     '' AND name = '' @ [CHR 0x27] @ ''__csgdb_schema'' @ [CHR 0x27]\<close>

section \<open>Errors\<close>

definition schema_mismatch :: Error where
  "schema_mismatch = Error SchemaMismatch ''collection schema does not match the registered database schema''"

definition invalid_migration :: Error where
  "invalid_migration = Error InvalidMigration ''collection migration endpoints or identifier are invalid''"

definition migration_mismatch :: Error where
  "migration_mismatch =
     Error MigrationMismatch ''collection migration does not match the registered database state''"

section \<open>Reading the registries\<close>

record RegisteredSchema =
  rs_collection_id :: string
  rs_table_name :: string
  rs_version :: u32
  rs_fingerprint :: SchemaFingerprint
  rs_canonical_descriptor :: string

datatype SchemaRegistration = Created | AlreadyRegistered
datatype MigrationStatus = Applied | AlreadyApplied

record RegisteredIndex =
  ri_id :: string
  ri_name :: string
  ri_unique :: bool
  ri_fingerprint :: SchemaFingerprint
  ri_descriptor :: string

record RegisteredMigration =
  rm_from_version :: u32
  rm_to_version :: u32
  rm_from_fingerprint :: SchemaFingerprint
  rm_to_fingerprint :: SchemaFingerprint

definition try_u32 :: "i64 \<Rightarrow> u32 option" where
  "try_u32 v = (if 0 \<le> sint v \<and> sint v < 2 ^ 32 then Some (ucast v) else None)"

definition fingerprint_from_slice :: "u8 list \<Rightarrow> SchemaFingerprint result" where
  "fingerprint_from_slice bytes =
     (if length bytes = 32 then Inr (SchemaFingerprint bytes) else Inl schema_mismatch)"

definition decode_registered_schema :: "string \<Rightarrow> SqlRow \<Rightarrow> RegisteredSchema result" where
  "decode_registered_schema collection_id row =
     bind_result (get_text row 0) (\<lambda>table_name.
     bind_result (bind_result (get_i64 row 1) (\<lambda>v. ok_or schema_mismatch (try_u32 v))) (\<lambda>version.
     bind_result (bind_result (get_blob row 2) fingerprint_from_slice) (\<lambda>fingerprint.
     bind_result (get_text row 3) (\<lambda>canonical_descriptor.
     if \<not> valid_name table_name \<or> version = 0 \<or> canonical_descriptor = []
     then Inl schema_mismatch
     else Inr \<lparr>rs_collection_id = collection_id, rs_table_name = table_name, rs_version = version,
            rs_fingerprint = fingerprint, rs_canonical_descriptor = canonical_descriptor\<rparr>))))"

definition query_registered_schema ::
  "'db Engine \<Rightarrow> Statement \<Rightarrow> string \<Rightarrow> ('db, Error, RegisteredSchema option) effect" where
  "query_registered_schema eng stmt collection_id =
     bind_st (statement_query eng stmt [RText collection_id]) (\<lambda>rows.
     lift_st (bind_result (fst (next_row rows)) (\<lambda>row.
       case row of None \<Rightarrow> Inr None | Some r \<Rightarrow> map_ok Some (decode_registered_schema collection_id r))))"

definition find_registered_schema ::
  "'db Engine \<Rightarrow> string \<Rightarrow> ('db, Error, RegisteredSchema option) effect" where
  "find_registered_schema eng collection_id =
     bind_st (prepare eng FIND_REGISTERED_SCHEMA_SQL) (\<lambda>stmt. query_registered_schema eng stmt collection_id)"

definition decode_registered_index :: "SqlRow \<Rightarrow> RegisteredIndex option result" where
  "decode_registered_index row =
     bind_result (bind_result (get_i64 row 2) (\<lambda>v.
       if v = 0 then Inr False else if v = 1 then Inr True else Inl schema_mismatch)) (\<lambda>unique.
     bind_result (get_text row 0) (\<lambda>id'.
     bind_result (get_text row 1) (\<lambda>name.
     bind_result (bind_result (get_blob row 3) fingerprint_from_slice) (\<lambda>fingerprint.
     bind_result (get_text row 4) (\<lambda>descriptor.
     if \<not> valid_name id' \<or> \<not> valid_name name \<or> starts_with name RESERVED_PREFIX \<or> descriptor = []
     then Inl schema_mismatch
     else Inr (Some \<lparr>ri_id = id', ri_name = name, ri_unique = unique, ri_fingerprint = fingerprint,
            ri_descriptor = descriptor\<rparr>))))))"

definition registered_indexes :: "'db Engine \<Rightarrow> string \<Rightarrow> ('db, Error, RegisteredIndex list) effect" where
  "registered_indexes eng collection_id =
     bind_st (prepare eng FIND_REGISTERED_INDEXES_SQL) (\<lambda>stmt.
     bind_st (statement_query eng stmt [RText collection_id]) (\<lambda>rows.
     lift_st (collect_rows decode_registered_index rows [])))"

definition index_registered_as :: "RegisteredIndex \<Rightarrow> IndexSchema \<Rightarrow> bool" where
  "index_registered_as actual expected \<longleftrightarrow>
     ri_id actual = ix_id expected \<and> ri_name actual = ix_name expected \<and>
     ri_unique actual = ix_unique expected \<and> ri_fingerprint actual = ix_fingerprint expected \<and>
     ri_descriptor actual = ix_canonical_descriptor expected"

definition validate_registered_indexes :: "'db Engine \<Rightarrow> CollectionSchema \<Rightarrow> ('db, Error, unit) effect" where
  "validate_registered_indexes eng schema =
     bind_st (registered_indexes eng (cs_id schema)) (\<lambda>actual.
     let expected = sort_key ix_id (cs_indexes schema) in
     if length actual \<noteq> length expected then fail_st schema_mismatch
     else lift_st (for_each (\<lambda>(a, e) _. if index_registered_as a e then Inr () else Inl schema_mismatch)
            (zip actual expected) ()))"

section \<open>Writing the registries\<close>

definition initialize_schema_registries :: "'db Engine \<Rightarrow> ('db, Error, unit) effect" where
  "initialize_schema_registries eng =
     bind_st (execute_batch eng SCHEMA_REGISTRY_SQL) (\<lambda>_.
     bind_st (execute_batch eng INDEX_REGISTRY_SQL) (\<lambda>_.
     execute_batch eng MIGRATION_REGISTRY_SQL))"

definition schema_parameters :: "CollectionSchema \<Rightarrow> ValueRef list" where
  "schema_parameters schema =
     [RText (cs_id schema), RText (cs_table schema), RInteger (ucast (cs_version schema)),
      RBlob (fp_bytes (cs_fingerprint schema)), RText (cs_canonical_descriptor schema)]"

definition insert_registered_schema :: "'db Engine \<Rightarrow> CollectionSchema \<Rightarrow> ('db, Error, unit) effect" where
  "insert_registered_schema eng schema =
     bind_st (execute eng INSERT_REGISTERED_SCHEMA_SQL (schema_parameters schema)) (\<lambda>_. ret_st ())"

definition update_registered_schema :: "'db Engine \<Rightarrow> CollectionSchema \<Rightarrow> ('db, Error, unit) effect" where
  "update_registered_schema eng schema =
     bind_st (execute eng UPDATE_REGISTERED_SCHEMA_SQL (schema_parameters schema)) (\<lambda>changed.
     if changed = 1 then ret_st () else fail_st migration_mismatch)"

definition index_parameters :: "CollectionSchema \<Rightarrow> IndexSchema \<Rightarrow> ValueRef list" where
  "index_parameters schema index =
     [RText (cs_id schema), RText (ix_id index), RText (ix_name index),
      RInteger (if ix_unique index then 1 else 0), RBlob (fp_bytes (ix_fingerprint index)),
      RText (ix_canonical_descriptor index)]"

definition insert_registered_indexes :: "'db Engine \<Rightarrow> CollectionSchema \<Rightarrow> ('db, Error, unit) effect" where
  "insert_registered_indexes eng schema =
     for_st (\<lambda>index. bind_st (execute eng INSERT_REGISTERED_INDEX_SQL (index_parameters schema index)) (\<lambda>_. ret_st ()))
       (cs_indexes schema)"

definition replace_registered_indexes :: "'db Engine \<Rightarrow> CollectionSchema \<Rightarrow> ('db, Error, unit) effect" where
  "replace_registered_indexes eng schema =
     bind_st (execute eng DELETE_REGISTERED_INDEXES_SQL [RText (cs_id schema)]) (\<lambda>_.
     insert_registered_indexes eng schema)"

definition create_declared_indexes :: "'db Engine \<Rightarrow> 'a Collection \<Rightarrow> ('db, Error, unit) effect" where
  "create_declared_indexes eng C =
     (if length (co_create_index_sql C) \<noteq> length (cs_indexes (co_schema C)) then fail_st invalid_schema
      else for_st (execute_batch eng) (co_create_index_sql C))"

definition quote_sql_identifier :: "string \<Rightarrow> string" where
  "quote_sql_identifier v = dquote # replace_dquote v @ [dquote]"

definition index_retained :: "IndexSchema \<Rightarrow> IndexSchema list \<Rightarrow> bool" where
  "index_retained old news \<longleftrightarrow>
     (\<exists>new \<in> set news. ix_id old = ix_id new \<and> ix_name old = ix_name new \<and>
        ix_fingerprint old = ix_fingerprint new \<and> ix_canonical_descriptor old = ix_canonical_descriptor new)"

definition replace_declared_indexes ::
  "'db Engine \<Rightarrow> 'a Collection \<Rightarrow> 'b Collection \<Rightarrow> ('db, Error, unit) effect" where
  "replace_declared_indexes eng From To =
     bind_st (for_st (\<lambda>old.
         if \<not> index_retained old (cs_indexes (co_schema To))
         then execute_batch eng (''DROP INDEX IF EXISTS '' @ quote_sql_identifier (ix_name old))
         else ret_st ()) (cs_indexes (co_schema From))) (\<lambda>_.
     create_declared_indexes eng To)"

definition decode_migration :: "Rows \<Rightarrow> SqlRow \<Rightarrow> RegisteredMigration result" where
  "decode_migration rest row =
     bind_result (bind_result (get_i64 row 0) (\<lambda>v. ok_or migration_mismatch (try_u32 v))) (\<lambda>from_version.
     bind_result (bind_result (get_i64 row 1) (\<lambda>v. ok_or migration_mismatch (try_u32 v))) (\<lambda>to_version.
     bind_result (bind_result (get_blob row 2) fingerprint_from_slice) (\<lambda>from_fingerprint.
     bind_result (bind_result (get_blob row 3) fingerprint_from_slice) (\<lambda>to_fingerprint.
     bind_result (fst (next_row rest)) (\<lambda>more_rows.
     if more_rows \<noteq> None then Inl migration_mismatch
     else Inr \<lparr>rm_from_version = from_version, rm_to_version = to_version,
            rm_from_fingerprint = from_fingerprint, rm_to_fingerprint = to_fingerprint\<rparr>)))))"

definition find_migration ::
  "'db Engine \<Rightarrow> string \<Rightarrow> string \<Rightarrow> ('db, Error, RegisteredMigration option) effect" where
  "find_migration eng collection_id migration_id =
     bind_st (prepare eng FIND_MIGRATION_SQL) (\<lambda>stmt.
     bind_st (statement_query eng stmt [RText collection_id, RText migration_id]) (\<lambda>rows.
     lift_st (case next_row rows of
        (Inl e, _) \<Rightarrow> Inl e
      | (Inr None, _) \<Rightarrow> Inr None
      | (Inr (Some row), rest) \<Rightarrow> map_ok Some (decode_migration rest row))))"

definition migration_parameters :: "string \<Rightarrow> CollectionSchema \<Rightarrow> CollectionSchema \<Rightarrow> ValueRef list" where
  "migration_parameters migration_id from to =
     [RText (cs_id from), RText migration_id, RInteger (ucast (cs_version from)),
      RInteger (ucast (cs_version to)), RBlob (fp_bytes (cs_fingerprint from)),
      RBlob (fp_bytes (cs_fingerprint to))]"

definition insert_migration ::
  "'db Engine \<Rightarrow> string \<Rightarrow> CollectionSchema \<Rightarrow> CollectionSchema \<Rightarrow> ('db, Error, unit) effect" where
  "insert_migration eng migration_id from to =
     bind_st (execute eng INSERT_MIGRATION_SQL (migration_parameters migration_id from to)) (\<lambda>_. ret_st ())"

definition ensure_migration_matches ::
  "RegisteredMigration \<Rightarrow> CollectionSchema \<Rightarrow> CollectionSchema \<Rightarrow> unit result" where
  "ensure_migration_matches actual from to =
     (if rm_from_version actual = cs_version from \<and> rm_to_version actual = cs_version to \<and>
         rm_from_fingerprint actual = cs_fingerprint from \<and> rm_to_fingerprint actual = cs_fingerprint to
      then Inr () else Inl migration_mismatch)"

definition ensure_table_is_unclaimed :: "'db Engine \<Rightarrow> CollectionSchema \<Rightarrow> ('db, Error, unit) effect" where
  "ensure_table_is_unclaimed eng schema =
     bind_st (prepare eng FIND_TABLE_OWNER_SQL) (\<lambda>stmt.
     bind_st (statement_query eng stmt [RText (cs_table schema), RText (cs_id schema)]) (\<lambda>rows.
     lift_st (bind_result (fst (next_row rows)) (\<lambda>row.
       case row of
         None \<Rightarrow> Inl schema_mismatch
       | Some r \<Rightarrow> bind_result (get_i64 r 0) (\<lambda>n. if n = 0 then Inr () else Inl schema_mismatch)))))"

definition ensure_registered_schema_matches :: "CollectionSchema \<Rightarrow> RegisteredSchema \<Rightarrow> unit result" where
  "ensure_registered_schema_matches expected registered =
     (if rs_collection_id registered = cs_id expected \<and> rs_table_name registered = cs_table expected \<and>
         rs_version registered = cs_version expected \<and> rs_fingerprint registered = cs_fingerprint expected \<and>
         rs_canonical_descriptor registered = cs_canonical_descriptor expected
      then Inr () else Inl schema_mismatch)"

section \<open>Physical validation\<close>

record PhysicalColumn =
  pc_name :: string
  pc_declared_type :: string
  pc_not_null :: bool
  pc_primary_key :: bool

definition decode_physical_column :: "SqlRow \<Rightarrow> PhysicalColumn option result" where
  "decode_physical_column row =
     bind_result (get_text row 0) (\<lambda>name.
     bind_result (get_text row 1) (\<lambda>declared_type.
     bind_result (get_i64 row 2) (\<lambda>not_null.
     bind_result (get_i64 row 3) (\<lambda>pk.
     Inr (Some \<lparr>pc_name = name, pc_declared_type = declared_type, pc_not_null = (not_null \<noteq> 0),
       pc_primary_key = (pk \<noteq> 0)\<rparr>)))))"

definition check_physical_column :: "PhysicalColumn list \<Rightarrow> FieldSchema \<Rightarrow> unit \<Rightarrow> unit result" where
  "check_physical_column actual expected _ =
     (case find (\<lambda>column. pc_name column = fs_column expected) actual of
        None \<Rightarrow> Inl schema_mismatch
      | Some column \<Rightarrow>
          let expected_not_null = \<not> fs_nullable expected in
          if \<not> eq_ignore_ascii_case (pc_declared_type column) (sql_name (fs_column_type expected)) \<or>
             pc_not_null column \<noteq> expected_not_null \<or> pc_primary_key column \<noteq> fs_primary_key expected
          then Inl schema_mismatch else Inr ())"

definition validate_physical_table :: "'db Engine \<Rightarrow> CollectionSchema \<Rightarrow> ('db, Error, unit) effect" where
  "validate_physical_table eng schema =
     bind_st (prepare eng TABLE_COLUMNS_SQL) (\<lambda>stmt.
     bind_st (statement_query eng stmt [RText (cs_table schema)]) (\<lambda>rows.
     lift_st (bind_result (collect_rows decode_physical_column rows []) (\<lambda>actual.
       if length actual \<noteq> length (cs_fields schema) then Inl schema_mismatch
       else for_each (check_physical_column actual) (cs_fields schema) ()))))"

definition index_column_row :: "SqlRow \<Rightarrow> string option result" where
  "index_column_row row =
     bind_result (get_i64 row 3) (\<lambda>key.
     if key = 0 then Inr None
     else
       bind_result (get_text row 0) (\<lambda>name.
       bind_result (get_i64 row 1) (\<lambda>desc.
       bind_result (get_text row 2) (\<lambda>collation.
       if name = [] \<or> desc \<noteq> 0 \<or> \<not> eq_ignore_ascii_case collation ''BINARY''
       then Inl schema_mismatch else Inr (Some name)))))"

definition check_index_row :: "IndexSchema \<Rightarrow> Rows \<Rightarrow> unit result" where
  "check_index_row expected rows =
     (case next_row rows of
        (Inl e, _) \<Rightarrow> Inl e
      | (Inr None, _) \<Rightarrow> Inl schema_mismatch
      | (Inr (Some row), rest) \<Rightarrow>
          bind_result (get_i64 row 0) (\<lambda>unique.
          bind_result (get_text row 1) (\<lambda>origin.
          bind_result (get_i64 row 2) (\<lambda>partial.
          if (unique \<noteq> 0) \<noteq> ix_unique expected \<or> origin \<noteq> ''c'' \<or> partial \<noteq> 0 then Inl schema_mismatch
          else bind_result (fst (next_row rest)) (\<lambda>another.
            if another \<noteq> None then Inl schema_mismatch else Inr ())))))"

definition validate_physical_index ::
  "'db Engine \<Rightarrow> string \<Rightarrow> IndexSchema \<Rightarrow> ('db, Error, unit) effect" where
  "validate_physical_index eng table expected =
     bind_st (prepare eng PHYSICAL_INDEX_SQL) (\<lambda>stmt.
     bind_st (statement_query eng stmt [RText table, RText (ix_name expected)]) (\<lambda>rows.
     bind_st (lift_st (check_index_row expected rows)) (\<lambda>_.
     bind_st (prepare eng PHYSICAL_INDEX_COLUMNS_SQL) (\<lambda>stmt.
     bind_st (statement_query eng stmt [RText (ix_name expected)]) (\<lambda>rows.
     lift_st (bind_result (collect_rows index_column_row rows []) (\<lambda>columns.
       if columns = ix_columns expected then Inr () else Inl schema_mismatch)))))))"

definition validate_physical_indexes :: "'db Engine \<Rightarrow> CollectionSchema \<Rightarrow> ('db, Error, unit) effect" where
  "validate_physical_indexes eng schema =
     for_st (validate_physical_index eng (cs_table schema)) (cs_indexes schema)"

section \<open>Registration and migration\<close>

text \<open>
  A transaction value: an error in the body drops it, which rolls back; success commits it.
\<close>

definition in_transaction :: "'db Engine \<Rightarrow> ('db, Error, 'a) effect \<Rightarrow> ('db, Error, 'a) effect" where
  "in_transaction eng body =
     bind_st (transaction eng) (\<lambda>_ db.
       case body db of
         (Inl e, db') \<Rightarrow> (Inl e, e_drop_transaction eng db')
       | (Inr x, db') \<Rightarrow> bind_st (commit eng) (\<lambda>_. ret_st x) db')"

definition register_body :: "'db Engine \<Rightarrow> 'a Collection \<Rightarrow> ('db, Error, SchemaRegistration) effect" where
  "register_body eng C =
     (let schema = co_schema C in
      bind_st (initialize_schema_registries eng) (\<lambda>_.
      bind_st (find_registered_schema eng (cs_id schema)) (\<lambda>existing.
      bind_st (case existing of
          Some existing \<Rightarrow>
            bind_st (lift_st (ensure_registered_schema_matches schema existing)) (\<lambda>_.
            bind_st (validate_registered_indexes eng schema) (\<lambda>_.
            ret_st AlreadyRegistered))
        | None \<Rightarrow>
            bind_st (ensure_table_is_unclaimed eng schema) (\<lambda>_.
            bind_st (execute_batch eng (co_create_table_sql C)) (\<lambda>_.
            bind_st (insert_registered_schema eng schema) (\<lambda>_.
            bind_st (create_declared_indexes eng C) (\<lambda>_.
            bind_st (insert_registered_indexes eng schema) (\<lambda>_.
            ret_st Created)))))) (\<lambda>registration.
      bind_st (validate_physical_table eng schema) (\<lambda>_.
      bind_st (validate_physical_indexes eng schema) (\<lambda>_.
      ret_st registration))))))"

definition register_collection :: "'db Engine \<Rightarrow> 'a Collection \<Rightarrow> ('db, Error, SchemaRegistration) effect" where
  "register_collection eng C =
     bind_st (lift_st (validate_collection_schema (co_schema C))) (\<lambda>_.
     in_transaction eng (register_body eng C))"

definition validate_migration :: "CollectionSchema \<Rightarrow> CollectionSchema \<Rightarrow> string \<Rightarrow> unit result" where
  "validate_migration from to migration_id =
     bind_result (validate_collection_schema from) (\<lambda>_.
     bind_result (validate_collection_schema to) (\<lambda>_.
     if \<not> valid_name migration_id \<or> cs_id from \<noteq> cs_id to \<or> cs_version to \<le> cs_version from \<or>
        cs_fingerprint from = cs_fingerprint to
     then Inl invalid_migration else Inr ()))"

definition recheck_migration ::
  "'db Engine \<Rightarrow> RegisteredMigration \<Rightarrow> CollectionSchema \<Rightarrow> CollectionSchema \<Rightarrow> ('db, Error, MigrationStatus) effect" where
  "recheck_migration eng migration from to =
     (let mismatch = (\<lambda>_. migration_mismatch) in
      bind_st (lift_st (ensure_migration_matches migration from to)) (\<lambda>_.
      bind_st (bind_st (find_registered_schema eng (cs_id from)) (\<lambda>r. lift_st (ok_or migration_mismatch r))) (\<lambda>current.
      bind_st (lift_st (map_err mismatch (ensure_registered_schema_matches to current))) (\<lambda>_.
      bind_st (map_err_st mismatch (validate_registered_indexes eng to)) (\<lambda>_.
      bind_st (map_err_st mismatch (validate_physical_table eng to)) (\<lambda>_.
      bind_st (map_err_st mismatch (validate_physical_indexes eng to)) (\<lambda>_.
      ret_st AlreadyApplied)))))))"

definition apply_migration ::
  "'db Engine \<Rightarrow> 'a Collection \<Rightarrow> 'b Collection \<Rightarrow> string \<Rightarrow> ('db, Error, unit) effect \<Rightarrow> ('db, Error, MigrationStatus) effect" where
  "apply_migration eng From To migration_id operation =
     (let from = co_schema From; to = co_schema To; mismatch = (\<lambda>_. migration_mismatch) in
      bind_st (bind_st (find_registered_schema eng (cs_id from)) (\<lambda>r. lift_st (ok_or migration_mismatch r))) (\<lambda>current.
      bind_st (lift_st (map_err mismatch (ensure_registered_schema_matches from current))) (\<lambda>_.
      bind_st (map_err_st mismatch (validate_registered_indexes eng from)) (\<lambda>_.
      bind_st (validate_physical_table eng from) (\<lambda>_.
      bind_st (validate_physical_indexes eng from) (\<lambda>_.
      bind_st operation (\<lambda>_.
      bind_st (ensure_table_is_unclaimed eng to) (\<lambda>_.
      bind_st (validate_physical_table eng to) (\<lambda>_.
      bind_st (replace_declared_indexes eng From To) (\<lambda>_.
      bind_st (validate_physical_indexes eng to) (\<lambda>_.
      bind_st (update_registered_schema eng to) (\<lambda>_.
      bind_st (replace_registered_indexes eng to) (\<lambda>_.
      bind_st (insert_migration eng migration_id from to) (\<lambda>_.
      ret_st Applied))))))))))))))"

definition migrate_body ::
  "'db Engine \<Rightarrow> 'a Collection \<Rightarrow> 'b Collection \<Rightarrow> string \<Rightarrow> ('db, Error, unit) effect \<Rightarrow> ('db, Error, MigrationStatus) effect" where
  "migrate_body eng From To migration_id operation =
     bind_st (initialize_schema_registries eng) (\<lambda>_.
     bind_st (find_migration eng (cs_id (co_schema From)) migration_id) (\<lambda>found.
     case found of
       Some migration \<Rightarrow> recheck_migration eng migration (co_schema From) (co_schema To)
     | None \<Rightarrow> apply_migration eng From To migration_id operation))"

definition migrate_collection ::
  "'db Engine \<Rightarrow> 'a Collection \<Rightarrow> 'b Collection \<Rightarrow> string \<Rightarrow> ('db, Error, unit) effect \<Rightarrow> ('db, Error, MigrationStatus) effect" where
  "migrate_collection eng From To migration_id operation =
     bind_st (lift_st (validate_migration (co_schema From) (co_schema To) migration_id)) (\<lambda>_.
     in_transaction eng (migrate_body eng From To migration_id operation))"

definition schema_registry_exists :: "'db Engine \<Rightarrow> ('db, Error, bool) effect" where
  "schema_registry_exists eng =
     bind_st (query_i64 eng SCHEMA_REGISTRY_EXISTS_SQL) (\<lambda>n. ret_st (n = 1))"

definition registered_schema :: "'db Engine \<Rightarrow> string \<Rightarrow> ('db, Error, RegisteredSchema option) effect" where
  "registered_schema eng collection_id =
     (if \<not> valid_name collection_id then fail_st invalid_schema
      else
        bind_st (schema_registry_exists eng) (\<lambda>exists.
        if \<not> exists then ret_st None
        else bind_st (prepare eng FIND_REGISTERED_SCHEMA_SQL) (\<lambda>stmt.
          query_registered_schema eng stmt collection_id)))"

end
