(* ===== verification/Derive.thy ===== *)
theory Derive
  imports Registry
begin

text \<open>
  The derive macro of \<^verbatim>\<open>csgdb-derive/src/lib.rs\<close>: reading the \<^verbatim>\<open>csgdb\<close> attributes, validating
  names, classifying field types, and producing the schema, the canonical descriptors that are
  fingerprinted, and the SQL constants of a collection. The syntax tree of \<^verbatim>\<open>syn\<close> is kept as far as the
  macro looks at it. SHA-256, the case conversion of Unicode text and the test for a Rust path are arguments
  (\<open>derive_env\<close>).
\<close>

section \<open>The input\<close>

datatype Type = TypePath bool "PathSegment list" | TypeOther
  and PathSegment = PathSegment string PathArguments
  and PathArguments = NoArguments | AngleBracketed "GenericArgument list" | Parenthesized
  and GenericArgument = TypeArgument Type | OtherArgument

text \<open>
  One entry of an attribute list: a path, and what follows it up to the next comma. \<open>OtherValue\<close> is anything
  that is neither one string literal, nor one integer literal, nor a parenthesised list.
\<close>

datatype Meta = Meta (meta_path: string) (meta_value: MetaValue)
  and MetaValue = NoValue | StrValue string | IntValue nat | OtherValue | Nested "Meta list"

record Attribute =
  at_path :: string
  at_content :: MetaValue

record Field =
  fd_ident :: string
  fd_attrs :: "Attribute list"
  fd_ty :: Type

datatype Data = StructNamed "Field list" | StructOther | NotStruct

record DeriveInput =
  di_ident :: string
  di_generic :: bool
  di_attrs :: "Attribute list"
  di_data :: Data

text \<open>An error of the macro with its message, or an error reported by the parser itself.\<close>

datatype DeriveError = CompileError string | SynError

type_synonym 'a derived = "DeriveError + 'a"

record derive_env =
  de_sha256 :: "u8 list \<Rightarrow> u8 list"
  de_to_uppercase :: "string \<Rightarrow> string"
  de_is_path :: "string \<Rightarrow> bool"

section \<open>Attributes\<close>

record IndexAttributes =
  ia_id :: "string option"
  ia_name :: "string option"
  ia_fields :: "string list"
  ia_unique :: bool

record CollectionAttributes =
  ca_id :: "string option"
  ca_table :: "string option"
  ca_version :: "nat option"
  ca_crate_path :: "string option"
  ca_indexes :: "IndexAttributes list"

record FieldAttributes =
  fa_id :: "string option"
  fa_column :: "string option"
  fa_primary_key :: bool

definition index_attributes_default :: IndexAttributes where
  "index_attributes_default = \<lparr>ia_id = None, ia_name = None, ia_fields = [], ia_unique = False\<rparr>"

definition collection_attributes_default :: CollectionAttributes where
  "collection_attributes_default =
     \<lparr>ca_id = None, ca_table = None, ca_version = None, ca_crate_path = None, ca_indexes = []\<rparr>"

definition field_attributes_default :: FieldAttributes where
  "field_attributes_default = \<lparr>fa_id = None, fa_column = None, fa_primary_key = False\<rparr>"

definition set_once :: "string option \<Rightarrow> string \<Rightarrow> string option derived" where
  "set_once destination v =
     (if destination \<noteq> None then Inl (CompileError ''duplicate csgdb attribute'') else Inr (Some v))"

text \<open>\<^verbatim>\<open>meta.value()?.parse()?\<close> at the two literal types, and the comma or end expected after a flag.\<close>

definition parse_str :: "MetaValue \<Rightarrow> string derived" where
  "parse_str v = (case v of StrValue s \<Rightarrow> Inr s | _ \<Rightarrow> Inl SynError)"

definition parse_int :: "MetaValue \<Rightarrow> nat derived" where
  "parse_int v = (case v of IntValue n \<Rightarrow> Inr n | _ \<Rightarrow> Inl SynError)"

definition end_of_meta :: "MetaValue \<Rightarrow> unit derived" where
  "end_of_meta v = (case v of NoValue \<Rightarrow> Inr () | _ \<Rightarrow> Inl SynError)"

definition nested_metas :: "MetaValue \<Rightarrow> Meta list derived" where
  "nested_metas v = (case v of Nested ms \<Rightarrow> Inr ms | _ \<Rightarrow> Inl SynError)"

definition index_meta :: "Meta \<Rightarrow> IndexAttributes \<Rightarrow> IndexAttributes derived" where
  "index_meta nested index =
     (if meta_path nested = ''id'' then
        bind_result (parse_str (meta_value nested)) (\<lambda>v.
        bind_result (set_once (ia_id index) v) (\<lambda>x. Inr (index\<lparr>ia_id := x\<rparr>)))
      else if meta_path nested = ''name'' then
        bind_result (parse_str (meta_value nested)) (\<lambda>v.
        bind_result (set_once (ia_name index) v) (\<lambda>x. Inr (index\<lparr>ia_name := x\<rparr>)))
      else if meta_path nested = ''field'' then
        bind_result (parse_str (meta_value nested)) (\<lambda>v. Inr (index\<lparr>ia_fields := ia_fields index @ [v]\<rparr>))
      else if meta_path nested = ''unique'' then
        (if ia_unique index then Inl (CompileError ''duplicate csgdb index unique'')
         else bind_result (end_of_meta (meta_value nested)) (\<lambda>_. Inr (index\<lparr>ia_unique := True\<rparr>)))
      else Inl (CompileError ''unsupported csgdb index attribute''))"

definition collection_meta :: "Meta \<Rightarrow> CollectionAttributes \<Rightarrow> CollectionAttributes derived" where
  "collection_meta meta result =
     (if meta_path meta = ''collection'' then
        bind_result (parse_str (meta_value meta)) (\<lambda>v.
        bind_result (set_once (ca_id result) v) (\<lambda>x. Inr (result\<lparr>ca_id := x\<rparr>)))
      else if meta_path meta = ''table'' then
        bind_result (parse_str (meta_value meta)) (\<lambda>v.
        bind_result (set_once (ca_table result) v) (\<lambda>x. Inr (result\<lparr>ca_table := x\<rparr>)))
      else if meta_path meta = ''version'' then
        (if ca_version result \<noteq> None then Inl (CompileError ''duplicate csgdb version'')
         else bind_result (parse_int (meta_value meta)) (\<lambda>v. Inr (result\<lparr>ca_version := Some v\<rparr>)))
      else if meta_path meta = ''crate'' then
        bind_result (parse_str (meta_value meta)) (\<lambda>v.
        bind_result (set_once (ca_crate_path result) v) (\<lambda>x. Inr (result\<lparr>ca_crate_path := x\<rparr>)))
      else if meta_path meta = ''index'' then
        bind_result (nested_metas (meta_value meta)) (\<lambda>nested.
        bind_result (for_each index_meta nested index_attributes_default) (\<lambda>index.
        Inr (result\<lparr>ca_indexes := ca_indexes result @ [index]\<rparr>)))
      else Inl (CompileError ''unsupported csgdb collection attribute''))"

definition field_meta :: "Meta \<Rightarrow> FieldAttributes \<Rightarrow> FieldAttributes derived" where
  "field_meta meta result =
     (if meta_path meta = ''id'' then
        bind_result (parse_str (meta_value meta)) (\<lambda>v.
        bind_result (set_once (fa_id result) v) (\<lambda>x. Inr (result\<lparr>fa_id := x\<rparr>)))
      else if meta_path meta = ''column'' then
        bind_result (parse_str (meta_value meta)) (\<lambda>v.
        bind_result (set_once (fa_column result) v) (\<lambda>x. Inr (result\<lparr>fa_column := x\<rparr>)))
      else if meta_path meta = ''primary_key'' then
        (if fa_primary_key result then Inl (CompileError ''duplicate csgdb primary_key'')
         else bind_result (end_of_meta (meta_value meta)) (\<lambda>_. Inr (result\<lparr>fa_primary_key := True\<rparr>)))
      else Inl (CompileError ''unsupported csgdb field attribute''))"

definition csgdb_attribute :: "(Meta \<Rightarrow> 'a \<Rightarrow> 'a derived) \<Rightarrow> Attribute \<Rightarrow> 'a \<Rightarrow> 'a derived" where
  "csgdb_attribute closure attribute result =
     (if at_path attribute \<noteq> ''csgdb'' then Inr result
      else bind_result (nested_metas (at_content attribute)) (\<lambda>metas. for_each closure metas result))"

definition parse_collection_attributes :: "DeriveInput \<Rightarrow> CollectionAttributes derived" where
  "parse_collection_attributes input =
     for_each (csgdb_attribute collection_meta) (di_attrs input) collection_attributes_default"

definition parse_field_attributes :: "Field \<Rightarrow> FieldAttributes derived" where
  "parse_field_attributes field =
     for_each (csgdb_attribute field_meta) (fd_attrs field) field_attributes_default"

definition required_string :: "string option \<Rightarrow> string \<Rightarrow> string derived" where
  "required_string v name = ok_or (CompileError (''missing csgdb '' @ name)) v"

definition validate_stable_name :: "string \<Rightarrow> string \<Rightarrow> unit derived" where
  "validate_stable_name v kind =
     (if v = [] \<or> length v > 255 \<or> CHR 0x00 \<in> set v
      then Inl (CompileError (''csgdb '' @ kind @ '' must contain 1 to 255 non-NUL bytes''))
      else Inr ())"

definition validate_sql_name :: "string \<Rightarrow> string \<Rightarrow> unit derived" where
  "validate_sql_name v kind =
     bind_result (validate_stable_name v kind) (\<lambda>_.
     if kind = ''table'' \<and> starts_with v RESERVED_PREFIX
     then Inl (CompileError ''table names beginning with __csgdb_ are reserved'')
     else Inr ())"

section \<open>Field types\<close>

definition generic_inner :: "Type \<Rightarrow> string \<Rightarrow> Type option" where
  "generic_inner ty expected =
     (case ty of
        TypeOther \<Rightarrow> None
      | TypePath _ segments \<Rightarrow>
          if segments = [] then None
          else (case last segments of
                  PathSegment ident arguments \<Rightarrow>
                    if ident \<noteq> expected then None
                    else (case arguments of
                            AngleBracketed [TypeArgument inner] \<Rightarrow> Some inner
                          | _ \<Rightarrow> None)))"

definition simple_type_ident :: "Type \<Rightarrow> string option" where
  "simple_type_ident ty =
     (case ty of
        TypeOther \<Rightarrow> None
      | TypePath qself segments \<Rightarrow>
          if qself \<or> segments = [] then None
          else (case last segments of PathSegment ident _ \<Rightarrow> Some ident))"

definition is_byte_vector :: "Type \<Rightarrow> bool" where
  "is_byte_vector ty \<longleftrightarrow> Option.bind (generic_inner ty ''Vec'') simple_type_ident = Some ''u8''"

definition unsupported_field_type :: DeriveError where
  "unsupported_field_type = CompileError
     ''unsupported Collection field type; use integers, floats, bool, String, Vec<u8>, or Option<T>''"

lemma generic_inner_size:
  assumes "generic_inner ty expected = Some inner"
  shows "size inner < size ty"
proof -
  obtain q segs where ty: "ty = TypePath q segs" "segs \<noteq> []"
    "last segs = PathSegment expected (AngleBracketed [TypeArgument inner])"
    using assms by (auto simp: generic_inner_def split: Type.splits if_splits PathSegment.splits
        PathArguments.splits list.splits GenericArgument.splits)
  have "size (last segs) < Suc (size_list size segs)"
    using size_list_estimation' [of "last segs" segs "size (last segs)" size] ty(2) by simp
  moreover have "size inner < size (last segs)" by (simp add: ty(3))
  ultimately show ?thesis by (simp add: ty(1))
qed

function classify_type :: "Type \<Rightarrow> (ColumnType \<times> bool) derived" where
  "classify_type ty =
     (case generic_inner ty ''Option'' of
        Some inner \<Rightarrow>
          bind_result (classify_type inner) (\<lambda>(storage, nested_nullable).
          if nested_nullable then Inl (CompileError ''nested Option fields are not supported'')
          else Inr (storage, True))
      | None \<Rightarrow>
          if is_byte_vector ty then Inr (CBlob, False)
          else (case simple_type_ident ty of
                  None \<Rightarrow> Inl unsupported_field_type
                | Some ident \<Rightarrow>
                    if ident \<in> {''i8'', ''i16'', ''i32'', ''i64'', ''u8'', ''u16'', ''u32'', ''u64'', ''bool''}
                    then Inr (CInteger, False)
                    else if ident \<in> {''f32'', ''f64''} then Inr (CReal, False)
                    else if ident = ''String'' then Inr (CText, False)
                    else Inl unsupported_field_type))"
  by pat_completeness auto
termination
  by (relation "measure size") (auto dest: generic_inner_size)

declare classify_type.simps [simp del]

section \<open>Derived fields and indexes\<close>

record DerivedField =
  df_rust_name :: string
  df_ty :: Type
  df_id :: string
  df_column :: string
  df_storage :: ColumnType
  df_nullable :: bool
  df_primary_key :: bool

record DerivedIndex =
  dx_id :: string
  dx_name :: string
  dx_columns :: "string list"
  dx_unique :: bool
  dx_canonical :: string
  dx_fingerprint :: "u8 list"

text \<open>The storage strings \<^verbatim>\<open>"Integer"\<close>, \<^verbatim>\<open>"Real"\<close>, \<^verbatim>\<open>"Text"\<close> and \<^verbatim>\<open>"Blob"\<close> name the variants of \<^verbatim>\<open>ColumnType\<close>.\<close>

fun storage_name :: "ColumnType \<Rightarrow> string" where
  "storage_name CInteger = ''Integer''"
| "storage_name CReal = ''Real''"
| "storage_name CText = ''Text''"
| "storage_name CBlob = ''Blob''"

definition bool_digit :: "bool \<Rightarrow> string" where
  "bool_digit b = (if b then ''1'' else ''0'')"

definition prefixed :: "string \<Rightarrow> string" where
  "prefixed s = show_nat (length s) @ '':'' @ s"

definition canonical_field :: "DerivedField \<Rightarrow> string" where
  "canonical_field f = ''field:'' @ prefixed (df_id f) @ '':'' @ prefixed (df_column f) @ '':'' @
     storage_name (df_storage f) @ '':'' @ bool_digit (df_nullable f) @ '':'' @ bool_digit (df_primary_key f) @ [newline]"

definition canonical_schema :: "string \<Rightarrow> string \<Rightarrow> u32 \<Rightarrow> DerivedField list \<Rightarrow> string" where
  "canonical_schema collection table version flds =
     (let sorted = sort_key df_id flds in
      ''csgdb-schema-v1'' @ [newline] @ ''collection:'' @ prefixed collection @ [newline] @
      ''table:'' @ prefixed table @ [newline] @ ''version:'' @ show_nat (unat version) @ [newline] @
      concat (map canonical_field sorted))"

definition canonical_index ::
  "string \<Rightarrow> string \<Rightarrow> string \<Rightarrow> string \<Rightarrow> bool \<Rightarrow> string list \<Rightarrow> string list \<Rightarrow> string" where
  "canonical_index collection table id' name unique field_ids columns =
     ''csgdb-index-v1'' @ [newline] @ ''collection:'' @ prefixed collection @ [newline] @
     ''table:'' @ prefixed table @ [newline] @ ''index:'' @ prefixed id' @ [newline] @
     ''name:'' @ prefixed name @ [newline] @ ''unique:'' @ bool_digit unique @ [newline] @
     concat (map (\<lambda>(field, column). ''field:'' @ prefixed field @ '':'' @ prefixed column @ [newline])
       (zip field_ids columns))"

text \<open>The loop over the named fields, with the two sets that detect duplicates.\<close>

definition derive_field ::
  "Field \<Rightarrow> DerivedField list \<times> string set \<times> string set \<Rightarrow> (DerivedField list \<times> string set \<times> string set) derived" where
  "derive_field field st =
     (case st of (derived_fields, field_ids, column_names) \<Rightarrow>
      bind_result (parse_field_attributes field) (\<lambda>attributes.
      bind_result (required_string (fa_id attributes) ''id'') (\<lambda>id'.
      bind_result (required_string (fa_column attributes) ''column'') (\<lambda>column.
      bind_result (validate_stable_name id' ''field id'') (\<lambda>_.
      bind_result (validate_sql_name column ''column'') (\<lambda>_.
      if id' \<in> field_ids then Inl (CompileError ''duplicate csgdb field id'')
      else if column \<in> column_names then Inl (CompileError ''duplicate csgdb column name'')
      else
        bind_result (classify_type (fd_ty field)) (\<lambda>(storage, nullable).
        if fa_primary_key attributes \<and> nullable then Inl (CompileError ''the primary key cannot be optional'')
        else Inr
          (derived_fields @ [\<lparr>df_rust_name = fd_ident field, df_ty = fd_ty field, df_id = id', df_column = column,
             df_storage = storage, df_nullable = nullable, df_primary_key = fa_primary_key attributes\<rparr>],
           insert id' field_ids, insert column column_names))))))))"

definition derive_index_field ::
  "DerivedField list \<Rightarrow> string \<Rightarrow> string list \<times> string list \<times> string set
     \<Rightarrow> (string list \<times> string list \<times> string set) derived" where
  "derive_index_field flds field_id st =
     (case st of (field_ids, columns, seen_fields) \<Rightarrow>
      if field_id \<in> seen_fields then Inl (CompileError ''duplicate field in csgdb index'')
      else
        bind_result (ok_or (CompileError ''csgdb index references an unknown field id'')
          (find (\<lambda>field. df_id field = field_id) flds)) (\<lambda>field.
        Inr (field_ids @ [field_id], columns @ [df_column field], insert field_id seen_fields)))"

definition derive_index ::
  "derive_env \<Rightarrow> string \<Rightarrow> string \<Rightarrow> DerivedField list \<Rightarrow> IndexAttributes
     \<Rightarrow> DerivedIndex list \<times> string set \<times> string set \<Rightarrow> (DerivedIndex list \<times> string set \<times> string set) derived" where
  "derive_index env collection table flds attributes st =
     (case st of (result, ids, names) \<Rightarrow>
      bind_result (required_string (ia_id attributes) ''index id'') (\<lambda>id'.
      bind_result (required_string (ia_name attributes) ''index name'') (\<lambda>name.
      bind_result (validate_stable_name id' ''index id'') (\<lambda>_.
      bind_result (validate_sql_name name ''index name'') (\<lambda>_.
      if starts_with name RESERVED_PREFIX then Inl (CompileError ''index names beginning with __csgdb_ are reserved'')
      else if id' \<in> ids then Inl (CompileError ''duplicate csgdb index id'')
      else if name \<in> names then Inl (CompileError ''duplicate csgdb index name'')
      else if ia_fields attributes = [] then Inl (CompileError ''csgdb index requires at least one field'')
      else
        bind_result (for_each (derive_index_field flds) (ia_fields attributes) ([], [], {})) (\<lambda>(field_ids, columns, _).
        let canonical = canonical_index collection table id' name (ia_unique attributes) field_ids columns in
        Inr (result @ [\<lparr>dx_id = id', dx_name = name, dx_columns = columns, dx_unique = ia_unique attributes,
               dx_canonical = canonical, dx_fingerprint = de_sha256 env (bytes_of_string canonical)\<rparr>],
             insert id' ids, insert name names)))))))"

definition derive_indexes ::
  "derive_env \<Rightarrow> string \<Rightarrow> string \<Rightarrow> IndexAttributes list \<Rightarrow> DerivedField list \<Rightarrow> DerivedIndex list derived" where
  "derive_indexes env collection table attributes flds =
     map_ok fst (for_each (derive_index env collection table flds) attributes ([], {}, {}))"

section \<open>Statements\<close>

definition quote_identifier :: "string \<Rightarrow> string" where
  "quote_identifier v = dquote # replace_dquote v @ [dquote]"

definition quoted_columns :: "DerivedField list \<Rightarrow> string" where
  "quoted_columns flds = join '', '' (map (\<lambda>field. quote_identifier (df_column field)) flds)"

definition column_definition :: "DerivedField \<Rightarrow> string" where
  "column_definition field =
     quote_identifier (df_column field) @ '' '' @ to_ascii_uppercase (storage_name (df_storage field)) @
     (if \<not> df_nullable field then '' NOT NULL'' else []) @ (if df_primary_key field then '' PRIMARY KEY'' else [])"

definition create_table_sql :: "string \<Rightarrow> DerivedField list \<Rightarrow> string" where
  "create_table_sql table flds =
     ''CREATE TABLE IF NOT EXISTS '' @ table @ '' ('' @ join '', '' (map column_definition flds) @ '')''"

definition create_index_sql :: "string \<Rightarrow> DerivedIndex \<Rightarrow> string" where
  "create_index_sql table index =
     ''CREATE '' @ (if dx_unique index then ''UNIQUE '' else []) @ ''INDEX IF NOT EXISTS '' @
     quote_identifier (dx_name index) @ '' ON '' @ table @ '' ('' @
     join '', '' (map quote_identifier (dx_columns index)) @ '')''"

definition parameter :: "nat \<Rightarrow> string" where
  "parameter n = ''?'' @ show_nat n"

definition insert_sql :: "string \<Rightarrow> DerivedField list \<Rightarrow> string" where
  "insert_sql table flds =
     ''INSERT INTO '' @ table @ '' ('' @ quoted_columns flds @ '') VALUES ('' @
     join '', '' (map parameter [1..<length flds + 1]) @ '')''"

definition select_sql :: "string \<Rightarrow> DerivedField list \<Rightarrow> string \<Rightarrow> string" where
  "select_sql table flds key_column =
     ''SELECT '' @ quoted_columns flds @ '' FROM '' @ table @ '' WHERE '' @ quote_identifier key_column @
     '' = ?1 LIMIT 1''"

definition assignment :: "nat \<times> DerivedField \<Rightarrow> string" where
  "assignment x = (case x of (index, field) \<Rightarrow> quote_identifier (df_column field) @ '' = '' @ parameter (index + 1))"

definition update_sql :: "string \<Rightarrow> DerivedField list \<Rightarrow> string \<Rightarrow> string" where
  "update_sql table flds key_column =
     (let mutable = map assignment (enumerate 0 (filter (\<lambda>field. \<not> df_primary_key field) flds));
          quoted_key = quote_identifier key_column in
      if mutable = []
      then ''UPDATE '' @ table @ '' SET '' @ quoted_key @ '' = '' @ quoted_key @ '' WHERE '' @ quoted_key @ '' = ?1''
      else ''UPDATE '' @ table @ '' SET '' @ join '', '' mutable @ '' WHERE '' @ quoted_key @ '' = '' @
        parameter (length mutable + 1))"

definition delete_sql :: "string \<Rightarrow> string \<Rightarrow> string" where
  "delete_sql table key_column = ''DELETE FROM '' @ table @ '' WHERE '' @ quote_identifier key_column @ '' = ?1''"

section \<open>The expansion\<close>

definition strip_raw :: "string \<Rightarrow> string" where
  "strip_raw name = (if starts_with name ''r#'' then drop 2 name else name)"

definition field_constant_name :: "derive_env \<Rightarrow> string \<Rightarrow> string" where
  "field_constant_name env ident = ''FIELD_'' @ de_to_uppercase env (strip_raw ident)"

definition field_schema :: "DerivedField \<Rightarrow> FieldSchema" where
  "field_schema field = \<lparr>fs_id = df_id field, fs_column = df_column field, fs_column_type = df_storage field,
     fs_nullable = df_nullable field, fs_primary_key = df_primary_key field\<rparr>"

definition field_constant ::
  "derive_env \<Rightarrow> DerivedField \<Rightarrow> (string \<times> FieldSchema) list \<times> string set
     \<Rightarrow> ((string \<times> FieldSchema) list \<times> string set) derived" where
  "field_constant env field st =
     (case st of (constants, names) \<Rightarrow>
      let constant_name = field_constant_name env (df_rust_name field) in
      if constant_name \<in> names
      then Inl (CompileError ''field names collide after conversion to generated FIELD_* constants'')
      else Inr (constants @ [(constant_name, field_schema field)],
                insert constant_name names))"

definition index_schema :: "DerivedIndex \<Rightarrow> IndexSchema" where
  "index_schema index = \<lparr>ix_id = dx_id index, ix_name = dx_name index, ix_columns = dx_columns index,
     ix_unique = dx_unique index, ix_fingerprint = SchemaFingerprint (dx_fingerprint index),
     ix_canonical_descriptor = dx_canonical index\<rparr>"

text \<open>
  What the generated implementation consists of: the associated constants, the schema, and the fields in the
  order in which \<^verbatim>\<open>values\<close> encodes and \<^verbatim>\<open>from_row\<close> decodes them.
\<close>

record Expansion =
  ex_name :: string
  ex_crate_path :: string
  ex_field_constants :: "(string \<times> FieldSchema) list"
  ex_create_table_sql :: string
  ex_insert_sql :: string
  ex_select_by_key_sql :: string
  ex_update_sql :: string
  ex_delete_by_key_sql :: string
  ex_create_index_sql :: "string list"
  ex_schema :: CollectionSchema
  ex_fields :: "DerivedField list"
  ex_key :: DerivedField

definition named_fields :: "DeriveInput \<Rightarrow> Field list derived" where
  "named_fields input =
     (case di_data input of
        StructNamed flds \<Rightarrow> Inr flds
      | StructOther \<Rightarrow> Inl (CompileError ''Collection requires a struct with named fields'')
      | NotStruct \<Rightarrow> Inl (CompileError ''Collection can only be derived for structs''))"

definition derive_version :: "nat option \<Rightarrow> u32 derived" where
  "derive_version version =
     bind_result (ok_or (CompileError ''missing csgdb version'') version) (\<lambda>v.
     if v < 2 ^ 32 then Inr (of_nat v) else Inl SynError)"

text \<open>From the collected fields on: the key, the indexes, the descriptors, and the generated items.\<close>

definition emit_collection ::
  "derive_env \<Rightarrow> DeriveInput \<Rightarrow> CollectionAttributes \<Rightarrow> string \<Rightarrow> string \<Rightarrow> u32 \<Rightarrow> DerivedField list \<Rightarrow> Expansion derived" where
  "emit_collection env input attributes collection table version derived_fields =
     (case filter df_primary_key derived_fields of
        [key_field] \<Rightarrow>
          bind_result (derive_indexes env collection table (ca_indexes attributes) derived_fields) (\<lambda>indexes.
          let canonical = canonical_schema collection table version derived_fields;
              quoted_table = quote_identifier table in
          bind_result (case ca_crate_path attributes of
              Some literal \<Rightarrow> if de_is_path env literal then Inr literal
                else Inl (CompileError ''csgdb crate must be a valid Rust path'')
            | None \<Rightarrow> Inr ''::csgdb'') (\<lambda>crate_path.
          bind_result (for_each (field_constant env) derived_fields ([], {})) (\<lambda>(constants, _).
          Inr \<lparr>ex_name = di_ident input, ex_crate_path = crate_path, ex_field_constants = constants,
            ex_create_table_sql = create_table_sql quoted_table derived_fields,
            ex_insert_sql = insert_sql quoted_table derived_fields,
            ex_select_by_key_sql = select_sql quoted_table derived_fields (df_column key_field),
            ex_update_sql = update_sql quoted_table derived_fields (df_column key_field),
            ex_delete_by_key_sql = delete_sql quoted_table (df_column key_field),
            ex_create_index_sql = map (create_index_sql quoted_table) indexes,
            ex_schema = \<lparr>cs_id = collection, cs_table = table, cs_version = version,
              cs_fingerprint = SchemaFingerprint (de_sha256 env (bytes_of_string canonical)),
              cs_fields = map field_schema derived_fields, cs_canonical_descriptor = canonical,
              cs_indexes = map index_schema indexes\<rparr>,
            ex_fields = derived_fields, ex_key = key_field\<rparr>)))
      | _ \<Rightarrow> Inl (CompileError ''Collection requires exactly one #[csgdb(primary_key)] field''))"

definition expand_collection :: "derive_env \<Rightarrow> DeriveInput \<Rightarrow> Expansion derived" where
  "expand_collection env input =
     (if di_generic input then Inl (CompileError ''Collection does not support generic structs'')
      else
      bind_result (parse_collection_attributes input) (\<lambda>attributes.
      bind_result (required_string (ca_id attributes) ''collection'') (\<lambda>collection.
      bind_result (required_string (ca_table attributes) ''table'') (\<lambda>table.
      bind_result (derive_version (ca_version attributes)) (\<lambda>version.
      bind_result (validate_stable_name collection ''collection'') (\<lambda>_.
      bind_result (validate_sql_name table ''table'') (\<lambda>_.
      if version = 0 then Inl (CompileError ''csgdb version must be greater than zero'')
      else
      bind_result (named_fields input) (\<lambda>flds.
      if flds = [] then Inl (CompileError ''Collection requires at least one field'')
      else
      bind_result (for_each derive_field flds ([], {}, {})) (\<lambda>(derived_fields, _, _).
      emit_collection env input attributes collection table version derived_fields)))))))))"

text \<open>
  The generated \<^verbatim>\<open>values\<close> and \<^verbatim>\<open>from_row\<close>: one \<^verbatim>\<open>FieldValue\<close> call per field, in order, stopping at the
  first error; the column index of a field is its position.
\<close>

definition derived_values :: "('r \<Rightarrow> Value result) list \<Rightarrow> 'r \<Rightarrow> Value list result" where
  "derived_values encoders record = try_map (\<lambda>encode. encode record) encoders"

definition derived_from_row :: "(ValueRef \<Rightarrow> 'f result) list \<Rightarrow> SqlRow \<Rightarrow> 'f list result" where
  "derived_from_row decoders row =
     try_map (\<lambda>(index, decode). bind_result (value_ref row index) decode) (enumerate 0 decoders)"

end
