(* ===== verification/Registry_Laws.thy ===== *)
theory Registry_Laws
  imports Registry
begin

text \<open>
  Theorems about \<^verbatim>\<open>csgdb/src/collection.rs\<close> on any engine: which operations only read, that
  registration and migration happen completely or not at all, what a successful registration has
  checked, when a migration runs, and that the registry rows decode to the schema that wrote them.
\<close>

section \<open>Operations that only read\<close>

interpretation unchanged: kept_relation "(=)"
  by unfold_locales auto

lemma reads_prepare [intro]: "keeps (=) (prepare eng sql)"
  by (simp add: keeps_def prepare_def)

lemma reads_query [intro]: "keeps (=) (statement_query eng stmt ps)"
  by (auto simp: keeps_def statement_query_def split: prod.splits sum.splits)

lemma reads_query_values [intro]: "keeps (=) (statement_query_values eng stmt ps)"
  by (auto simp: keeps_def statement_query_values_def split: prod.splits sum.splits)

lemma reads_query_i64 [intro]: "keeps (=) (query_i64 eng sql)"
  by (simp add: keeps_def query_i64_def)

lemma reads_find_registered_schema [intro]: "keeps (=) (find_registered_schema eng cid)"
  by (auto simp: find_registered_schema_def query_registered_schema_def)

lemma reads_registered_indexes [intro]: "keeps (=) (registered_indexes eng cid)"
  by (auto simp: registered_indexes_def)

lemma reads_validate_registered_indexes [intro]: "keeps (=) (validate_registered_indexes eng s)"
  unfolding validate_registered_indexes_def Let_def
  by (intro unchanged.keeps_bind reads_registered_indexes) auto

lemma reads_find_migration [intro]: "keeps (=) (find_migration eng cid mid)"
  by (auto simp: find_migration_def)

lemma reads_table_unclaimed [intro]: "keeps (=) (ensure_table_is_unclaimed eng s)"
  by (auto simp: ensure_table_is_unclaimed_def)

lemma reads_physical_table [intro]: "keeps (=) (validate_physical_table eng s)"
  by (auto simp: validate_physical_table_def)

lemma reads_physical_index [intro]: "keeps (=) (validate_physical_index eng table ix)"
  unfolding validate_physical_index_def
  by (intro unchanged.keeps_bind reads_prepare reads_query unchanged.keeps_pure)

lemma reads_physical_indexes [intro]: "keeps (=) (validate_physical_indexes eng s)"
  by (auto simp: validate_physical_indexes_def)

lemma reads_state: "keeps (=) m \<Longrightarrow> m d = (r, d') \<Longrightarrow> d' = d"
  unfolding keeps_def by metis

text \<open>A query that was prepared, bound and run saw exactly its parameters.\<close>

lemma statement_query_Inr:
  assumes "prepare eng sql d = (Inr stmt, d1)" "statement_query eng stmt ps d1 = (Inr rows, d2)"
  shows "d1 = d \<and> d2 = d \<and> rows = e_query eng sql ps d"
proof -
  obtain n where s: "stmt = \<lparr>st_sql = sql, st_parameter_count = n, st_bindings = replicate n RNull\<rparr>" "d1 = d"
    using assms(1) by (auto simp: prepare_def)
  then show ?thesis
    using assms(2) by (auto simp: statement_query_def bind_all_def bind_iter_def bind_loop_eq
        split: if_splits option.splits)
qed

lemma query_Inr:
  assumes "bind_st (prepare eng sql) (\<lambda>stmt. bind_st (statement_query eng stmt ps) f) d = (Inr y, t)"
  shows "f (e_query eng sql ps d) d = (Inr y, t)"
proof -
  obtain stmt d1 rows d2 where "prepare eng sql d = (Inr stmt, d1)" "statement_query eng stmt ps d1 = (Inr rows, d2)"
    "f rows d2 = (Inr y, t)"
    using assms by (auto simp: bind_st_Inr)
  with statement_query_Inr [OF this(1,2)] show ?thesis by simp
qed

lemma next_row_simps:
  "fst (next_row rows) = Inr None \<longleftrightarrow> rows = []"
  "fst (next_row rows) = Inr (Some row) \<longleftrightarrow> (\<exists>rest. rows = Inr row # rest)"
  "next_row rows = (Inr None, rest) \<longleftrightarrow> rows = [] \<and> rest = []"
  "next_row rows = (Inr (Some row), rest) \<longleftrightarrow> rows = Inr row # rest"
  by (induction rows rule: next_row.induct) auto

lemma collect_rows_Inr:
  "collect_rows body rows acc = Inr xs \<longleftrightarrow>
     (\<exists>rs ys. rows = map Inr rs \<and> try_map body rs = Inr ys \<and> xs = acc @ List.map_filter (\<lambda>y. y) ys)"
proof (induction rows arbitrary: acc)
  case Nil
  then show ?case by (auto simp: map_filter_simps)
next
  case (Cons row rows)
  show ?case
  proof (cases row)
    case (Inl e)
    then show ?thesis by (auto simp: Cons_eq_map_conv)
  next
    case (Inr r)
    have "collect_rows body (row # rows) acc = Inr xs \<longleftrightarrow>
      (\<exists>y. body r = Inr y \<and> (\<exists>rs ys. rows = map Inr rs \<and> try_map body rs = Inr ys \<and>
         xs = acc @ List.map_filter (\<lambda>y. y) (y # ys)))"
      by (auto simp: Inr Cons.IH map_filter_simps split: option.splits)
    also have "\<dots> \<longleftrightarrow> (\<exists>rs ys. row # rows = map Inr rs \<and> try_map body rs = Inr ys \<and>
         xs = acc @ List.map_filter (\<lambda>y. y) ys)"
      by (auto simp: Inr Cons_eq_map_conv)
    finally show ?thesis .
  qed
qed

lemma map_filter_Some [simp]: "List.map_filter (\<lambda>y. y) (map Some xs) = xs"
  by (induction xs) (simp_all add: map_filter_simps)

lemma try_map_map_ok: "try_map (\<lambda>r. map_ok f (g r)) rs = Inr ys \<longleftrightarrow> (\<exists>xs. try_map g rs = Inr xs \<and> ys = map f xs)"
  by (induction rs arbitrary: ys) auto

section \<open>Work inside a transaction\<close>

text \<open>
  An effect is scoped when, started inside a transaction, it commits nothing, and still has the
  transaction open if it succeeds. A failing statement may have ended the transaction.
\<close>

definition scoped :: "('db, 'c) tx_view \<Rightarrow> ('db, 'e, 'a) effect \<Rightarrow> bool" where
  "scoped v m \<longleftrightarrow> (\<forall>d r d'. tv_open v d \<longrightarrow> m d = (r, d') \<longrightarrow>
     tv_durable v d' = tv_durable v d \<and> (is_ok r \<longrightarrow> tv_open v d'))"

definition batch_law :: "'db Engine \<Rightarrow> ('db, 'c) tx_view \<Rightarrow> bool" where
  "batch_law eng v \<longleftrightarrow> (\<forall>sql. tv_plain v sql \<longrightarrow> scoped v (e_batch eng sql))"

named_theorems scoped_rules \<open>rules that build scoped effects\<close>

lemma scopedD:
  assumes "scoped v m" "tv_open v d" "m d = (r, d')"
  shows "tv_durable v d' = tv_durable v d" "is_ok r \<Longrightarrow> tv_open v d'"
  using assms unfolding scoped_def by blast+

lemma scoped_reads: "keeps (=) m \<Longrightarrow> scoped v m"
  unfolding scoped_def by (metis reads_state)

lemmas scoped_registry_reads [scoped_rules] =
  reads_find_registered_schema [THEN scoped_reads] reads_validate_registered_indexes [THEN scoped_reads]
  reads_find_migration [THEN scoped_reads] reads_table_unclaimed [THEN scoped_reads]
  reads_physical_table [THEN scoped_reads] reads_physical_indexes [THEN scoped_reads]

lemma scoped_pure [scoped_rules]: "scoped v (ret_st x)" "scoped v (fail_st e)" "scoped v (lift_st r)"
  by (auto simp: scoped_def)

lemma scoped_bind [scoped_rules]:
  assumes "scoped v m" "\<And>x. scoped v (f x)"
  shows "scoped v (bind_st m f)"
  unfolding scoped_def
proof (intro allI impI)
  fix d r d'
  assume d: "tv_open v d" "bind_st m f d = (r, d')"
  obtain x t where x: "m d = (x, t)" by (rule prod.exhaust)
  note 1 = scopedD [OF assms(1) d(1) x]
  show "tv_durable v d' = tv_durable v d \<and> (is_ok r \<longrightarrow> tv_open v d')"
  proof (cases x)
    case (Inl e)
    then show ?thesis using 1 d(2) x by (auto simp: bind_st_def)
  next
    case (Inr y)
    then have "f y t = (r, d')" "tv_open v t" using 1 d(2) x by (auto simp: bind_st_def)
    then show ?thesis using scopedD [OF assms(2)] 1 by metis
  qed
qed

lemma scoped_map_err [scoped_rules]: "scoped v m \<Longrightarrow> scoped v (map_err_st f m)"
  unfolding scoped_def map_err_st_def
  by (auto split: prod.splits) (metis is_ok.simps(1) is_ok_iff map_err_eq_Inr)

lemma scoped_for: "(\<And>x. x \<in> set xs \<Longrightarrow> scoped v (body x)) \<Longrightarrow> scoped v (for_st body xs)"
  by (induction xs) (auto intro: scoped_rules)

lemma scoped_batch: "batch_law eng v \<Longrightarrow> tv_plain v sql \<Longrightarrow> scoped v (execute_batch eng sql)"
  by (simp add: batch_law_def execute_batch_def scoped_map_err)

lemma scoped_execute:
  assumes "execute_law eng v" "tv_plain v sql"
  shows "scoped v (execute eng sql ps)"
proof -
  have raw: "scoped v (e_execute eng sql bs)" for bs
    using assms unfolding scoped_def execute_law_def
    by (metis (no_types, lifting) is_ok_iff old.sum.simps(6))
  have "scoped v (statement_execute eng stmt ps)" if "st_sql stmt = sql" for stmt
  proof -
    have "scoped v (raw_execute eng st)" if "st_sql st = sql" for st
      by (simp add: raw_execute_def that scoped_map_err raw)
    moreover have "st_sql (snd (bind_all eng d ps stmt)) = sql" for d
    proof -
      have "st_sql (snd (bind_loop eng d n qs st)) = st_sql st" for n qs st
        by (induction eng d n qs st rule: bind_loop.induct) (auto simp: clear_bindings_def split: sum.splits)
      then show ?thesis using that by (auto simp: bind_all_def bind_iter_def)
    qed
    ultimately show ?thesis
      unfolding scoped_def statement_execute_def
      by (auto split: prod.splits sum.splits) (metis snd_conv)+
  qed
  then show ?thesis
    unfolding scoped_def execute_def bind_st_def prepare_def
    by (auto split: sum.splits prod.splits) (metis Statement.select_convs(1) map_err_eq_Inr)+
qed

lemma in_transaction_atomic:
  assumes "begin_law eng v" "commit_law eng v" "drop_law eng v" "scoped v body" "\<not> tv_open v d"
    and "in_transaction eng body d = (r, d')"
  shows "\<not> tv_open v d' \<and>
    (case r of
       Inl e \<Rightarrow> tv_durable v d' = tv_durable v d
     | Inr x \<Rightarrow> \<exists>b b'. e_begin eng d = (Inr (), b) \<and> tv_content v b = tv_durable v d \<and>
         body b = (Inr x, b') \<and> tv_durable v d' = tv_content v b')"
proof -
  obtain s b where s: "e_begin eng d = (s, b)" by (rule prod.exhaust)
  note bs = begin_step [OF assms(1,5) s]
  have tx: "transaction eng d = (map_err map_storage_error s, b)" using s by (simp add: transaction_def map_err_st_def)
  show ?thesis
  proof (cases s)
    case (Inl e)
    then show ?thesis using bs assms(6) tx by (auto simp: in_transaction_def bind_st_def)
  next
    case (Inr u)
    have b: "tv_open v b" "tv_content v b = tv_durable v d" using bs(3) Inr by (simp_all add: inside_def)
    obtain y b' where y: "body b = (y, b')" by (rule prod.exhaust)
    note body = scopedD [OF assms(4) b(1) y]
    show ?thesis
    proof (cases y)
      case (Inl e)
      then have "r = Inl e" "d' = e_drop_transaction eng b'" using assms(6) tx Inr y by (simp_all add: in_transaction_def bind_st_def)
      then show ?thesis using assms(3) body bs(1) by (simp add: drop_law_def)
    next
      case y2: (Inr x)
      obtain c t where c: "e_commit eng b' = (c, t)" by (rule prod.exhaust)
      have r: "d' = t" "r = (case c of Inl e \<Rightarrow> Inl (map_storage_error e) | Inr _ \<Rightarrow> Inr x)"
        using assms(6) tx Inr y y2 c by (auto simp: in_transaction_def bind_st_def commit_def map_err_st_def split: sum.splits)
      have "\<not> tv_open v t \<and> tv_durable v t = (if is_ok c then tv_content v b' else tv_durable v b')"
        using assms(2) c body(2) y2 unfolding commit_law_def by (metis is_ok.simps(1))
      then show ?thesis using r body(1) bs(1) s Inr y y2 b(2) by (cases c) auto
    qed
  qed
qed

section \<open>Statements of the registry and of a collection\<close>

definition registry_statements :: "string list" where
  "registry_statements =
     [SCHEMA_REGISTRY_SQL, INDEX_REGISTRY_SQL, MIGRATION_REGISTRY_SQL, INSERT_REGISTERED_SCHEMA_SQL,
      UPDATE_REGISTERED_SCHEMA_SQL, INSERT_REGISTERED_INDEX_SQL, DELETE_REGISTERED_INDEXES_SQL, INSERT_MIGRATION_SQL]"

definition plain_registry :: "('db, 'c) tx_view \<Rightarrow> bool" where
  "plain_registry v \<longleftrightarrow> (\<forall>sql \<in> set registry_statements. tv_plain v sql) \<and>
     (\<forall>name. tv_plain v (''DROP INDEX IF EXISTS '' @ quote_sql_identifier name))"

definition plain_collection :: "('db, 'c) tx_view \<Rightarrow> 'a Collection \<Rightarrow> bool" where
  "plain_collection v C \<longleftrightarrow> tv_plain v (co_create_table_sql C) \<and> (\<forall>sql \<in> set (co_create_index_sql C). tv_plain v sql)"

definition registry_engine :: "'db Engine \<Rightarrow> ('db, 'c) tx_view \<Rightarrow> bool" where
  "registry_engine eng v \<longleftrightarrow> begin_law eng v \<and> commit_law eng v \<and> drop_law eng v \<and> execute_law eng v \<and>
     batch_law eng v \<and> plain_registry v"

lemma plain_registryD:
  assumes "registry_engine eng v"
  shows "begin_law eng v" "commit_law eng v" "drop_law eng v" "execute_law eng v" "batch_law eng v"
    "sql \<in> set registry_statements \<Longrightarrow> tv_plain v sql" "tv_plain v (''DROP INDEX IF EXISTS '' @ quote_sql_identifier name)"
  using assms by (auto simp: registry_engine_def plain_registry_def)

lemma scoped_initialize: "registry_engine eng v \<Longrightarrow> scoped v (initialize_schema_registries eng)"
  unfolding initialize_schema_registries_def
  by (intro scoped_rules scoped_batch plain_registryD) (auto simp: registry_statements_def)

lemma scoped_registry_execute:
  "registry_engine eng v \<Longrightarrow> sql \<in> set registry_statements \<Longrightarrow> scoped v (execute eng sql ps)"
  by (intro scoped_execute plain_registryD)

lemma scoped_writes:
  assumes "registry_engine eng v"
  shows "scoped v (insert_registered_schema eng s)" "scoped v (update_registered_schema eng s)"
    "scoped v (insert_registered_indexes eng s)" "scoped v (replace_registered_indexes eng s)"
    "scoped v (insert_migration eng mid s t)"
  unfolding insert_registered_schema_def update_registered_schema_def insert_registered_indexes_def
    replace_registered_indexes_def insert_migration_def
  by (intro scoped_rules scoped_for scoped_registry_execute [OF assms] conjI;
      simp add: registry_statements_def scoped_pure)+

lemma scoped_create_indexes:
  "registry_engine eng v \<Longrightarrow> plain_collection v C \<Longrightarrow> scoped v (create_declared_indexes eng C)"
  by (auto simp: create_declared_indexes_def plain_collection_def
      intro!: scoped_pure scoped_for scoped_batch dest: plain_registryD)

lemma scoped_replace_indexes:
  assumes "registry_engine eng v" "plain_collection v To"
  shows "scoped v (replace_declared_indexes eng From To)"
proof -
  have drop: "scoped v (execute_batch eng (''DROP INDEX IF EXISTS '' @ quote_sql_identifier name))" for name
    by (intro scoped_batch plain_registryD(5,7) [OF assms(1)])
  have "scoped v (if \<not> b then execute_batch eng (''DROP INDEX IF EXISTS '' @ quote_sql_identifier name) else ret_st ())"
    for b name
    using drop scoped_pure(1) by (cases b) (simp_all only: simp_thms if_True if_False)
  then show ?thesis
    unfolding replace_declared_indexes_def by (intro scoped_bind scoped_for scoped_create_indexes assms)
qed

lemma scoped_register_body:
  assumes "registry_engine eng v" "plain_collection v C"
  shows "scoped v (register_body eng C)"
proof -
  have "scoped v (execute_batch eng (co_create_table_sql C))"
    using assms by (intro scoped_batch plain_registryD(5)) (auto simp: plain_collection_def)
  then show ?thesis
    unfolding register_body_def Let_def
    by (intro scoped_bind scoped_registry_reads scoped_initialize [OF assms(1)] scoped_pure)
      (auto intro!: scoped_rules scoped_writes scoped_create_indexes assms split: option.split)
qed

lemma scoped_migrate_body:
  assumes "registry_engine eng v" "plain_collection v To" "scoped v operation"
  shows "scoped v (migrate_body eng From To mid operation)"
proof -
  have "scoped v (recheck_migration eng m f t)" for m f t
    unfolding recheck_migration_def Let_def by (intro scoped_rules)
  moreover have "scoped v (apply_migration eng From To mid operation)"
    unfolding apply_migration_def Let_def
    by (intro scoped_rules scoped_writes scoped_replace_indexes assms)
  ultimately show ?thesis
    unfolding migrate_body_def
    by (intro scoped_bind scoped_registry_reads scoped_initialize assms) (auto split: option.split)
qed

section \<open>What the validations establish\<close>

definition column_matches :: "PhysicalColumn \<Rightarrow> FieldSchema \<Rightarrow> bool" where
  "column_matches c f \<longleftrightarrow> pc_name c = fs_column f \<and>
     eq_ignore_ascii_case (pc_declared_type c) (sql_name (fs_column_type f)) \<and>
     pc_not_null c = (\<not> fs_nullable f) \<and> pc_primary_key c = fs_primary_key f"

text \<open>Columns and fields correspond one to one: no column is missing, extra, or listed twice.\<close>

definition columns_match :: "PhysicalColumn list \<Rightarrow> FieldSchema list \<Rightarrow> bool" where
  "columns_match cs fs \<longleftrightarrow> distinct (map pc_name cs) \<and> pc_name ` set cs = fs_column ` set fs \<and>
     (\<forall>c \<in> set cs. \<exists>f \<in> set fs. column_matches c f) \<and> (\<forall>f \<in> set fs. \<exists>c \<in> set cs. column_matches c f)"

definition table_matches :: "'db Engine \<Rightarrow> CollectionSchema \<Rightarrow> 'db \<Rightarrow> bool" where
  "table_matches eng s d \<longleftrightarrow> (\<exists>rows cs.
     e_query eng TABLE_COLUMNS_SQL [RText (cs_table s)] d = map Inr rows \<and>
     try_map decode_physical_column rows = Inr (map Some cs) \<and> columns_match cs (cs_fields s))"

definition index_matches :: "'db Engine \<Rightarrow> string \<Rightarrow> IndexSchema \<Rightarrow> 'db \<Rightarrow> bool" where
  "index_matches eng table ix d \<longleftrightarrow> (\<exists>row unique keys cols.
     e_query eng PHYSICAL_INDEX_SQL [RText table, RText (ix_name ix)] d = [Inr row] \<and>
     get_i64 row 0 = Inr unique \<and> ix_unique ix = (unique \<noteq> 0) \<and> get_text row 1 = Inr ''c'' \<and> get_i64 row 2 = Inr 0 \<and>
     e_query eng PHYSICAL_INDEX_COLUMNS_SQL [RText (ix_name ix)] d = map Inr keys \<and>
     try_map index_column_row keys = Inr cols \<and> List.map_filter (\<lambda>c. c) cols = ix_columns ix)"

definition physical_matches :: "'db Engine \<Rightarrow> CollectionSchema \<Rightarrow> 'db \<Rightarrow> bool" where
  "physical_matches eng s d \<longleftrightarrow> table_matches eng s d \<and> (\<forall>ix \<in> set (cs_indexes s). index_matches eng (cs_table s) ix d)"

lemma decode_physical_column_Some: "decode_physical_column row = Inr y \<Longrightarrow> y \<noteq> None"
  by (auto simp: decode_physical_column_def)

lemma try_map_Some:
  assumes "\<And>x y. f x = Inr y \<Longrightarrow> y \<noteq> None" "try_map f xs = Inr ys"
  shows "ys = map Some (List.map_filter (\<lambda>y. y) ys)"
  using assms(2)
proof (induction xs arbitrary: ys)
  case (Cons x xs)
  then obtain y zs where "f x = Inr y" "try_map f xs = Inr zs" "ys = y # zs" by auto
  with Cons.IH [of zs] assms(1) show ?case by (auto simp: map_filter_simps split: option.splits)
qed (auto simp: map_filter_simps)

lemma check_columns_Inr:
  "for_each (check_physical_column cs) fs () = Inr () \<longleftrightarrow>
     (\<forall>f \<in> set fs. \<exists>c. find (\<lambda>c. pc_name c = fs_column f) cs = Some c \<and> column_matches c f)"
proof (induction fs)
  case (Cons f fs)
  have "check_physical_column cs f () = Inr () \<longleftrightarrow>
      (\<exists>c. find (\<lambda>c. pc_name c = fs_column f) cs = Some c \<and> column_matches c f)"
  proof (cases "find (\<lambda>c. pc_name c = fs_column f) cs")
    case (Some c)
    then have "pc_name c = fs_column f" by (auto simp: find_Some_iff)
    then show ?thesis unfolding check_physical_column_def Some by (auto simp: column_matches_def Let_def)
  qed (simp add: check_physical_column_def)
  then show ?case using Cons by auto
qed simp

text \<open>As many columns as fields, and a column for every field, is a bijection.\<close>

lemma columns_matchI:
  assumes "distinct (map fs_column fs)" "length cs = length fs"
    and find: "\<forall>f \<in> set fs. \<exists>c. find (\<lambda>c. pc_name c = fs_column f) cs = Some c \<and> column_matches c f"
  shows "columns_match cs fs"
proof -
  have has: "\<exists>c \<in> set cs. column_matches c f" if "f \<in> set fs" for f
    using find that by (metis find_Some_iff nth_mem)
  have "fs_column ` set fs \<subseteq> pc_name ` set cs" 
  proof
    fix n
    assume "n \<in> fs_column ` set fs"
    then obtain f where f: "f \<in> set fs" "n = fs_column f" by blast
    obtain c where "c \<in> set cs" "column_matches c f" using has [OF f(1)] by blast
    then show "n \<in> pc_name ` set cs" unfolding f(2) column_matches_def by (metis imageI)
  qed
  moreover have card: "card (fs_column ` set fs) = length cs"
    using distinct_card [OF assms(1)] assms(2) by simp
  moreover have "card (pc_name ` set cs) \<le> length cs" using card_length [of "map pc_name cs"] by simp
  ultimately have names: "fs_column ` set fs = pc_name ` set cs" by (simp add: card_seteq)
  then have "distinct (map pc_name cs)" using card by (intro card_distinct) simp
  moreover have "\<exists>f \<in> set fs. column_matches c f" if c: "c \<in> set cs" for c
  proof -
    obtain f where f: "f \<in> set fs" "fs_column f = pc_name c" using names c by (metis imageE imageI)
    obtain c' where "c' \<in> set cs" "column_matches c' f" using has [OF f(1)] by blast
    then have "c' = c" using \<open>distinct (map pc_name cs)\<close> c f(2)
      by (auto simp: column_matches_def distinct_map dest: inj_onD)
    then show ?thesis using f \<open>column_matches c' f\<close> by blast
  qed
  ultimately show ?thesis using has names by (auto simp: columns_match_def)
qed

lemma validate_physical_table_Inr:
  assumes "distinct (map fs_column (cs_fields s))" "validate_physical_table eng s d = (Inr u, d')"
  shows "d' = d \<and> table_matches eng s d"
proof -
  let ?rows = "e_query eng TABLE_COLUMNS_SQL [RText (cs_table s)] d"
  obtain cs where cs: "collect_rows decode_physical_column ?rows [] = Inr cs" "length cs = length (cs_fields s)"
    "for_each (check_physical_column cs) (cs_fields s) () = Inr ()" "d' = d"
  proof -
    have "bind_result (collect_rows decode_physical_column ?rows []) (\<lambda>actual.
        if length actual \<noteq> length (cs_fields s) then Inl schema_mismatch
        else for_each (check_physical_column actual) (cs_fields s) ()) = Inr u" "d' = d"
      using query_Inr [OF assms(2) [unfolded validate_physical_table_def]] unfolding effect_simps prod.inject by blast+
    then show thesis using that unfolding bind_result_eq_Inr by (metis Inl_Inr_False old.unit.exhaust)
  qed
  obtain rs ys where rs: "?rows = map Inr rs" "try_map decode_physical_column rs = Inr ys" "cs = List.map_filter (\<lambda>y. y) ys"
    using cs(1) unfolding collect_rows_Inr by auto
  have "ys = map Some cs" using try_map_Some [OF decode_physical_column_Some rs(2)] rs(3) by simp
  then have "try_map decode_physical_column rs = Inr (map Some cs)" using rs(2) by simp
  with rs(1) columns_matchI [OF assms(1) cs(2) cs(3) [unfolded check_columns_Inr]] cs(4) show ?thesis
    unfolding table_matches_def by blast
qed

lemma validate_physical_index_Inr:
  assumes "validate_physical_index eng table ix d = (Inr u, d')"
  shows "d' = d \<and> index_matches eng table ix d"
proof -
  let ?rows = "e_query eng PHYSICAL_INDEX_SQL [RText table, RText (ix_name ix)] d"
  let ?keys = "e_query eng PHYSICAL_INDEX_COLUMNS_SQL [RText (ix_name ix)] d"
  have q: "check_index_row ix ?rows = Inr ()"
    "bind_st (prepare eng PHYSICAL_INDEX_COLUMNS_SQL) (\<lambda>stmt. bind_st (statement_query eng stmt [RText (ix_name ix)]) (\<lambda>rows.
       lift_st (bind_result (collect_rows index_column_row rows []) (\<lambda>columns.
         if columns = ix_columns ix then Inr () else Inl schema_mismatch)))) d = (Inr u, d')"
    using query_Inr [OF assms [unfolded validate_physical_index_def]] by (auto simp: bind_st_Inr)
  from query_Inr [OF q(2)] have k: "collect_rows index_column_row ?keys [] = Inr (ix_columns ix)" "d' = d"
    by (auto split: if_splits)
  obtain row where "?rows = [Inr row]" "\<exists>unique. get_i64 row 0 = Inr unique \<and> ix_unique ix = (unique \<noteq> 0)"
    "get_text row 1 = Inr ''c''" "get_i64 row 2 = Inr 0"
    using q(1) by (auto simp: check_index_row_def next_row_simps split: prod.splits sum.splits option.splits if_splits)
  with k show ?thesis by (auto simp: index_matches_def collect_rows_Inr)
qed

lemma validate_physical_indexes_Inr:
  assumes "validate_physical_indexes eng s d = (Inr u, d')"
  shows "d' = d \<and> (\<forall>ix \<in> set (cs_indexes s). index_matches eng (cs_table s) ix d)"
proof -
  have "d' = d \<and> (\<forall>ix \<in> set ixs. index_matches eng t ix d)"
    if "for_st (validate_physical_index eng t) ixs d = (Inr u, d')" for t ixs
    using that
    by (induction ixs) (auto simp: bind_st_Inr dest!: validate_physical_index_Inr)
  then show ?thesis using assms by (simp add: validate_physical_indexes_def)
qed

section \<open>Registry rows\<close>

definition registered_of :: "CollectionSchema \<Rightarrow> RegisteredSchema" where
  "registered_of s = \<lparr>rs_collection_id = cs_id s, rs_table_name = cs_table s, rs_version = cs_version s,
     rs_fingerprint = cs_fingerprint s, rs_canonical_descriptor = cs_canonical_descriptor s\<rparr>"

definition row_registered :: "'db Engine \<Rightarrow> CollectionSchema \<Rightarrow> 'db \<Rightarrow> bool" where
  "row_registered eng s d \<longleftrightarrow> (\<exists>row rest.
     e_query eng FIND_REGISTERED_SCHEMA_SQL [RText (cs_id s)] d = Inr row # rest \<and>
     decode_registered_schema (cs_id s) row = Inr (registered_of s))"

definition indexes_registered :: "'db Engine \<Rightarrow> CollectionSchema \<Rightarrow> 'db \<Rightarrow> bool" where
  "indexes_registered eng s d \<longleftrightarrow> (\<exists>rows actual.
     e_query eng FIND_REGISTERED_INDEXES_SQL [RText (cs_id s)] d = map Inr rows \<and>
     try_map decode_registered_index rows = Inr (map Some actual) \<and>
     list_all2 index_registered_as actual (sort_key ix_id (cs_indexes s)))"

lemma ensure_registered_Inr [simp]:
  "ensure_registered_schema_matches s r = Inr u \<longleftrightarrow> r = registered_of s"
  by (cases r) (auto simp: ensure_registered_schema_matches_def registered_of_def)

lemma ensure_registered_self [simp]: "ensure_registered_schema_matches s (registered_of s) = Inr ()"
  by simp

lemma find_registered_schema_Inr:
  assumes "find_registered_schema eng cid d = (Inr found, d')"
  shows "d' = d \<and> (case found of
      None \<Rightarrow> e_query eng FIND_REGISTERED_SCHEMA_SQL [RText cid] d = []
    | Some r \<Rightarrow> \<exists>row rest. e_query eng FIND_REGISTERED_SCHEMA_SQL [RText cid] d = Inr row # rest \<and>
        decode_registered_schema cid row = Inr r)"
proof -
  let ?rows = "e_query eng FIND_REGISTERED_SCHEMA_SQL [RText cid] d"
  have "bind_result (fst (next_row ?rows)) (\<lambda>row. case row of None \<Rightarrow> Inr None
      | Some r \<Rightarrow> map_ok Some (decode_registered_schema cid r)) = Inr found" "d' = d"
    using query_Inr [OF assms [unfolded find_registered_schema_def query_registered_schema_def]]
    unfolding effect_simps prod.inject by blast+
  then show ?thesis
    by (cases ?rows rule: next_row.cases) (auto split: option.splits)
qed

lemma for_each_pairs:
  "for_each (\<lambda>(a, e) _. if P a e then Inr () else Inl x) (zip as es) () = Inr u \<longleftrightarrow> (\<forall>(a, e) \<in> set (zip as es). P a e)"
  by (induction as es rule: list_induct2') auto

lemma validate_registered_indexes_Inr:
  assumes "validate_registered_indexes eng s d = (Inr u, d')"
  shows "d' = d \<and> indexes_registered eng s d"
proof -
  let ?rows = "e_query eng FIND_REGISTERED_INDEXES_SQL [RText (cs_id s)] d"
  let ?expected = "sort_key ix_id (cs_indexes s)"
  obtain actual d1 where a: "registered_indexes eng (cs_id s) d = (Inr actual, d1)" "length actual = length ?expected"
    "for_each (\<lambda>(a, e) _. if index_registered_as a e then Inr () else Inl schema_mismatch) (zip actual ?expected) () = Inr u"
    "d' = d1"
    using assms by (auto simp: validate_registered_indexes_def bind_st_Inr Let_def split: if_splits)
  have "collect_rows decode_registered_index ?rows [] = Inr actual" "d1 = d"
    using query_Inr [OF a(1) [unfolded registered_indexes_def]] unfolding effect_simps prod.inject by blast+
  then obtain rs ys where rs: "?rows = map Inr rs" "try_map decode_registered_index rs = Inr ys"
    "actual = List.map_filter (\<lambda>y. y) ys"
    unfolding collect_rows_Inr by auto
  have "decode_registered_index row = Inr y \<Longrightarrow> y \<noteq> None" for row y
    by (auto simp: decode_registered_index_def split: if_splits)
  then have "ys = map Some actual" using try_map_Some rs(2,3) by metis
  moreover have "list_all2 index_registered_as actual ?expected"
    using a(2,3) by (auto simp: list_all2_iff for_each_pairs)
  ultimately show ?thesis unfolding indexes_registered_def using rs(1,2) a(4) \<open>d1 = d\<close> by blast
qed

lemma in_transaction_Inr:
  "in_transaction eng body d = (Inr x, d') \<longleftrightarrow>
     (\<exists>b b'. e_begin eng d = (Inr (), b) \<and> body b = (Inr x, b') \<and> e_commit eng b' = (Inr (), d'))"
  by (auto simp: in_transaction_def bind_st_def transaction_def commit_def map_err_st_def map_err_def
      split: prod.splits sum.splits)

text \<open>The outcome of a registration that succeeded, at the states its transaction went through.\<close>

definition registration_outcome ::
  "'db Engine \<Rightarrow> CollectionSchema \<Rightarrow> SchemaRegistration \<Rightarrow> 'db \<Rightarrow> 'db \<Rightarrow> bool" where
  "registration_outcome eng s registration b1 b' \<longleftrightarrow> physical_matches eng s b' \<and>
     (case registration of
        AlreadyRegistered \<Rightarrow> b' = b1 \<and> row_registered eng s b1 \<and> indexes_registered eng s b1
      | Created \<Rightarrow> e_query eng FIND_REGISTERED_SCHEMA_SQL [RText (cs_id s)] b1 = [] \<and>
          (\<exists>row rest. e_query eng FIND_TABLE_OWNER_SQL [RText (cs_table s), RText (cs_id s)] b1 = Inr row # rest \<and>
             get_i64 row 0 = Inr 0))"

lemma table_unclaimed_Inr:
  assumes "ensure_table_is_unclaimed eng s d = (Inr u, d')"
  shows "d' = d \<and> (\<exists>row rest. e_query eng FIND_TABLE_OWNER_SQL [RText (cs_table s), RText (cs_id s)] d = Inr row # rest \<and>
             get_i64 row 0 = Inr 0)"
proof -
  let ?rows = "e_query eng FIND_TABLE_OWNER_SQL [RText (cs_table s), RText (cs_id s)] d"
  have "bind_result (fst (next_row ?rows)) (\<lambda>row. case row of None \<Rightarrow> Inl schema_mismatch
      | Some r \<Rightarrow> bind_result (get_i64 r 0) (\<lambda>n. if n = 0 then Inr () else Inl schema_mismatch)) = Inr u" "d' = d"
    using query_Inr [OF assms [unfolded ensure_table_is_unclaimed_def]] unfolding effect_simps prod.inject by blast+
  then show ?thesis by (cases ?rows rule: next_row.cases) (auto split: if_splits)
qed

lemma physical_matchesI:
  assumes "schema_wf s" "validate_physical_table eng s d = (Inr u, d1)" "validate_physical_indexes eng s d1 = (Inr w, d2)"
  shows "d1 = d \<and> d2 = d \<and> physical_matches eng s d"
proof -
  have "distinct (map fs_column (cs_fields s))" using assms(1) by (simp add: schema_wf_def fields_wf_def)
  then show ?thesis
    using validate_physical_table_Inr [OF _ assms(2)] validate_physical_indexes_Inr [OF assms(3)]
    by (auto simp: physical_matches_def)
qed

lemma register_body_Inr:
  assumes "schema_wf (co_schema C)" "register_body eng C b = (Inr r, b')"
  shows "\<exists>b1. initialize_schema_registries eng b = (Inr (), b1) \<and> registration_outcome eng (co_schema C) r b1 b'"
proof -
  let ?s = "co_schema C"
  obtain b1 found b0 b2 u1 b3 u2 where 1: "initialize_schema_registries eng b = (Inr (), b1)"
    and f: "find_registered_schema eng (cs_id ?s) b1 = (Inr found, b0)"
    and choice0: "(case found of
          Some existing \<Rightarrow>
            bind_st (lift_st (ensure_registered_schema_matches ?s existing)) (\<lambda>_.
            bind_st (validate_registered_indexes eng ?s) (\<lambda>_. ret_st AlreadyRegistered))
        | None \<Rightarrow>
            bind_st (ensure_table_is_unclaimed eng ?s) (\<lambda>_.
            bind_st (execute_batch eng (co_create_table_sql C)) (\<lambda>_.
            bind_st (insert_registered_schema eng ?s) (\<lambda>_.
            bind_st (create_declared_indexes eng C) (\<lambda>_.
            bind_st (insert_registered_indexes eng ?s) (\<lambda>_. ret_st Created)))))) b0 = (Inr r, b2)"
    and v: "validate_physical_table eng ?s b2 = (Inr u1, b3)" "validate_physical_indexes eng ?s b3 = (Inr u2, b')"
    using assms(2) unfolding register_body_def Let_def bind_st_Inr by auto
  note fr = find_registered_schema_Inr [OF f]
  then have b0: "b0 = b1" ..
  note choice = choice0 [unfolded b0]
  note ph = physical_matchesI [OF assms(1) v]
  show ?thesis
  proof (cases found)
    case None
    then have "r = Created" "\<exists>x b0. ensure_table_is_unclaimed eng ?s b1 = (Inr x, b0)"
      using choice by (auto simp: bind_st_Inr)
    then show ?thesis using 1 fr None ph by (auto simp: registration_outcome_def dest!: table_unclaimed_Inr)
  next
    case (Some existing)
    then obtain x where "r = AlreadyRegistered" "existing = registered_of ?s"
      "validate_registered_indexes eng ?s b1 = (Inr x, b2)"
      using choice by (auto simp: bind_st_Inr)
    then show ?thesis
      using 1 fr Some ph validate_registered_indexes_Inr [of eng ?s b1 x b2]
      by (auto simp: registration_outcome_def row_registered_def)
  qed
qed

text \<open>The storage class an engine keeps for a bound value.\<close>

definition cell :: "ValueRef \<Rightarrow> SqlValueRef" where
  "cell r = (case r of RNull \<Rightarrow> SqlNull | RInteger x \<Rightarrow> SqlInteger x | RReal x \<Rightarrow> SqlReal x
     | RText s \<Rightarrow> SqlText (bytes_of_string s) | RBlob b \<Rightarrow> SqlBlob b)"


lemma try_u32_ucast [simp]: "try_u32 (ucast v) = Some v"
proof -
  have "sint (ucast v :: i64) = uint v" using unsigned_less [of v, where ?'a = nat] by (intro sint_ucast_up) simp_all
  moreover have "uint v < 2 ^ 32" using unsigned_less [of v] by simp
  ultimately show ?thesis by (simp add: try_u32_def ucast_ucast_up)
qed

lemma schema_row_decodes:
  assumes "schema_wf s" "length (fp_bytes (cs_fingerprint s)) = 32"
    and "utf8_valid (bytes_of_string (cs_table s))" "utf8_valid (bytes_of_string (cs_canonical_descriptor s))"
  shows "decode_registered_schema (cs_id s) (map cell (tl (schema_parameters s))) = Inr (registered_of s)"
  using assms
  by (simp add: decode_registered_schema_def schema_parameters_def cell_def getters_typed typed_get_def
      fingerprint_from_slice_def schema_wf_def registered_of_def)

lemma index_row_decodes:
  assumes "index_wf cols ix" "length (fp_bytes (ix_fingerprint ix)) = 32"
    and "utf8_valid (bytes_of_string (ix_id ix))" "utf8_valid (bytes_of_string (ix_name ix))"
      "utf8_valid (bytes_of_string (ix_canonical_descriptor ix))"
  shows "\<exists>r. decode_registered_index (map cell (tl (index_parameters s ix))) = Inr (Some r) \<and> index_registered_as r ix"
proof -
  have "decode_registered_index (map cell (tl (index_parameters s ix))) =
      Inr (Some \<lparr>ri_id = ix_id ix, ri_name = ix_name ix, ri_unique = ix_unique ix, ri_fingerprint = ix_fingerprint ix,
        ri_descriptor = ix_canonical_descriptor ix\<rparr>)"
    using assms
    by (cases "ix_unique ix") (simp_all add: decode_registered_index_def index_parameters_def cell_def getters_typed
        typed_get_def fingerprint_from_slice_def index_wf_def)
  then show ?thesis by (simp add: index_registered_as_def)
qed

section \<open>Migrations\<close>

definition recorded_of :: "CollectionSchema \<Rightarrow> CollectionSchema \<Rightarrow> RegisteredMigration" where
  "recorded_of from to = \<lparr>rm_from_version = cs_version from, rm_to_version = cs_version to,
     rm_from_fingerprint = cs_fingerprint from, rm_to_fingerprint = cs_fingerprint to\<rparr>"

definition migration_rows :: "'db Engine \<Rightarrow> CollectionSchema \<Rightarrow> string \<Rightarrow> 'db \<Rightarrow> Rows" where
  "migration_rows eng s mid d = e_query eng FIND_MIGRATION_SQL [RText (cs_id s), RText mid] d"

definition collection_at :: "'db Engine \<Rightarrow> CollectionSchema \<Rightarrow> 'db \<Rightarrow> bool" where
  "collection_at eng s d \<longleftrightarrow> row_registered eng s d \<and> indexes_registered eng s d \<and> physical_matches eng s d"

text \<open>
  The outcome of a migration that succeeded: either it was recorded before and nothing but checks happened, or
  it ran from a database in the old shape to one in the new shape, which is then registered and recorded.
\<close>

definition migration_outcome ::
  "'db Engine \<Rightarrow> 'a Collection \<Rightarrow> 'b Collection \<Rightarrow> string \<Rightarrow> ('db, Error, unit) effect \<Rightarrow> MigrationStatus \<Rightarrow> 'db \<Rightarrow> 'db \<Rightarrow> bool" where
  "migration_outcome eng From To mid operation status b1 b' \<longleftrightarrow>
     (case status of
        AlreadyApplied \<Rightarrow> b' = b1 \<and> collection_at eng (co_schema To) b1 \<and>
          (\<exists>row. migration_rows eng (co_schema From) mid b1 = [Inr row] \<and>
             decode_migration [] row = Inr (recorded_of (co_schema From) (co_schema To)))
      | Applied \<Rightarrow> migration_rows eng (co_schema From) mid b1 = [] \<and> collection_at eng (co_schema From) b1 \<and>
          (\<exists>b2 b3 b4 b5. operation b1 = (Inr (), b2) \<and> table_matches eng (co_schema To) b2 \<and>
             replace_declared_indexes eng From To b2 = (Inr (), b3) \<and>
             (\<forall>ix \<in> set (cs_indexes (co_schema To)). index_matches eng (cs_table (co_schema To)) ix b3) \<and>
             update_registered_schema eng (co_schema To) b3 = (Inr (), b4) \<and>
             replace_registered_indexes eng (co_schema To) b4 = (Inr (), b5) \<and>
             insert_migration eng mid (co_schema From) (co_schema To) b5 = (Inr (), b')))"

lemma ensure_migration_Inr [simp]: "ensure_migration_matches m from to = Inr u \<longleftrightarrow> m = recorded_of from to"
  by (cases m) (auto simp: ensure_migration_matches_def recorded_of_def)

lemma find_migration_Inr:
  assumes "find_migration eng (cs_id s) mid d = (Inr found, d')"
  shows "d' = d \<and> (case found of
      None \<Rightarrow> migration_rows eng s mid d = []
    | Some m \<Rightarrow> \<exists>row. migration_rows eng s mid d = [Inr row] \<and> decode_migration [] row = Inr m)"
proof -
  have q: "(case next_row (migration_rows eng s mid d) of
        (Inl e, _) \<Rightarrow> Inl e
      | (Inr None, _) \<Rightarrow> Inr None
      | (Inr (Some row), rest) \<Rightarrow> map_ok Some (decode_migration rest row)) = Inr found" "d' = d"
    using query_Inr [OF assms [unfolded find_migration_def]] unfolding effect_simps prod.inject migration_rows_def by blast+
  then show ?thesis
  proof (cases "migration_rows eng s mid d" rule: next_row.cases)
    case (3 row rest)
    then obtain m where m: "decode_migration rest row = Inr m" "found = Some m" using q(1) by auto
    then have "rest = []" by (auto simp: decode_migration_def next_row_simps split: if_splits)
    then show ?thesis using m 3 q(2) by simp
  qed auto
qed

lemma migration_row_decodes:
  assumes "length (fp_bytes (cs_fingerprint s)) = 32" "length (fp_bytes (cs_fingerprint t)) = 32"
  shows "decode_migration [] (map cell (drop 2 (migration_parameters mid s t))) = Inr (recorded_of s t)"
  using assms
  by (simp add: decode_migration_def migration_parameters_def cell_def getters_typed typed_get_def
      fingerprint_from_slice_def recorded_of_def)

lemma registered_found:
  assumes "bind_st (find_registered_schema eng cid) (\<lambda>r. lift_st (ok_or x r)) d = (Inr current, d')"
    and "current = registered_of s" "cid = cs_id s"
  shows "d' = d \<and> row_registered eng s d"
  using assms by (auto simp: bind_st_Inr row_registered_def dest!: find_registered_schema_Inr)

lemma recheck_migration_Inr:
  assumes "schema_wf to" "cs_id from = cs_id to" "recheck_migration eng m from to d = (Inr r, d')"
  shows "r = AlreadyApplied \<and> d' = d \<and> m = recorded_of from to \<and> collection_at eng to d"
proof -
  obtain current d1 u2 d2 u3 d3 u4 where m: "m = recorded_of from to" "r = AlreadyApplied"
    and c: "bind_st (find_registered_schema eng (cs_id from)) (\<lambda>r. lift_st (ok_or migration_mismatch r)) d = (Inr current, d1)"
      "current = registered_of to"
    and i: "validate_registered_indexes eng to d1 = (Inr u2, d2)"
    and v: "validate_physical_table eng to d2 = (Inr u3, d3)" "validate_physical_indexes eng to d3 = (Inr u4, d')"
    using assms(3) unfolding recheck_migration_def Let_def
    by (subst (asm) bind_st_Inr) (auto simp: bind_st_Inr [where f = "\<lambda>_. bind_st _ _"] bind_st_Inr)
  show ?thesis
    using registered_found [OF c assms(2)] validate_registered_indexes_Inr [OF i] physical_matchesI [OF assms(1) v] m
    by (auto simp: collection_at_def)
qed

lemma apply_migration_Inr:
  assumes "schema_wf (co_schema From)" "schema_wf (co_schema To)"
    and "apply_migration eng From To mid operation d = (Inr r, d')" "migration_rows eng (co_schema From) mid d = []"
  shows "r = Applied \<and> migration_outcome eng From To mid operation r d d'"
proof -
  let ?from = "co_schema From" and ?to = "co_schema To"
  obtain current d1 u2 d2 u3 d3 u4 d4 b2 d5 u6 d6 u7 b3 u8 d8 b4 b5 where r: "r = Applied"
    and c: "bind_st (find_registered_schema eng (cs_id ?from)) (\<lambda>r. lift_st (ok_or migration_mismatch r)) d = (Inr current, d1)"
      "current = registered_of ?from"
    and i: "validate_registered_indexes eng ?from d1 = (Inr u2, d2)"
    and v: "validate_physical_table eng ?from d2 = (Inr u3, d3)" "validate_physical_indexes eng ?from d3 = (Inr u4, d4)"
    and o: "operation d4 = (Inr (), b2)"
    and t: "ensure_table_is_unclaimed eng ?to b2 = (Inr u6, d5)" "validate_physical_table eng ?to d5 = (Inr u7, d6)"
    and x: "replace_declared_indexes eng From To d6 = (Inr (), b3)" "validate_physical_indexes eng ?to b3 = (Inr u8, d8)"
    and w: "update_registered_schema eng ?to d8 = (Inr (), b4)" "replace_registered_indexes eng ?to b4 = (Inr (), b5)"
      "insert_migration eng mid ?from ?to b5 = (Inr (), d')"
    using assms(3) unfolding apply_migration_def Let_def
    by (subst (asm) bind_st_Inr) (auto simp: bind_st_Inr [where f = "\<lambda>_. bind_st _ _"] bind_st_Inr)
  have old: "d4 = d \<and> collection_at eng ?from d"
    using registered_found [OF c refl] validate_registered_indexes_Inr [OF i] physical_matchesI [OF assms(1) v]
    by (auto simp: collection_at_def)
  have "distinct (map fs_column (cs_fields ?to))" using assms(2) by (simp add: schema_wf_def fields_wf_def)
  then have "d6 = b2 \<and> table_matches eng ?to b2"
    using table_unclaimed_Inr [OF t(1)] validate_physical_table_Inr [OF _ t(2)] by auto
  moreover have "d8 = b3 \<and> (\<forall>ix \<in> set (cs_indexes ?to). index_matches eng (cs_table ?to) ix b3)"
    by (rule validate_physical_indexes_Inr [OF x(2)])
  ultimately show ?thesis
    using r old o x(1) w assms(4) unfolding migration_outcome_def by auto
qed

lemma migrate_body_Inr:
  assumes "schema_wf (co_schema From)" "schema_wf (co_schema To)" "cs_id (co_schema From) = cs_id (co_schema To)"
    and "migrate_body eng From To mid operation b = (Inr r, b')"
  shows "\<exists>b1. initialize_schema_registries eng b = (Inr (), b1) \<and> migration_outcome eng From To mid operation r b1 b'"
proof -
  obtain b1 found b2 where 1: "initialize_schema_registries eng b = (Inr (), b1)"
    and f: "find_migration eng (cs_id (co_schema From)) mid b1 = (Inr found, b2)"
    and choice: "(case found of
         Some migration \<Rightarrow> recheck_migration eng migration (co_schema From) (co_schema To)
       | None \<Rightarrow> apply_migration eng From To mid operation) b2 = (Inr r, b')"
    using assms(4) unfolding migrate_body_def bind_st_Inr by auto
  note found = find_migration_Inr [OF f]
  show ?thesis
  proof (cases found)
    case None
    then have "apply_migration eng From To mid operation b1 = (Inr r, b')" "migration_rows eng (co_schema From) mid b1 = []"
      using choice found by auto
    from apply_migration_Inr [OF assms(1,2) this] 1 show ?thesis by blast
  next
    case (Some m)
    then have "recheck_migration eng m (co_schema From) (co_schema To) b1 = (Inr r, b')" using choice found by simp
    from recheck_migration_Inr [OF assms(2,3) this] show ?thesis
      using 1 found Some by (auto simp: migration_outcome_def)
  qed
qed

lemma validate_migration_Inr:
  "validate_migration from to mid = Inr u \<longleftrightarrow> schema_wf from \<and> schema_wf to \<and> valid_name mid \<and>
     cs_id from = cs_id to \<and> cs_version from < cs_version to \<and> cs_fingerprint from \<noteq> cs_fingerprint to"
  using validate_schema_ok_iff [of "from"] validate_schema_ok_iff [of to] by (auto simp: validate_migration_def not_le)

section \<open>Properties\<close>

text \<open>
  Claim C12. Registering a collection is all or nothing. On an engine whose transactions behave as
  documented, started outside a transaction: afterwards no transaction is open; if the call returns an
  error, whatever step failed (validation, the registries, the table, an index, the physical checks or
  the commit), the committed content is what it was; if it succeeds, the committed content is exactly what the
  registration body produced from the previous committed content.
\<close>

theorem register_collection_atomic:
  assumes "registry_engine eng v" "plain_collection v C" "\<not> tv_open v d" "register_collection eng C d = (r, d')"
  shows "\<not> tv_open v d' \<and>
    (case r of
       Inl e \<Rightarrow> tv_durable v d' = tv_durable v d
     | Inr x \<Rightarrow> \<exists>b b'. e_begin eng d = (Inr (), b) \<and> tv_content v b = tv_durable v d \<and>
         register_body eng C b = (Inr x, b') \<and> tv_durable v d' = tv_content v b')"
proof (cases "validate_collection_schema (co_schema C)")
  case (Inl e)
  then show ?thesis using assms(3,4) by (auto simp: register_collection_def)
next
  case (Inr u)
  then have "in_transaction eng (register_body eng C) d = (r, d')" using assms(4) by (simp add: register_collection_def)
  then show ?thesis
    by (rule in_transaction_atomic [OF plain_registryD(1-3) [OF assms(1)] scoped_register_body [OF assms(1,2)] assms(3)])
qed

text \<open>
  Claim C13. Migrating a collection is all or nothing, the caller's callback included: if the callback stays within
  the transaction it is given, then an error anywhere (in the callback, in a check
  before or after it, in a registry update or in the commit) leaves the committed content as it was, and
  success commits exactly what the migration body produced; no transaction is left open.
\<close>

theorem migrate_collection_atomic:
  assumes "registry_engine eng v" "plain_collection v To" "scoped v operation" "\<not> tv_open v d"
    and "migrate_collection eng From To mid operation d = (r, d')"
  shows "\<not> tv_open v d' \<and>
    (case r of
       Inl e \<Rightarrow> tv_durable v d' = tv_durable v d
     | Inr x \<Rightarrow> \<exists>b b'. e_begin eng d = (Inr (), b) \<and> tv_content v b = tv_durable v d \<and>
         migrate_body eng From To mid operation b = (Inr x, b') \<and> tv_durable v d' = tv_content v b')"
proof (cases "validate_migration (co_schema From) (co_schema To) mid")
  case (Inl e)
  then show ?thesis using assms(4,5) by (auto simp: migrate_collection_def)
next
  case (Inr u)
  then have "in_transaction eng (migrate_body eng From To mid operation) d = (r, d')"
    using assms(5) by (simp add: migrate_collection_def)
  then show ?thesis
    by (rule in_transaction_atomic [OF plain_registryD(1-3) [OF assms(1)] scoped_migrate_body [OF assms(1-3)] assms(4)])
qed

text \<open>
  Claim C14. What a successful registration has established, on any engine: the schema is well formed, and at the
  state that is committed the physical table corresponds to the declared fields one to one (no column missing,
  extra or listed twice; type, nullability and primary key equal), every declared index exists
  exactly once with its uniqueness and its ascending binary key columns in order. \<^const>\<open>AlreadyRegistered\<close> is
  answered only when the registry row and the index rows equal the schema, and nothing but the creation of
  the registries happened; \<^const>\<open>Created\<close> only when there was no row and no other owner of the table.
\<close>

theorem register_collection_sound:
  assumes "register_collection eng C d = (Inr r, d')"
  shows "schema_wf (co_schema C) \<and> (\<exists>b b1 b'. e_begin eng d = (Inr (), b) \<and>
    initialize_schema_registries eng b = (Inr (), b1) \<and> registration_outcome eng (co_schema C) r b1 b' \<and>
    e_commit eng b' = (Inr (), d'))"
proof -
  have "schema_wf (co_schema C)" "in_transaction eng (register_body eng C) d = (Inr r, d')"
    using assms validate_schema_ok_iff [of "co_schema C"] by (auto simp: register_collection_def bind_st_Inr)
  then show ?thesis using register_body_Inr by (fastforce simp: in_transaction_Inr)
qed

text \<open>
  Claim C15. What a successful migration has established, on any engine: both schemas are well formed, name
  the same collection, and the version grows; either the migration was recorded with exactly these
  endpoints and the database already has the new shape, or it was not recorded, the database had
  the old shape when the callback started, the callback succeeded, and the new table and indexes passed the
  physical checks before the registry and the migration record were written.
\<close>

theorem migrate_collection_sound:
  assumes "migrate_collection eng From To mid operation d = (Inr r, d')"
  shows "schema_wf (co_schema From) \<and> schema_wf (co_schema To) \<and> cs_id (co_schema From) = cs_id (co_schema To) \<and>
    cs_version (co_schema From) < cs_version (co_schema To) \<and>
    (\<exists>b b1 b'. e_begin eng d = (Inr (), b) \<and> initialize_schema_registries eng b = (Inr (), b1) \<and>
      migration_outcome eng From To mid operation r b1 b' \<and> e_commit eng b' = (Inr (), d'))"
proof -
  have v: "validate_migration (co_schema From) (co_schema To) mid = Inr ()"
    and t: "in_transaction eng (migrate_body eng From To mid operation) d = (Inr r, d')"
    using assms by (auto simp: migrate_collection_def bind_st_Inr)
  note v = v [unfolded validate_migration_Inr]
  obtain b b' where b: "e_begin eng d = (Inr (), b)" "migrate_body eng From To mid operation b = (Inr r, b')"
    "e_commit eng b' = (Inr (), d')" using t unfolding in_transaction_Inr by blast
  with migrate_body_Inr [OF _ _ _ b(2)] v show ?thesis by blast
qed

text \<open>
  Claim C16. A recorded migration never runs again: when the migration registry has a row for the
  collection and identifier, the call has the same result and the same effect for every callback.
\<close>

theorem recorded_migration_never_reruns:
  assumes "e_begin eng d = (Inr (), b)" "initialize_schema_registries eng b = (Inr (), b1)"
    and "migration_rows eng (co_schema From) mid b1 \<noteq> []"
  shows "migrate_collection eng From To mid operation d = migrate_collection eng From To mid operation' d"
proof -
  have "migrate_body eng From To mid operation b = migrate_body eng From To mid operation' b"
  proof (cases "find_migration eng (cs_id (co_schema From)) mid b1")
    case (Pair x t)
    then show ?thesis
      using find_migration_Inr [of eng "co_schema From" mid b1 None t] assms(2,3)
      by (cases x) (auto simp: migrate_body_def bind_st_def split: option.splits)
  qed
  moreover have "transaction eng d = (Inr (), b)" using assms(1) by (simp add: transaction_def map_err_st_def)
  ultimately show ?thesis
    by (cases "validate_migration (co_schema From) (co_schema To) mid")
      (simp_all add: migrate_collection_def in_transaction_def bind_st_def)
qed

text \<open>
  Claim C37. Registry rows read back as what was written. The parameters with which a well-formed schema,
  one of its indexes, or a migration is inserted, kept by the engine with their storage classes, decode to
  that schema, index and migration, and so pass the comparison a later registration or migration makes.
\<close>

theorem registry_rows_round_trip:
  assumes "schema_wf s" "length (fp_bytes (cs_fingerprint s)) = 32" "length (fp_bytes (cs_fingerprint t)) = 32"
    and "utf8_valid (bytes_of_string (cs_table s))" "utf8_valid (bytes_of_string (cs_canonical_descriptor s))"
    and "ix \<in> set (cs_indexes s)" "length (fp_bytes (ix_fingerprint ix)) = 32"
    and "utf8_valid (bytes_of_string (ix_id ix))" "utf8_valid (bytes_of_string (ix_name ix))"
      "utf8_valid (bytes_of_string (ix_canonical_descriptor ix))"
  shows "(\<exists>r. decode_registered_schema (cs_id s) (map cell (tl (schema_parameters s))) = Inr r \<and>
      ensure_registered_schema_matches s r = Inr ()) \<and>
    (\<exists>r. decode_registered_index (map cell (tl (index_parameters s ix))) = Inr (Some r) \<and> index_registered_as r ix) \<and>
    (\<exists>m. decode_migration [] (map cell (drop 2 (migration_parameters mid s t))) = Inr m \<and>
      ensure_migration_matches m s t = Inr ())"
proof -
  have "index_wf (fs_column ` set (cs_fields s)) ix" using assms(1,6) by (simp add: schema_wf_def)
  from index_row_decodes [OF this assms(7-10)] schema_row_decodes [OF assms(1,2,4,5)] migration_row_decodes [OF assms(2,3)]
  show ?thesis by simp
qed

section \<open>A database to run the registry on\<close>

text \<open>
  An engine whose content is the list of statements it has executed, by their positions in \<open>log_statements\<close>.
  It answers the registry queries for a collection with one integer key and no index, at version 5 or, once
  updated, at version 7.
\<close>

record log_db =
  lg_durable :: "nat list"
  lg_tx :: "nat list option"

definition log_statements :: "string list" where
  "log_statements =
     [SCHEMA_REGISTRY_SQL, INDEX_REGISTRY_SQL, MIGRATION_REGISTRY_SQL, INSERT_REGISTERED_SCHEMA_SQL,
      UPDATE_REGISTERED_SCHEMA_SQL, DELETE_REGISTERED_INDEXES_SQL, INSERT_MIGRATION_SQL, FIND_REGISTERED_SCHEMA_SQL,
      FIND_TABLE_OWNER_SQL, FIND_MIGRATION_SQL, TABLE_COLUMNS_SQL, FIND_REGISTERED_INDEXES_SQL]"

definition log_tag :: "string \<Rightarrow> nat" where
  "log_tag sql = length (takeWhile (\<lambda>s. s \<noteq> sql) log_statements)"

lemma log_tags_eval: "map log_tag (log_statements @ [''CREATE TABLE notes'']) = [0, 1, 2, 3, 4, 5, 6, 7, 8, 9, 10, 11, 12]"
  by code_simp

lemma log_tags [simp]:
  "log_tag SCHEMA_REGISTRY_SQL = 0" "log_tag INDEX_REGISTRY_SQL = 1" "log_tag MIGRATION_REGISTRY_SQL = 2"
  "log_tag INSERT_REGISTERED_SCHEMA_SQL = 3" "log_tag UPDATE_REGISTERED_SCHEMA_SQL = 4"
  "log_tag DELETE_REGISTERED_INDEXES_SQL = 5" "log_tag INSERT_MIGRATION_SQL = 6" "log_tag FIND_REGISTERED_SCHEMA_SQL = 7"
  "log_tag FIND_TABLE_OWNER_SQL = 8" "log_tag FIND_MIGRATION_SQL = 9" "log_tag TABLE_COLUMNS_SQL = 10"
  "log_tag FIND_REGISTERED_INDEXES_SQL = 11" "log_tag ''CREATE TABLE notes'' = 12"
  using log_tags_eval by (simp_all add: log_statements_def)

definition lg_content :: "log_db \<Rightarrow> nat list" where
  "lg_content d = (case lg_tx d of Some c \<Rightarrow> c | None \<Rightarrow> lg_durable d)"

definition lg_append :: "string \<Rightarrow> log_db \<Rightarrow> log_db" where
  "lg_append sql d = (case lg_tx d of
     Some c \<Rightarrow> d\<lparr>lg_tx := Some (c @ [log_tag sql])\<rparr> | None \<Rightarrow> d\<lparr>lg_durable := lg_durable d @ [log_tag sql]\<rparr>)"

definition note_fp :: "u32 \<Rightarrow> SchemaFingerprint" where
  "note_fp n = SchemaFingerprint (replicate 32 (ucast n))"

definition note_schema :: "u32 \<Rightarrow> CollectionSchema" where
  "note_schema n = \<lparr>cs_id = ''note'', cs_table = ''notes'', cs_version = n, cs_fingerprint = note_fp n,
     cs_fields = [\<lparr>fs_id = ''id'', fs_column = ''id'', fs_column_type = CInteger, fs_nullable = False, fs_primary_key = True\<rparr>],
     cs_canonical_descriptor = ''note'', cs_indexes = []\<rparr>"

definition note_collection :: "u32 \<Rightarrow> unit Collection" where
  "note_collection n = \<lparr>co_schema = note_schema n, co_create_table_sql = ''CREATE TABLE notes'', co_insert_sql = [],
     co_select_by_key_sql = [], co_update_sql = [], co_delete_by_key_sql = [], co_create_index_sql = [],
     co_values = (\<lambda>_. Inr []), co_from_row = (\<lambda>_. Inr ())\<rparr>"

definition log_parameter_count :: "string \<Rightarrow> nat" where
  "log_parameter_count sql = (let n = log_tag sql in if n < 12 then [0, 0, 0, 5, 5, 1, 6, 1, 2, 2, 1, 1] ! n else 0)"

definition log_query :: "string \<Rightarrow> log_db \<Rightarrow> Rows" where
  "log_query sql d =
     (let n = log_tag sql in
      if n = 7 then
        (if 4 \<in> set (lg_content d) then [Inr (map cell (tl (schema_parameters (note_schema 7))))]
         else if 3 \<in> set (lg_content d) then [Inr (map cell (tl (schema_parameters (note_schema 5))))] else [])
      else if n = 8 then [Inr [SqlInteger 0]]
      else if n = 9 then
        (if 6 \<in> set (lg_content d)
         then [Inr (map cell (drop 2 (migration_parameters ''up'' (note_schema 5) (note_schema 7))))] else [])
      else if n = 10 then
        [Inr [SqlText (bytes_of_string ''id''), SqlText (bytes_of_string ''INTEGER''), SqlInteger 1, SqlInteger 1]]
      else [])"

definition log_engine :: "log_db Engine" where
  "log_engine = \<lparr>e_batch = (\<lambda>sql d. (Inr (), lg_append sql d)), e_parameter_count = (\<lambda>sql _. Inr (log_parameter_count sql)),
     e_bind = (\<lambda>_ _ _ _. Inr ()), e_execute = (\<lambda>sql _ d. (Inr 1, lg_append sql d)),
     e_query = (\<lambda>sql _. log_query sql), e_query_i64 = (\<lambda>_ _. Inr 1),
     e_begin = (\<lambda>d. (Inr (), d\<lparr>lg_tx := Some (lg_durable d)\<rparr>)),
     e_commit = (\<lambda>d. (Inr (), d\<lparr>lg_durable := lg_content d, lg_tx := None\<rparr>)),
     e_rollback = (\<lambda>d. (Inr (), d\<lparr>lg_tx := None\<rparr>)), e_drop_transaction = (\<lambda>d. d\<lparr>lg_tx := None\<rparr>),
     e_transaction_state = (\<lambda>_ _. Inr SqlTxnNone), e_busy_timeout = (\<lambda>_ d. (Inr (), d)),
     e_wal_checkpoint = (\<lambda>_ _ d. ((0, 0, 0), d)), e_wal_autocheckpoint = (\<lambda>_ d. (0, d)),
     e_failure_code = (\<lambda>_. FOther), e_close = (\<lambda>_. Inr ())\<rparr>"

definition log_view :: "(log_db, nat list) tx_view" where
  "log_view = \<lparr>tv_durable = lg_durable, tv_content = lg_content, tv_saves = (\<lambda>_. []), tv_open = (\<lambda>d. lg_tx d \<noteq> None),
     tv_plain = (\<lambda>_. True), tv_run = (\<lambda>sql _ c. (1, c @ [log_tag sql]))\<rparr>"

lemma log_registry_engine: "registry_engine log_engine log_view"
  unfolding registry_engine_def
  by (intro conjI;
      auto simp: begin_law_def commit_law_def drop_law_def execute_law_def batch_law_def plain_registry_def scoped_def
        log_engine_def log_view_def lg_append_def lg_content_def)

lemma log_engine_fields [simp]:
  "e_batch log_engine sql d = (Inr (), lg_append sql d)" "e_parameter_count log_engine sql d = Inr (log_parameter_count sql)"
  "e_bind log_engine sql n x d = Inr ()" "e_execute log_engine sql ps d = (Inr 1, lg_append sql d)"
  "e_query log_engine sql ps d = log_query sql d" "e_begin log_engine d = (Inr (), d\<lparr>lg_tx := Some (lg_durable d)\<rparr>)"
  "e_commit log_engine d = (Inr (), d\<lparr>lg_durable := lg_content d, lg_tx := None\<rparr>)"
  "e_drop_transaction log_engine d = d\<lparr>lg_tx := None\<rparr>"
  by (simp_all add: log_engine_def)

lemma log_batch [simp]: "execute_batch log_engine sql d = (Inr (), lg_append sql d)"
  by (simp add: execute_batch_def map_err_st_def)

lemma log_first_bind_error [simp]: "first_bind_error log_engine d sql n ps = None"
  by (induction ps arbitrary: n) simp_all

lemma log_execute [simp]:
  "length ps = log_parameter_count sql \<Longrightarrow> execute log_engine sql ps d = (Inr 1, lg_append sql d)"
  by (simp add: execute_def prepare_def bind_st_def statement_execute_def bind_all_def bind_iter_def bind_loop_eq
      raw_execute_def map_err_st_def)

lemma log_queried:
  "length ps = log_parameter_count sql \<Longrightarrow>
     bind_st (prepare log_engine sql) (\<lambda>stmt. bind_st (statement_query log_engine stmt ps) f) d = f (log_query sql d) d"
  by (simp add: prepare_def bind_st_def statement_query_def bind_all_def bind_iter_def bind_loop_eq)

lemma note_wf: "n \<noteq> 0 \<Longrightarrow> schema_wf (note_schema n)"
  by (simp add: schema_wf_def note_schema_def fields_wf_def valid_name_def starts_with_def RESERVED_PREFIX_def)

lemma note_text [simp]:
  "utf8_valid (bytes_of_string ''notes'')" "utf8_valid (bytes_of_string ''note'')" "utf8_valid (bytes_of_string ''id'')"
  "utf8_valid (bytes_of_string ''INTEGER'')"
proof -
  have "list_all (\<lambda>s. utf8_valid (bytes_of_string s)) [''notes'', ''note'', ''id'', ''INTEGER'']" by code_simp
  then show "utf8_valid (bytes_of_string ''notes'')" "utf8_valid (bytes_of_string ''note'')"
    "utf8_valid (bytes_of_string ''id'')" "utf8_valid (bytes_of_string ''INTEGER'')"
    by (simp_all only: list.pred_inject simp_thms)
qed

lemma note_fp_length [simp]: "length (fp_bytes (note_fp n)) = 32"
  by (simp add: note_fp_def)

lemma note_row [simp]:
  "n \<noteq> 0 \<Longrightarrow> decode_registered_schema ''note'' (map cell (tl (schema_parameters (note_schema n)))) = Inr (registered_of (note_schema n))"
  using schema_row_decodes [of "note_schema n"] note_wf [of n] by (simp add: note_schema_def)

lemma log_find [simp]:
  "find_registered_schema log_engine ''note'' d =
     (Inr (if 4 \<in> set (lg_content d) then Some (registered_of (note_schema 7))
           else if 3 \<in> set (lg_content d) then Some (registered_of (note_schema 5)) else None), d)"
  by (simp add: find_registered_schema_def query_registered_schema_def log_queried log_parameter_count_def log_query_def)

lemma log_registered_indexes [simp]: "registered_indexes log_engine cid d = (Inr [], d)"
  by (simp add: registered_indexes_def log_queried log_parameter_count_def log_query_def)

lemma log_physical_table [simp]: "validate_physical_table log_engine (note_schema n) d = (Inr (), d)"
  by (simp add: validate_physical_table_def log_queried log_parameter_count_def log_query_def note_schema_def
      decode_physical_column_def getters_typed typed_get_def check_physical_column_def)

lemma log_checks [simp]:
  "validate_physical_indexes log_engine (note_schema n) d = (Inr (), d)"
  "validate_registered_indexes log_engine (note_schema n) d = (Inr (), d)"
  by (simp_all add: validate_physical_indexes_def validate_registered_indexes_def note_schema_def bind_st_def)

lemma log_unclaimed [simp]: "ensure_table_is_unclaimed log_engine s d = (Inr (), d)"
  by (simp add: ensure_table_is_unclaimed_def log_queried log_parameter_count_def log_query_def getters_typed typed_get_def)

definition empty_db :: log_db where
  "empty_db = \<lparr>lg_durable = [], lg_tx = None\<rparr>"

definition registered_db :: log_db where
  "registered_db = \<lparr>lg_durable = [0, 1, 2, 12, 3], lg_tx = None\<rparr>"

definition migrated_db :: log_db where
  "migrated_db = \<lparr>lg_durable = [0, 1, 2, 12, 3, 0, 1, 2, 4, 5, 6], lg_tx = None\<rparr>"

lemma log_transaction [simp]: "transaction log_engine d = (Inr (), d\<lparr>lg_tx := Some (lg_durable d)\<rparr>)"
  by (simp add: transaction_def map_err_st_def)

lemma log_commit [simp]: "commit log_engine d = (Inr (), d\<lparr>lg_durable := lg_content d, lg_tx := None\<rparr>)"
  by (simp add: commit_def map_err_st_def)

lemma note_collection_simps [simp]:
  "co_schema (note_collection n) = note_schema n" "co_create_table_sql (note_collection n) = ''CREATE TABLE notes''"
  "co_create_index_sql (note_collection n) = []" "cs_id (note_schema n) = ''note''" "cs_indexes (note_schema n) = []"
  "cs_version (note_schema n) = n" "cs_fingerprint (note_schema n) = note_fp n"
  by (simp_all add: note_collection_def note_schema_def)

lemma log_writes [simp]:
  "insert_registered_schema log_engine s d = (Inr (), lg_append INSERT_REGISTERED_SCHEMA_SQL d)"
  "update_registered_schema log_engine s d = (Inr (), lg_append UPDATE_REGISTERED_SCHEMA_SQL d)"
  "insert_migration log_engine mid s t d = (Inr (), lg_append INSERT_MIGRATION_SQL d)"
  "cs_indexes s = [] \<Longrightarrow> replace_registered_indexes log_engine s d = (Inr (), lg_append DELETE_REGISTERED_INDEXES_SQL d)"
  by (simp_all add: insert_registered_schema_def update_registered_schema_def insert_migration_def
      replace_registered_indexes_def insert_registered_indexes_def bind_st_def log_parameter_count_def
      schema_parameters_def migration_parameters_def)

lemma lg_tx_simps:
  "lg_append sql \<lparr>lg_durable = x, lg_tx = Some c\<rparr> = \<lparr>lg_durable = x, lg_tx = Some (c @ [log_tag sql])\<rparr>"
  "lg_content \<lparr>lg_durable = x, lg_tx = Some c\<rparr> = c"
  by (simp_all add: lg_append_def lg_content_def)

lemma log_replace_indexes [simp]:
  "replace_declared_indexes log_engine (note_collection m) (note_collection n) d = (Inr (), d)"
  by (simp add: replace_declared_indexes_def create_declared_indexes_def)

lemma note_validation: "n \<noteq> 0 \<Longrightarrow> validate_collection_schema (note_schema n) = Inr ()"
  by (simp add: validate_schema_ok_iff note_wf)

lemma note_fps: "note_fp 5 \<noteq> note_fp 7"
  by (simp add: note_fp_def)

lemma log_find_migration [simp]:
  "find_migration log_engine ''note'' ''up'' d =
     (Inr (if 6 \<in> set (lg_content d) then Some (recorded_of (note_schema 5) (note_schema 7)) else None), d)"
  using migration_row_decodes [of "note_schema 5" "note_schema 7" "''up''"]
  by (simp add: find_migration_def log_queried log_parameter_count_def log_query_def)

lemma initialize_log [simp]:
  "initialize_schema_registries log_engine d =
     (Inr (), lg_append MIGRATION_REGISTRY_SQL (lg_append INDEX_REGISTRY_SQL (lg_append SCHEMA_REGISTRY_SQL d)))"
  by (simp add: initialize_schema_registries_def bind_st_def)

lemmas registration_eval = register_collection_def note_validation in_transaction_def register_body_def bind_st_def
  Let_def insert_registered_indexes_def create_declared_indexes_def lg_tx_simps empty_db_def registered_db_def

lemma register_new_note: "register_collection log_engine (note_collection 5) empty_db = (Inr Created, registered_db)"
  by (simp add: registration_eval)

lemma register_old_note:
  "register_collection log_engine (note_collection 7) registered_db = (Inl schema_mismatch, registered_db)"
  by (simp add: registration_eval ensure_registered_schema_matches_def registered_of_def)

lemma note_migration_valid: "validate_migration (note_schema 5) (note_schema 7) ''up'' = Inr ()"
  by (simp add: validate_migration_Inr note_wf note_fps valid_name_def)

lemmas migration_eval = migrate_collection_def note_migration_valid in_transaction_def migrate_body_def
  apply_migration_def recheck_migration_def Let_def bind_st_def map_err_st_def lg_tx_simps registered_db_def migrated_db_def

lemma migrate_note:
  "migrate_collection log_engine (note_collection 5) (note_collection 7) ''up'' (ret_st ()) registered_db =
     (Inr Applied, migrated_db)"
  by (simp add: migration_eval)

lemma migrate_note_fails:
  "migrate_collection log_engine (note_collection 5) (note_collection 7) ''up'' (fail_st schema_mismatch) registered_db =
     (Inl schema_mismatch, registered_db)"
  by (simp add: migration_eval)

section \<open>Witnesses\<close>

lemma note_plain: "plain_collection log_view (note_collection n)"
  by (simp add: plain_collection_def log_view_def)

theorem register_collection_atomic_witness:
  "register_collection log_engine (note_collection 7) registered_db = (Inl schema_mismatch, registered_db) \<and>
   register_collection log_engine (note_collection 5) empty_db = (Inr Created, registered_db) \<and>
   tv_durable log_view registered_db = [0, 1, 2, 12, 3] \<and> \<not> tv_open log_view registered_db \<and>
   (\<exists>b b'. e_begin log_engine empty_db = (Inr (), b) \<and> tv_content log_view b = [] \<and>
      register_body log_engine (note_collection 5) b = (Inr Created, b') \<and> tv_content log_view b' = [0, 1, 2, 12, 3])"
proof -
  have "\<not> tv_open log_view empty_db" "tv_durable log_view empty_db = []" by (simp_all add: log_view_def empty_db_def)
  then show ?thesis
    using register_collection_atomic [OF log_registry_engine note_plain _ register_new_note] register_old_note register_new_note
    by (auto simp: log_view_def registered_db_def)
qed

theorem migrate_collection_atomic_witness:
  "migrate_collection log_engine (note_collection 5) (note_collection 7) ''up'' (fail_st schema_mismatch) registered_db =
     (Inl schema_mismatch, registered_db) \<and> tv_durable log_view registered_db = [0, 1, 2, 12, 3] \<and> \<not> tv_open log_view registered_db"
  using migrate_collection_atomic [OF log_registry_engine note_plain scoped_pure(2) _ migrate_note_fails] migrate_note_fails
  by (simp add: log_view_def registered_db_def)

theorem register_collection_sound_witness:
  "register_collection log_engine (note_collection 5) empty_db = (Inr Created, registered_db) \<and> schema_wf (note_schema 5) \<and>
   (\<exists>b1 b'. registration_outcome log_engine (note_schema 5) Created b1 b' \<and> e_commit log_engine b' = (Inr (), registered_db))"
  using register_collection_sound [OF register_new_note] register_new_note unfolding note_collection_simps by blast

theorem migrate_collection_sound_witness:
  "migrate_collection log_engine (note_collection 5) (note_collection 7) ''up'' (ret_st ()) registered_db = (Inr Applied, migrated_db) \<and>
   (\<exists>b1 b'. migration_outcome log_engine (note_collection 5) (note_collection 7) ''up'' (ret_st ()) Applied b1 b' \<and>
      e_commit log_engine b' = (Inr (), migrated_db))"
  using migrate_collection_sound [OF migrate_note] migrate_note by blast

theorem recorded_migration_never_reruns_witness:
  "migrate_collection log_engine (note_collection 5) (note_collection 7) ''up'' (fail_st schema_mismatch) migrated_db =
   migrate_collection log_engine (note_collection 5) (note_collection 7) ''up'' (ret_st ()) migrated_db"
proof (rule recorded_migration_never_reruns [OF _ initialize_log])
  show "e_begin log_engine migrated_db = (Inr (), migrated_db\<lparr>lg_tx := Some (lg_durable migrated_db)\<rparr>)" by simp
qed (simp add: migration_rows_def log_query_def lg_tx_simps migrated_db_def)

definition note_index :: IndexSchema where
  "note_index = \<lparr>ix_id = ''id'', ix_name = ''notes'', ix_columns = [''id''], ix_unique = True,
     ix_fingerprint = note_fp 5, ix_canonical_descriptor = ''note''\<rparr>"

theorem registry_rows_round_trip_witness:
  "\<exists>r. decode_registered_index (map cell (tl (index_parameters ((note_schema 5)\<lparr>cs_indexes := [note_index]\<rparr>) note_index))) =
     Inr (Some r) \<and> index_registered_as r note_index"
proof -
  let ?s = "(note_schema 5)\<lparr>cs_indexes := [note_index]\<rparr>"
  have "schema_wf ?s" "utf8_valid (bytes_of_string (cs_table ?s))" "utf8_valid (bytes_of_string (cs_canonical_descriptor ?s))"
    using note_wf [of 5]
    by (auto simp: schema_wf_def note_schema_def note_index_def index_wf_def valid_name_def starts_with_def RESERVED_PREFIX_def)
  then show ?thesis
    using registry_rows_round_trip [of ?s "note_schema 7" note_index "''up''"] by (simp add: note_index_def)
qed

end
