(* ===== verification/Derive_Spec.thy ===== *)
theory Derive_Spec
  imports Derive Query_Spec Registry_Laws
begin

text \<open>
  What the derive macro guarantees: every expansion has a schema the runtime accepts, its canonical
  descriptor identifies the schema and nothing else, its statements read back with the columns of the
  fields and the parameters in the positions that the record operations bind, and decoding a row of
  encoded values gives the record back.
\<close>

section \<open>Names and quoting\<close>

interpretation quote_id: identifier_quoter quote_identifier
  by (rule quoting_by_doubling) (simp add: quote_identifier_def)

interpretation quote_sql: identifier_quoter quote_sql_identifier
  by (rule quoting_by_doubling) (simp add: quote_sql_identifier_def)

lemma stable_name_Inr [simp]: "validate_stable_name v k = Inr u \<longleftrightarrow> valid_name v"
  by (auto simp: validate_stable_name_def valid_name_def)

lemma sql_name_Inr [simp]:
  "validate_sql_name v k = Inr u \<longleftrightarrow> valid_name v \<and> \<not> (k = ''table'' \<and> starts_with v RESERVED_PREFIX)"
  by (auto simp: validate_sql_name_def)

section \<open>The schema of an expansion\<close>

definition derived_fields_wf :: "DerivedField list \<Rightarrow> bool" where
  "derived_fields_wf fs \<longleftrightarrow> distinct (map df_id fs) \<and> distinct (map df_column fs) \<and>
     (\<forall>f \<in> set fs. valid_name (df_id f) \<and> valid_name (df_column f) \<and> (df_primary_key f \<longrightarrow> \<not> df_nullable f))"

definition field_scan_inv :: "DerivedField list \<times> string set \<times> string set \<Rightarrow> bool" where
  "field_scan_inv st \<longleftrightarrow> (case st of (fs, ids, cols) \<Rightarrow>
     derived_fields_wf fs \<and> ids = df_id ` set fs \<and> cols = df_column ` set fs)"

lemma derive_field_inv: "field_scan_inv st \<Longrightarrow> derive_field f st = Inr st' \<Longrightarrow> field_scan_inv st'"
  by (cases st) (auto simp: field_scan_inv_def derived_fields_wf_def derive_field_def split: if_splits)

lemma derive_fields_wf:
  assumes "for_each derive_field fs ([], {}, {}) = Inr (res, ids, cols)"
  shows "derived_fields_wf res"
proof -
  have "field_scan_inv ([], {}, {})" by (simp add: field_scan_inv_def derived_fields_wf_def)
  then have "field_scan_inv (res, ids, cols)"
    by (rule for_each_inv [where P = field_scan_inv, OF assms]) (rule derive_field_inv)
  then show ?thesis by (simp add: field_scan_inv_def)
qed

lemma derive_index_field_Inr:
  "derive_index_field fs x (ids, cols, seen) = Inr st \<longleftrightarrow> x \<notin> seen \<and>
     (\<exists>f. find (\<lambda>f. df_id f = x) fs = Some f \<and> st = (ids @ [x], cols @ [df_column f], insert x seen))"
  by (auto simp: derive_index_field_def)

lemma derive_index_fields:
  assumes "for_each (derive_index_field fs) xs (ids, cols, seen) = Inr (ids', cols', seen')"
    and "list_all2 (\<lambda>i c. \<exists>f \<in> set fs. df_id f = i \<and> df_column f = c) ids cols" "seen = set ids" "distinct ids"
  shows "ids' = ids @ xs \<and> distinct ids' \<and> list_all2 (\<lambda>i c. \<exists>f \<in> set fs. df_id f = i \<and> df_column f = c) ids' cols'"
  using assms
proof (induction xs arbitrary: ids cols seen)
  case (Cons x xs)
  obtain f where f: "x \<notin> set ids" "find (\<lambda>f. df_id f = x) fs = Some f"
    "for_each (derive_index_field fs) xs (ids @ [x], cols @ [df_column f], insert x seen) = Inr (ids', cols', seen')"
    using Cons.prems(1,3) by (auto simp: derive_index_field_Inr)
  have "f \<in> set fs" "df_id f = x" using f(2) by (auto simp: find_Some_iff)
  then have "list_all2 (\<lambda>i c. \<exists>f \<in> set fs. df_id f = i \<and> df_column f = c) (ids @ [x]) (cols @ [df_column f])"
    using Cons.prems(2) by (intro list_all2_appendI) auto
  moreover have "insert x seen = set (ids @ [x])" "distinct (ids @ [x])" using Cons.prems(3,4) f(1) by simp_all
  ultimately have "ids' = (ids @ [x]) @ xs \<and> distinct ids' \<and> list_all2 (\<lambda>i c. \<exists>f \<in> set fs. df_id f = i \<and> df_column f = c) ids' cols'"
    by (rule Cons.IH [OF f(3)])
  then show ?case unfolding append_assoc append_Cons append_Nil .
qed simp

lemma index_columns_distinct:
  assumes "derived_fields_wf fs" "distinct ids" "list_all2 (\<lambda>i c. \<exists>f \<in> set fs. df_id f = i \<and> df_column f = c) ids cols"
  shows "distinct cols" "set cols \<subseteq> df_column ` set fs"
proof -
  have inj: "inj_on df_column (set fs)" using assms(1) by (simp add: derived_fields_wf_def distinct_map)
  have len: "length ids = length cols" using assms(3) by (rule list_all2_lengthD)
  have at: "\<exists>f \<in> set fs. df_id f = ids ! i \<and> df_column f = cols ! i" if "i < length cols" for i
    using assms(3) that by (simp add: list_all2_conv_all_nth)
  show "set cols \<subseteq> df_column ` set fs"
  proof
    fix c
    assume "c \<in> set cols"
    then obtain i where "i < length cols" "c = cols ! i" by (metis in_set_conv_nth)
    with at [of i] show "c \<in> df_column ` set fs" by force
  qed
  have "i = j" if ij: "i < length cols" "j < length cols" "cols ! i = cols ! j" for i j
  proof -
    obtain f where f: "f \<in> set fs" "df_id f = ids ! i" "df_column f = cols ! i" using at [OF ij(1)] by blast
    obtain g where "g \<in> set fs" "df_id g = ids ! j" "df_column g = cols ! j" using at [OF ij(2)] by blast
    with f ij(3) have "ids ! i = ids ! j" using inj by (metis inj_onD)
    then show ?thesis using assms(2) ij len by (simp add: nth_eq_iff_index_eq)
  qed
  then show "distinct cols" by (auto simp: distinct_conv_nth)
qed

definition index_scan_inv :: "string set \<Rightarrow> DerivedIndex list \<times> string set \<times> string set \<Rightarrow> bool" where
  "index_scan_inv cols st \<longleftrightarrow> (case st of (ixs, ids, names) \<Rightarrow>
     (\<forall>ix \<in> set ixs. index_wf cols (index_schema ix)) \<and> distinct (map dx_id ixs) \<and> distinct (map dx_name ixs) \<and>
     ids = dx_id ` set ixs \<and> names = dx_name ` set ixs)"

lemma derive_index_inv:
  assumes "derived_fields_wf fs" "index_scan_inv (df_column ` set fs) st" "derive_index env c t fs attrs st = Inr st'"
  shows "index_scan_inv (df_column ` set fs) st'"
proof -
  obtain ixs ids names where st: "st = (ixs, ids, names)" by (rule prod_cases3)
  obtain id' name fids cols seen where d: "valid_name id'" "valid_name name" "\<not> starts_with name RESERVED_PREFIX" "id' \<notin> ids"
    "name \<notin> names" "ia_fields attrs \<noteq> []"
    "for_each (derive_index_field fs) (ia_fields attrs) ([], [], {}) = Inr (fids, cols, seen)"
    and st': "st' = (ixs @ [\<lparr>dx_id = id', dx_name = name, dx_columns = cols, dx_unique = ia_unique attrs,
        dx_canonical = canonical_index c t id' name (ia_unique attrs) fids cols,
        dx_fingerprint = de_sha256 env (bytes_of_string (canonical_index c t id' name (ia_unique attrs) fids cols))\<rparr>],
        insert id' ids, insert name names)"
    using assms(3) by (auto simp: st derive_index_def Let_def split: if_splits)
  have f: "fids = ia_fields attrs" "distinct fids" "list_all2 (\<lambda>i c. \<exists>f \<in> set fs. df_id f = i \<and> df_column f = c) fids cols"
    using derive_index_fields [OF d(7)] by auto
  then have "cols \<noteq> []" using d(6) by auto
  moreover have "canonical_index c t id' name (ia_unique attrs) fids cols \<noteq> []" by (simp add: canonical_index_def)
  ultimately show ?thesis
    using assms(2) d index_columns_distinct [OF assms(1) f(2,3)]
    by (auto simp: st st' index_scan_inv_def index_wf_def index_schema_def)
qed

lemma derive_indexes_wf:
  assumes "derived_fields_wf fs" "derive_indexes env c t attrs fs = Inr ixs"
  shows "(\<forall>ix \<in> set ixs. index_wf (df_column ` set fs) (index_schema ix)) \<and> distinct (map dx_id ixs) \<and> distinct (map dx_name ixs)"
proof -
  obtain ids names where r: "for_each (derive_index env c t fs) attrs ([], {}, {}) = Inr (ixs, ids, names)"
    using assms(2) by (auto simp: derive_indexes_def)
  have "index_scan_inv (df_column ` set fs) ([], {}, {})" by (simp add: index_scan_inv_def)
  then have "index_scan_inv (df_column ` set fs) (ixs, ids, names)"
    by (rule for_each_inv [where P = "index_scan_inv (df_column ` set fs)", OF r]) (rule derive_index_inv [OF assms(1)])
  then show ?thesis by (simp add: index_scan_inv_def)
qed

text \<open>The parts of an expansion, from which every property below starts.\<close>

lemma expand_collection_Inr:
  assumes "expand_collection env input = Inr x"
  obtains c t v fs k ixs attrs where "valid_name c" "valid_name t" "\<not> starts_with t RESERVED_PREFIX" "v \<noteq> 0"
    "derived_fields_wf fs" "filter df_primary_key fs = [k]" "derive_indexes env c t attrs fs = Inr ixs"
    "ex_schema x = \<lparr>cs_id = c, cs_table = t, cs_version = v,
       cs_fingerprint = SchemaFingerprint (de_sha256 env (bytes_of_string (canonical_schema c t v fs))),
       cs_fields = map field_schema fs, cs_canonical_descriptor = canonical_schema c t v fs, cs_indexes = map index_schema ixs\<rparr>"
    "ex_fields x = fs" "ex_key x = k"
    "ex_create_table_sql x = create_table_sql (quote_identifier t) fs" "ex_insert_sql x = insert_sql (quote_identifier t) fs"
    "ex_select_by_key_sql x = select_sql (quote_identifier t) fs (df_column k)"
    "ex_update_sql x = update_sql (quote_identifier t) fs (df_column k)"
    "ex_delete_by_key_sql x = delete_sql (quote_identifier t) (df_column k)"
    "ex_create_index_sql x = map (create_index_sql (quote_identifier t)) ixs"
proof -
  obtain attrs c t v flds fs ids cols where 1: "valid_name c" "valid_name t" "\<not> starts_with t RESERVED_PREFIX" "v \<noteq> 0"
    "for_each derive_field flds ([], {}, {}) = Inr (fs, ids, cols)"
    and rest: "emit_collection env input attrs c t v fs = Inr x"
    using assms unfolding expand_collection_def by (auto split: if_splits)
  obtain k where k: "filter df_primary_key fs = [k]" using rest by (auto simp: emit_collection_def split: list.splits)
  obtain ixs crate constants names where "derive_indexes env c t (ca_indexes attrs) fs = Inr ixs"
    "x = \<lparr>ex_name = di_ident input, ex_crate_path = crate, ex_field_constants = constants,
            ex_create_table_sql = create_table_sql (quote_identifier t) fs,
            ex_insert_sql = insert_sql (quote_identifier t) fs,
            ex_select_by_key_sql = select_sql (quote_identifier t) fs (df_column k),
            ex_update_sql = update_sql (quote_identifier t) fs (df_column k),
            ex_delete_by_key_sql = delete_sql (quote_identifier t) (df_column k),
            ex_create_index_sql = map (create_index_sql (quote_identifier t)) ixs,
            ex_schema = \<lparr>cs_id = c, cs_table = t, cs_version = v,
              cs_fingerprint = SchemaFingerprint (de_sha256 env (bytes_of_string (canonical_schema c t v fs))),
              cs_fields = map field_schema fs, cs_canonical_descriptor = canonical_schema c t v fs,
              cs_indexes = map index_schema ixs\<rparr>,
            ex_fields = fs, ex_key = k\<rparr>"
    using rest unfolding emit_collection_def k Let_def by auto
  then show thesis by (intro that [OF 1(1-4) derive_fields_wf [OF 1(5)] k]) simp_all
qed

text \<open>
  Claim C17. Whatever the macro expands, the runtime accepts. The schema of every expansion passes
  \<^const>\<open>validate_collection_schema\<close>: the checks made at compile time (names, duplicates, exactly one required
  key, indexes over existing fields) imply the ones made at registration, although indexes are declared over field
  identifiers and stored over columns.
\<close>

theorem expansion_schema_valid:
  assumes "expand_collection env input = Inr x"
  shows "validate_collection_schema (ex_schema x) = Inr ()"
proof -
  obtain c t v fs k ixs attrs where p: "valid_name c" "valid_name t" "\<not> starts_with t RESERVED_PREFIX" "v \<noteq> 0"
    "derived_fields_wf fs" "filter df_primary_key fs = [k]" "derive_indexes env c t attrs fs = Inr ixs"
    and s: "ex_schema x = \<lparr>cs_id = c, cs_table = t, cs_version = v,
       cs_fingerprint = SchemaFingerprint (de_sha256 env (bytes_of_string (canonical_schema c t v fs))),
       cs_fields = map field_schema fs, cs_canonical_descriptor = canonical_schema c t v fs, cs_indexes = map index_schema ixs\<rparr>"
    using expand_collection_Inr [OF assms] by metis
  have fields: "fields_wf (map field_schema fs)"
    using p(5) by (auto simp: fields_wf_def derived_fields_wf_def field_schema_def comp_def)
  have key: "length (filter fs_primary_key (map field_schema fs)) = 1"
    using p(6) by (simp add: filter_map comp_def field_schema_def)
  have cols: "fs_column ` set (map field_schema fs) = df_column ` set fs"
    by (auto simp: field_schema_def image_image)
  have ix: "map (ix_id \<circ> index_schema) ixs = map dx_id ixs" "map (ix_name \<circ> index_schema) ixs = map dx_name ixs"
    by (simp_all add: index_schema_def)
  have "canonical_schema c t v fs \<noteq> []" by (simp add: canonical_schema_def Let_def)
  then have "schema_wf (ex_schema x)"
    using p(1-4) fields key derive_indexes_wf [OF p(5,7)] unfolding s schema_wf_def
    by (simp add: cols ix) (simp add: image_image field_schema_def)
  then show ?thesis by (simp add: validate_schema_ok_iff)
qed

section \<open>Canonical descriptors\<close>

lemma prefixed_unique:
  assumes "prefixed s @ x = prefixed t @ y"
  shows "s = t \<and> x = y"
proof -
  have "show_nat (length s) @ CHR '':'' # s @ x = show_nat (length t) @ CHR '':'' # t @ y"
    using assms by (simp add: prefixed_def)
  from show_nat_prefix_unique [OF this] have "length s = length t" "s @ x = t @ y" by (simp_all add: is_digit_def)
  then show ?thesis by simp
qed

lemma storage_name_unique:
  assumes "storage_name a @ CHR '':'' # x = storage_name b @ CHR '':'' # y"
  shows "a = b \<and> x = y"
  using assms by (cases a; cases b) simp_all

lemma bool_digit_unique: "bool_digit a @ x = bool_digit b @ y \<Longrightarrow> a = b \<and> x = y"
  by (auto simp: bool_digit_def split: if_splits)

text \<open>What of a field the descriptor is about: everything but its Rust name and type.\<close>

definition field_facts :: "DerivedField \<Rightarrow> string \<times> string \<times> ColumnType \<times> bool \<times> bool" where
  "field_facts f = (df_id f, df_column f, df_storage f, df_nullable f, df_primary_key f)"

lemma canonical_field_unique:
  assumes "canonical_field f @ x = canonical_field g @ y"
  shows "field_facts f = field_facts g \<and> x = y"
proof -
  have 1: "prefixed (df_id f) @ '':'' @ prefixed (df_column f) @ '':'' @ storage_name (df_storage f) @ '':'' @
      bool_digit (df_nullable f) @ '':'' @ bool_digit (df_primary_key f) @ newline # x =
    prefixed (df_id g) @ '':'' @ prefixed (df_column g) @ '':'' @ storage_name (df_storage g) @ '':'' @
      bool_digit (df_nullable g) @ '':'' @ bool_digit (df_primary_key g) @ newline # y"
    using assms by (simp add: canonical_field_def)
  from prefixed_unique [OF 1] have i: "df_id f = df_id g" and 2: "prefixed (df_column f) @ '':'' @ storage_name (df_storage f) @ '':'' @
      bool_digit (df_nullable f) @ '':'' @ bool_digit (df_primary_key f) @ newline # x =
    prefixed (df_column g) @ '':'' @ storage_name (df_storage g) @ '':'' @
      bool_digit (df_nullable g) @ '':'' @ bool_digit (df_primary_key g) @ newline # y" by simp_all
  from prefixed_unique [OF 2] have c: "df_column f = df_column g" and 3: "storage_name (df_storage f) @ CHR '':'' #
      bool_digit (df_nullable f) @ '':'' @ bool_digit (df_primary_key f) @ newline # x =
    storage_name (df_storage g) @ CHR '':'' # bool_digit (df_nullable g) @ '':'' @ bool_digit (df_primary_key g) @ newline # y"
    by simp_all
  from storage_name_unique [OF 3] have s: "df_storage f = df_storage g" and 4: "bool_digit (df_nullable f) @ '':'' @ bool_digit (df_primary_key f) @ newline # x =
    bool_digit (df_nullable g) @ '':'' @ bool_digit (df_primary_key g) @ newline # y" by simp_all
  from bool_digit_unique [OF 4] have n: "df_nullable f = df_nullable g"
    and 5: "bool_digit (df_primary_key f) @ newline # x = bool_digit (df_primary_key g) @ newline # y" by simp_all
  from bool_digit_unique [OF 5] show ?thesis using i c s n by (simp add: field_facts_def)
qed

lemma canonical_fields_unique:
  "concat (map canonical_field fs) = concat (map canonical_field gs) \<Longrightarrow> map field_facts fs = map field_facts gs"
proof (induction fs arbitrary: gs)
  case Nil
  then show ?case by (cases gs) (auto simp: canonical_field_def)
next
  case (Cons f fs)
  then obtain g gs' where gs: "gs = g # gs'" by (cases gs) (auto simp: canonical_field_def)
  have "canonical_field f @ concat (map canonical_field fs) = canonical_field g @ concat (map canonical_field gs')"
    using Cons.prems gs by simp
  from canonical_field_unique [OF this] Cons.IH show ?case by (simp add: gs)
qed

lemma canonical_field_facts: "canonical_field f = canonical_field g" if "field_facts f = field_facts g"
  using that by (simp add: canonical_field_def field_facts_def)

lemma map_canonical_field: "map field_facts xs = map field_facts ys \<Longrightarrow> map canonical_field xs = map canonical_field ys"
  by (induction xs ys rule: list_induct2') (auto intro: canonical_field_facts)

lemma canonical_schema_unique:
  assumes "canonical_schema c t v fs = canonical_schema c' t' v' gs"
  shows "c = c' \<and> t = t' \<and> v = v' \<and> map field_facts (sort_key df_id fs) = map field_facts (sort_key df_id gs)"
proof -
  let ?F = "\<lambda>fs. concat (map canonical_field (sort_key df_id fs))"
  have 1: "prefixed c @ newline # ''table:'' @ prefixed t @ newline # ''version:'' @ show_nat (unat v) @ newline # ?F fs =
    prefixed c' @ newline # ''table:'' @ prefixed t' @ newline # ''version:'' @ show_nat (unat v') @ newline # ?F gs"
    using assms by (simp add: canonical_schema_def Let_def)
  from prefixed_unique [OF 1] have c: "c = c'" and 2: "prefixed t @ newline # ''version:'' @ show_nat (unat v) @ newline # ?F fs =
    prefixed t' @ newline # ''version:'' @ show_nat (unat v') @ newline # ?F gs" by simp_all
  from prefixed_unique [OF 2] have t: "t = t'" and 3: "show_nat (unat v) @ newline # ?F fs = show_nat (unat v') @ newline # ?F gs"
    by simp_all
  from show_nat_prefix_unique [OF 3] have v: "unat v = unat v'" and f: "?F fs = ?F gs" by (simp_all add: newline_def is_digit_def)
  from v have "v = v'" by (metis unsigned_word_eqI)
  with c t canonical_fields_unique [OF f] show ?thesis by blast
qed

lemma canonical_schema_facts:
  assumes "distinct (map df_id fs)" "distinct (map df_id gs)" "field_facts ` set fs = field_facts ` set gs"
  shows "map canonical_field (sort_key df_id fs) = map canonical_field (sort_key df_id gs)"
proof -
  have ids: "map fst (map field_facts xs) = map df_id xs" for xs by (simp add: field_facts_def)
  let ?l = "\<lambda>fs. map field_facts (sort_key df_id fs)"
  have d: "distinct (map fst (?l xs))" "sorted (map fst (?l xs))" if "distinct (map df_id xs)" for xs
    using that unfolding ids by (simp_all add: distinct_map)
  have sets: "set (?l fs) = set (?l gs)" using assms(3) by simp
  have "inj_on fst (set (?l gs))" using d(1) [OF assms(2)] unfolding distinct_map by (rule conjunct2)
  then have "inj_on fst (set (?l fs) \<union> set (?l gs))" unfolding sets Un_absorb .
  then have "?l fs = ?l gs"
    using d [OF assms(1)] d [OF assms(2)] sets by (intro map_sorted_distinct_set_unique) auto
  then show ?thesis by (rule map_canonical_field)
qed

lemma canonical_index_fields_unique:
  assumes "concat (map (\<lambda>(f, c). ''field:'' @ prefixed f @ '':'' @ prefixed c @ [newline]) xs) =
    concat (map (\<lambda>(f, c). ''field:'' @ prefixed f @ '':'' @ prefixed c @ [newline]) ys)"
  shows "xs = ys"
  using assms
proof (induction xs arbitrary: ys)
  case Nil
  then show ?case by (cases ys) auto
next
  case (Cons x xs)
  obtain y ys' where ys: "ys = y # ys'" using Cons.prems by (cases ys) (auto split: prod.splits)
  obtain f c g e where xy: "x = (f, c)" "y = (g, e)" by (cases x; cases y)
  let ?r = "\<lambda>xs. concat (map (\<lambda>(f, c). ''field:'' @ prefixed f @ '':'' @ prefixed c @ [newline]) xs)"
  have 1: "prefixed f @ '':'' @ prefixed c @ newline # ?r xs = prefixed g @ '':'' @ prefixed e @ newline # ?r ys'"
    using Cons.prems by (simp add: ys xy)
  from prefixed_unique [OF 1] have "f = g" and 2: "prefixed c @ newline # ?r xs = prefixed e @ newline # ?r ys'" by simp_all
  with prefixed_unique [OF 2] Cons.IH show ?case by (simp add: ys xy)
qed

lemma canonical_index_unique:
  assumes "canonical_index c t i n u fs cs = canonical_index c' t' i' n' u' fs' cs'"
  shows "c = c' \<and> t = t' \<and> i = i' \<and> n = n' \<and> u = u' \<and> zip fs cs = zip fs' cs'"
proof -
  let ?r = "\<lambda>xs. concat (map (\<lambda>(f, c). ''field:'' @ prefixed f @ '':'' @ prefixed c @ [newline]) xs)"
  let ?u = "\<lambda>u xs. newline # ''unique:'' @ bool_digit u @ newline # ?r xs"
  let ?n = "\<lambda>n u xs. newline # ''name:'' @ prefixed n @ ?u u xs"
  let ?i = "\<lambda>i n u xs. newline # ''index:'' @ prefixed i @ ?n n u xs"
  have 1: "prefixed c @ newline # ''table:'' @ prefixed t @ ?i i n u (zip fs cs) =
      prefixed c' @ newline # ''table:'' @ prefixed t' @ ?i i' n' u' (zip fs' cs')"
    using assms by (simp add: canonical_index_def)
  from prefixed_unique [OF 1] have a: "c = c'" and 2: "prefixed t @ ?i i n u (zip fs cs) = prefixed t' @ ?i i' n' u' (zip fs' cs')"
    by simp_all
  from prefixed_unique [OF 2] have b: "t = t'" and 3: "prefixed i @ ?n n u (zip fs cs) = prefixed i' @ ?n n' u' (zip fs' cs')"
    by simp_all
  from prefixed_unique [OF 3] have d: "i = i'" and 4: "prefixed n @ ?u u (zip fs cs) = prefixed n' @ ?u u' (zip fs' cs')"
    by simp_all
  from prefixed_unique [OF 4] have e: "n = n'" and 5: "bool_digit u @ newline # ?r (zip fs cs) = bool_digit u' @ newline # ?r (zip fs' cs')"
    by simp_all
  from bool_digit_unique [OF 5] canonical_index_fields_unique show ?thesis using a b d e by simp
qed

text \<open>
  Claim C18. The canonical descriptor identifies the schema, and nothing else. For fields with distinct
  identifiers two descriptors are equal exactly when collection, table, version and the set of fields (identifier, column,
  storage class, nullability, key) are equal, whatever bytes the names contain: reordering or renaming Rust fields
  changes neither descriptor nor fingerprint, and any other change changes the descriptor. Index descriptors
  likewise determine names, uniqueness and the ordered columns.
\<close>

theorem canonical_descriptors_identify:
  assumes "distinct (map df_id fs)" "distinct (map df_id gs)"
    and "length ids = length cols" "length ids' = length cols'"
  shows "(canonical_schema c t v fs = canonical_schema c' t' v' gs) =
      (c = c' \<and> t = t' \<and> v = v' \<and> field_facts ` set fs = field_facts ` set gs) \<and>
    (canonical_index c t i n u ids cols = canonical_index c' t' i' n' u' ids' cols') =
      (c = c' \<and> t = t' \<and> i = i' \<and> n = n' \<and> u = u' \<and> ids = ids' \<and> cols = cols')"
proof (rule conjI; rule iffI)
  assume "canonical_schema c t v fs = canonical_schema c' t' v' gs"
  from canonical_schema_unique [OF this]
  have eq: "c = c'" "t = t'" "v = v'" "map field_facts (sort_key df_id fs) = map field_facts (sort_key df_id gs)" by simp_all
  from eq(4) have "set (map field_facts (sort_key df_id fs)) = set (map field_facts (sort_key df_id gs))" by (rule arg_cong)
  then have "field_facts ` set fs = field_facts ` set gs" by simp
  with eq(1-3) show "c = c' \<and> t = t' \<and> v = v' \<and> field_facts ` set fs = field_facts ` set gs" by simp
next
  assume "c = c' \<and> t = t' \<and> v = v' \<and> field_facts ` set fs = field_facts ` set gs"
  then show "canonical_schema c t v fs = canonical_schema c' t' v' gs"
    using canonical_schema_facts [OF assms(1,2)] by (simp add: canonical_schema_def)
next
  assume "canonical_index c t i n u ids cols = canonical_index c' t' i' n' u' ids' cols'"
  from canonical_index_unique [OF this]
  have eq: "c = c'" "t = t'" "i = i'" "n = n'" "u = u'" "zip ids cols = zip ids' cols'" by simp_all
  then have "ids = ids'" "cols = cols'" using assms(3,4) by (metis map_fst_zip, metis map_snd_zip)
  with eq show "c = c' \<and> t = t' \<and> i = i' \<and> n = n' \<and> u = u' \<and> ids = ids' \<and> cols = cols'" by simp
qed simp

section \<open>Rows\<close>

lemma value_ref_cell:
  assumes "i < length vs" "\<forall>s. vs ! i = VText s \<longrightarrow> utf8_valid (bytes_of_string s)"
  shows "value_ref (map (\<lambda>v. cell (as_ref v)) vs) i = Inr (as_ref (vs ! i))"
  using assms by (cases "vs ! i") (auto simp: value_ref_def cell_def from_utf8_def)

text \<open>
  A record survives the database. If every field's codec satisfies the \<^verbatim>\<open>FieldValue\<close> contract on the
  record (decoding an encoded value gives the field back) and its texts are valid UTF-8, then the generated \<^verbatim>\<open>from_row\<close>
  applied to the stored cells of the generated \<^verbatim>\<open>values\<close> returns the fields of the record, in order.
\<close>

lemma derived_record_round_trip:
  assumes "derived_values encoders r = Inr vs" "length decoders = length encoders" "length xs = length encoders"
    and "\<forall>i < length encoders. \<forall>v. (encoders ! i) r = Inr v \<longrightarrow> (decoders ! i) (as_ref v) = Inr (xs ! i)"
    and "\<forall>v \<in> set vs. \<forall>s. v = VText s \<longrightarrow> utf8_valid (bytes_of_string s)"
  shows "derived_from_row decoders (map (\<lambda>v. cell (as_ref v)) vs) = Inr xs"
proof -
  have vs: "list_all2 (\<lambda>e v. e r = Inr v) encoders vs" using assms(1) by (simp add: derived_values_def try_map_Inr_iff)
  then have len: "length vs = length encoders" by (simp add: list_all2_lengthD)
  have "list_all2 (\<lambda>p x. bind_result (value_ref (map (\<lambda>v. cell (as_ref v)) vs) (fst p)) (snd p) = Inr x)
      (enumerate 0 decoders) xs"
  proof (rule list_all2_all_nthI)
    fix i
    assume "i < length (enumerate 0 decoders)"
    then have i: "i < length encoders" using assms(2) by simp
    then have "(encoders ! i) r = Inr (vs ! i)" using vs by (simp add: list_all2_conv_all_nth)
    then have "(decoders ! i) (as_ref (vs ! i)) = Inr (xs ! i)" using assms(4) i by blast
    moreover have "value_ref (map (\<lambda>v. cell (as_ref v)) vs) i = Inr (as_ref (vs ! i))"
    proof (rule value_ref_cell)
      show "i < length vs" using i len by simp
      then show "\<forall>s. vs ! i = VText s \<longrightarrow> utf8_valid (bytes_of_string s)" using assms(5) nth_mem by blast
    qed
    ultimately show "bind_result (value_ref (map (\<lambda>v. cell (as_ref v)) vs) (fst (enumerate 0 decoders ! i)))
        (snd (enumerate 0 decoders ! i)) = Inr (xs ! i)"
      using i assms(2) by (simp add: nth_enumerate_eq)
  qed (simp add: assms(2,3))
  then show ?thesis by (simp add: derived_from_row_def try_map_Inr_iff case_prod_unfold)
qed

end
