(* ===== verification/Derive_Sql.thy ===== *)
theory Derive_Sql
  imports Derive_Spec
begin

text \<open>
  The SQL constants of an expansion, read back by a reader of the statement forms the macro emits, and
  their agreement with the values that \<^const>\<open>insert_record\<close>, \<^const>\<open>update_record\<close>, \<^const>\<open>get_record\<close> and
  \<^const>\<open>delete_record\<close> bind. The text length is the fuel of the list readers: every item takes a character.
\<close>

section \<open>Reading the generated statements\<close>

lemma quote_identifier_push: "quote_identifier = push_identifier []"
  by (rule ext) (simp add: quote_identifier_def push_identifier_eq)

fun read_parameter :: "string \<Rightarrow> (nat \<times> string) option" where
  "read_parameter [] = None"
| "read_parameter (c # s) =
     (let ds = takeWhile is_digit s in
      if c = CHR ''?'' \<and> ds \<noteq> [] then Some (digits_value ds, dropWhile is_digit s) else None)"

fun read_parameters :: "nat \<Rightarrow> string \<Rightarrow> (nat list \<times> string) option" where
  "read_parameters 0 s = None"
| "read_parameters (Suc n) s =
     Option.bind (read_parameter s) (\<lambda>(p, r).
     case strip_prefix '', '' r of
       None \<Rightarrow> Some ([p], r)
     | Some r \<Rightarrow> Option.bind (read_parameters n r) (\<lambda>(ps, r). Some (p # ps, r)))"

text \<open>An assignment gives a column a parameter, or its own value.\<close>

definition read_assignment :: "string \<Rightarrow> ((string \<times> nat option) \<times> string) option" where
  "read_assignment s =
     Option.bind (read_identifier s) (\<lambda>(c, r).
     Option.bind (strip_prefix '' = '' r) (\<lambda>r.
     case read_parameter r of
       Some (p, r) \<Rightarrow> Some ((c, Some p), r)
     | None \<Rightarrow> Option.bind (read_identifier r) (\<lambda>(c', r). if c' = c then Some ((c, None), r) else None)))"

fun read_assignments :: "nat \<Rightarrow> string \<Rightarrow> ((string \<times> nat option) list \<times> string) option" where
  "read_assignments 0 s = None"
| "read_assignments (Suc n) s =
     Option.bind (read_assignment s) (\<lambda>(a, r).
     case strip_prefix '', '' r of
       None \<Rightarrow> Some ([a], r)
     | Some r \<Rightarrow> Option.bind (read_assignments n r) (\<lambda>(as, r). Some (a # as, r)))"

definition parse_insert :: "string \<Rightarrow> (string \<times> string list \<times> nat list) option" where
  "parse_insert s =
     Option.bind (strip_prefix ''INSERT INTO '' s) (\<lambda>r.
     Option.bind (read_identifier r) (\<lambda>(table, r).
     Option.bind (strip_prefix '' ('' r) (\<lambda>r.
     Option.bind (read_columns (length s) r) (\<lambda>(cols, r).
     Option.bind (strip_prefix '') VALUES ('' r) (\<lambda>r.
     Option.bind (read_parameters (length s) r) (\<lambda>(ps, r).
     if r = '')'' then Some (table, cols, ps) else None))))))"

definition parse_key_test :: "string \<Rightarrow> (string \<times> nat \<times> string) option" where
  "parse_key_test s =
     Option.bind (strip_prefix '' WHERE '' s) (\<lambda>r.
     Option.bind (read_identifier r) (\<lambda>(key, r).
     Option.bind (strip_prefix '' = '' r) (\<lambda>r.
     Option.bind (read_parameter r) (\<lambda>(p, r). Some (key, p, r)))))"

definition parse_update :: "string \<Rightarrow> (string \<times> (string \<times> nat option) list \<times> string \<times> nat) option" where
  "parse_update s =
     Option.bind (strip_prefix ''UPDATE '' s) (\<lambda>r.
     Option.bind (read_identifier r) (\<lambda>(table, r).
     Option.bind (strip_prefix '' SET '' r) (\<lambda>r.
     Option.bind (read_assignments (length s) r) (\<lambda>(as, r).
     Option.bind (parse_key_test r) (\<lambda>(key, p, r).
     if r = [] then Some (table, as, key, p) else None)))))"

definition parse_select_by_key :: "string \<Rightarrow> (string list \<times> string \<times> string \<times> nat) option" where
  "parse_select_by_key s =
     Option.bind (strip_prefix ''SELECT '' s) (\<lambda>r.
     Option.bind (read_columns (length s) r) (\<lambda>(cols, r).
     Option.bind (strip_prefix '' FROM '' r) (\<lambda>r.
     Option.bind (read_identifier r) (\<lambda>(table, r).
     Option.bind (parse_key_test r) (\<lambda>(key, p, r).
     if r = '' LIMIT 1'' then Some (cols, table, key, p) else None)))))"

definition parse_delete :: "string \<Rightarrow> (string \<times> string \<times> nat) option" where
  "parse_delete s =
     Option.bind (strip_prefix ''DELETE FROM '' s) (\<lambda>r.
     Option.bind (read_identifier r) (\<lambda>(table, r).
     Option.bind (parse_key_test r) (\<lambda>(key, p, r).
     if r = [] then Some (table, key, p) else None)))"

lemma span_digits:
  assumes "rest = [] \<or> \<not> is_digit (hd rest)"
  shows "takeWhile is_digit (show_nat n @ rest) = show_nat n" "dropWhile is_digit (show_nat n @ rest) = rest"
proof -
  have d: "\<forall>c \<in> set (show_nat n). is_digit c" by (rule show_nat_digits)
  then show "takeWhile is_digit (show_nat n @ rest) = show_nat n"
    using assms by (cases rest) (simp_all add: takeWhile_append2)
  show "dropWhile is_digit (show_nat n @ rest) = rest"
    using d assms by (cases rest) (simp_all add: dropWhile_append2)
qed

lemma read_parameter_show:
  assumes "rest = [] \<or> \<not> is_digit (hd rest)"
  shows "read_parameter (parameter n @ rest) = Some (n, rest)"
  using span_digits [OF assms] by (simp add: parameter_def)

lemma read_parameter_one: "read_parameter (CHR ''?'' # CHR ''1'' # rest) = Some (1, rest)"
  if "rest = [] \<or> \<not> is_digit (hd rest)"
proof -
  have "parameter 1 = ''?1''" by code_simp
  then show ?thesis using read_parameter_show [OF that, of 1] by simp
qed

lemma read_parameters_join:
  assumes "length ps \<le> n" "ps \<noteq> []" "rest = CHR '')'' # rest'"
  shows "read_parameters n (join '', '' (map parameter ps) @ rest) = Some (ps, rest)"
  using assms(1,2)
proof (induction ps arbitrary: n rule: induct_list012)
  case (2 p)
  then obtain m where "n = Suc m" by (cases n) auto
  moreover have "rest = [] \<or> \<not> is_digit (hd rest)" by (simp add: assms(3) is_digit_def)
  ultimately show ?case using assms(3) by (simp add: read_parameter_show)
next
  case (3 p q ps)
  then obtain m where m: "n = Suc m" "length (q # ps) \<le> m" by (cases n) auto
  with 3 have IH: "read_parameters m (join '', '' (map parameter (q # ps)) @ rest) = Some (q # ps, rest)" by blast
  have "read_parameter (parameter p @ '', '' @ join '', '' (map parameter (q # ps)) @ rest) =
      Some (p, '', '' @ join '', '' (map parameter (q # ps)) @ rest)"
    by (rule read_parameter_show) (simp add: is_digit_def)
  with IH show ?case by (simp add: m(1))
qed simp

lemma read_identifier_quote: "(\<And>r. rest \<noteq> dquote # r) \<Longrightarrow> read_identifier (quote_identifier s @ rest) = Some (s, rest)"
  by (rule quote_id.read_back)

lemma read_quoted_columns:
  assumes "length fs \<le> n" "fs \<noteq> []" "\<And>r. rest \<noteq> dquote # r" "strip_prefix '', '' rest = None"
  shows "read_columns n (quoted_columns fs @ rest) = Some (map df_column fs, rest)"
  using read_columns_join [of "map df_column fs" n rest] assms
  by (simp add: quoted_columns_def quote_identifier_push comp_def)

lemma read_assignment_show:
  assumes "rest = [] \<or> \<not> is_digit (hd rest)"
  shows "read_assignment (assignment (i, f) @ rest) = Some ((df_column f, Some (i + 1)), rest)"
proof -
  have "read_identifier (quote_identifier (df_column f) @ '' = '' @ parameter (i + 1) @ rest) =
      Some (df_column f, '' = '' @ parameter (i + 1) @ rest)"
    by (rule read_identifier_quote) simp
  then show ?thesis
    using read_parameter_show [OF assms, of "i + 1"] by (simp add: assignment_def read_assignment_def)
qed

definition assigned :: "nat \<times> DerivedField \<Rightarrow> string \<times> nat option" where
  "assigned x = (df_column (snd x), Some (fst x + 1))"

lemma read_assignments_join:
  assumes "length xs \<le> n" "xs \<noteq> []" "rest = CHR '' '' # rest'"
  shows "read_assignments n (join '', '' (map assignment xs) @ rest) = Some (map assigned xs, rest)"
  using assms(1,2)
proof (induction xs arbitrary: n rule: induct_list012)
  case (2 x)
  then obtain m where "n = Suc m" by (cases n) auto
  moreover have "rest = [] \<or> \<not> is_digit (hd rest)" by (simp add: assms(3) is_digit_def)
  ultimately show ?case using assms(3) read_assignment_show [of rest "fst x" "snd x"] by (simp add: assigned_def)
next
  case (3 x y xs)
  then obtain m where m: "n = Suc m" "length (y # xs) \<le> m" by (cases n) auto
  with 3 have IH: "read_assignments m (join '', '' (map assignment (y # xs)) @ rest) = Some (map assigned (y # xs), rest)"
    by blast
  have "read_assignment (assignment (fst x, snd x) @ '', '' @ join '', '' (map assignment (y # xs)) @ rest) =
      Some ((df_column (snd x), Some (fst x + 1)), '', '' @ join '', '' (map assignment (y # xs)) @ rest)"
    by (rule read_assignment_show) (simp add: is_digit_def)
  with IH show ?case by (simp add: m(1) assigned_def)
qed simp

lemma join_count: "length (map f xs) \<le> length (join '', '' (map f xs)) + 1"
  by (rule join_length)

lemma parse_insert_sql:
  assumes "fs \<noteq> []"
  shows "parse_insert (insert_sql (quote_identifier t) fs) = Some (t, map df_column fs, [1..<length fs + 1])"
proof -
  let ?s = "insert_sql (quote_identifier t) fs"
  let ?ps = "join '', '' (map parameter [1..<length fs + 1]) @ '')''"
  have n: "length fs \<le> length ?s"
    using join_count [of "\<lambda>f. quote_identifier (df_column f)" fs] by (simp add: insert_sql_def quoted_columns_def)
  have s: "strip_prefix ''INSERT INTO '' ?s = Some (quote_identifier t @ '' ('' @ quoted_columns fs @ '') VALUES ('' @ ?ps)"
    unfolding insert_sql_def by (rule strip_prefix_append)
  have t: "read_identifier (quote_identifier t @ '' ('' @ quoted_columns fs @ '') VALUES ('' @ ?ps) =
      Some (t, '' ('' @ quoted_columns fs @ '') VALUES ('' @ ?ps)"
    by (rule read_identifier_quote) simp
  have c: "read_columns (length ?s) (quoted_columns fs @ '') VALUES ('' @ ?ps) = Some (map df_column fs, '') VALUES ('' @ ?ps)"
    by (rule read_quoted_columns) (use n assms in simp_all)
  have p: "read_parameters (length ?s) ?ps = Some ([1..<length fs + 1], '')'')"
    by (rule read_parameters_join) (use n assms in \<open>simp_all add: Suc_le_eq\<close>)
  show ?thesis
    unfolding parse_insert_def s Option.bind.bind_lunit t prod.case strip_prefix_append c p by simp
qed

lemma parse_key_test_show:
  assumes "rest = [] \<or> \<not> is_digit (hd rest)"
  shows "parse_key_test ('' WHERE '' @ quote_identifier k @ '' = '' @ parameter n @ rest) = Some (k, n, rest)"
proof -
  have "read_identifier (quote_identifier k @ '' = '' @ parameter n @ rest) = Some (k, '' = '' @ parameter n @ rest)"
    by (rule read_identifier_quote) simp
  then show ?thesis
    unfolding parse_key_test_def strip_prefix_append Option.bind.bind_lunit
    using read_parameter_show [OF assms] by (simp only: prod.case strip_prefix_append Option.bind.bind_lunit)
qed

lemma parameter_one: "parameter 1 = ''?1''"
  by code_simp

lemma parse_select_sql:
  assumes "fs \<noteq> []"
  shows "parse_select_by_key (select_sql (quote_identifier t) fs k) = Some (map df_column fs, t, k, 1)"
proof -
  let ?s = "select_sql (quote_identifier t) fs k"
  let ?k = "'' WHERE '' @ quote_identifier k @ '' = '' @ parameter 1 @ '' LIMIT 1''"
  have n: "length fs \<le> length ?s"
    using join_count [of "\<lambda>f. quote_identifier (df_column f)" fs] by (simp add: select_sql_def quoted_columns_def)
  have s: "strip_prefix ''SELECT '' ?s = Some (quoted_columns fs @ '' FROM '' @ quote_identifier t @ ?k)"
    unfolding select_sql_def parameter_one by simp
  have c: "read_columns (length ?s) (quoted_columns fs @ '' FROM '' @ quote_identifier t @ ?k) =
      Some (map df_column fs, '' FROM '' @ quote_identifier t @ ?k)"
    by (rule read_quoted_columns) (use n assms in simp_all)
  have t: "read_identifier (quote_identifier t @ ?k) = Some (t, ?k)" by (rule read_identifier_quote) simp
  have k: "parse_key_test ?k = Some (k, 1, '' LIMIT 1'')" by (rule parse_key_test_show) (simp add: is_digit_def)
  show ?thesis
    unfolding parse_select_by_key_def s Option.bind.bind_lunit c prod.case strip_prefix_append t k by simp
qed

lemma parse_delete_sql: "parse_delete (delete_sql (quote_identifier t) k) = Some (t, k, 1)"
proof -
  let ?k = "'' WHERE '' @ quote_identifier k @ '' = '' @ parameter 1 @ []"
  have s: "strip_prefix ''DELETE FROM '' (delete_sql (quote_identifier t) k) = Some (quote_identifier t @ ?k)"
    unfolding delete_sql_def parameter_one by simp
  have t: "read_identifier (quote_identifier t @ ?k) = Some (t, ?k)" by (rule read_identifier_quote) simp
  have k: "parse_key_test ?k = Some (k, 1, [])" by (rule parse_key_test_show) simp
  show ?thesis unfolding parse_delete_def s Option.bind.bind_lunit t prod.case k by simp
qed

definition update_assignments :: "DerivedField list \<Rightarrow> string \<Rightarrow> (string \<times> nat option) list" where
  "update_assignments fs k =
     (case filter (\<lambda>f. \<not> df_primary_key f) fs of
        [] \<Rightarrow> [(k, None)]
      | _ \<Rightarrow> map assigned (enumerate 0 (filter (\<lambda>f. \<not> df_primary_key f) fs)))"

lemma parse_update_sql:
  "parse_update (update_sql (quote_identifier t) fs k) =
     Some (t, update_assignments fs k, k, length (filter (\<lambda>f. \<not> df_primary_key f) fs) + 1)"
proof (cases "filter (\<lambda>f. \<not> df_primary_key f) fs")
  case Nil
  let ?s = "update_sql (quote_identifier t) fs k"
  let ?k = "'' WHERE '' @ quote_identifier k @ '' = '' @ parameter 1 @ []"
  have s: "strip_prefix ''UPDATE '' ?s = Some (quote_identifier t @ '' SET '' @ quote_identifier k @ '' = '' @ quote_identifier k @ ?k)"
    using Nil unfolding update_sql_def parameter_one Let_def by simp
  have t: "read_identifier (quote_identifier t @ '' SET '' @ quote_identifier k @ '' = '' @ quote_identifier k @ ?k) =
      Some (t, '' SET '' @ quote_identifier k @ '' = '' @ quote_identifier k @ ?k)" by (rule read_identifier_quote) simp
  have a1: "read_identifier (quote_identifier k @ '' = '' @ quote_identifier k @ ?k) = Some (k, '' = '' @ quote_identifier k @ ?k)"
    by (rule read_identifier_quote) simp
  have a2: "read_identifier (quote_identifier k @ ?k) = Some (k, ?k)" by (rule read_identifier_quote) simp
  have a3: "read_parameter (quote_identifier k @ ?k) = None" by (simp add: quote_identifier_def)
  have a: "read_assignment (quote_identifier k @ '' = '' @ quote_identifier k @ ?k) = Some ((k, None), ?k)"
    unfolding read_assignment_def a1 Option.bind.bind_lunit prod.case strip_prefix_append a3 option.case a2 by simp
  obtain m where m: "length ?s = Suc m" using Nil by (cases "length ?s") (auto simp: update_sql_def Let_def)
  have as: "read_assignments (length ?s) (quote_identifier k @ '' = '' @ quote_identifier k @ ?k) = Some ([(k, None)], ?k)"
    unfolding m read_assignments.simps a Option.bind.bind_lunit prod.case by simp
  have k: "parse_key_test ?k = Some (k, 1, [])" by (rule parse_key_test_show) simp
  show ?thesis
    unfolding parse_update_def s Option.bind.bind_lunit t prod.case strip_prefix_append as k
    using Nil by (simp add: update_assignments_def)
next
  case (Cons g gs)
  let ?s = "update_sql (quote_identifier t) fs k"
  let ?nonkey = "filter (\<lambda>f. \<not> df_primary_key f) fs"
  let ?xs = "enumerate 0 ?nonkey"
  let ?k = "'' WHERE '' @ quote_identifier k @ '' = '' @ parameter (length ?nonkey + 1) @ []"
  have ne: "?xs \<noteq> []" "map assignment ?xs \<noteq> []" using Cons by simp_all
  have s: "strip_prefix ''UPDATE '' ?s = Some (quote_identifier t @ '' SET '' @ join '', '' (map assignment ?xs) @ ?k)"
    using ne(2) unfolding update_sql_def Let_def by simp
  have n: "length ?xs \<le> length ?s"
    using join_count [of assignment ?xs] ne(2) unfolding update_sql_def Let_def by simp
  have t: "read_identifier (quote_identifier t @ '' SET '' @ join '', '' (map assignment ?xs) @ ?k) =
      Some (t, '' SET '' @ join '', '' (map assignment ?xs) @ ?k)" by (rule read_identifier_quote) simp
  have as: "read_assignments (length ?s) (join '', '' (map assignment ?xs) @ ?k) = Some (map assigned ?xs, ?k)"
    by (rule read_assignments_join) (use n ne in simp_all)
  have k: "parse_key_test ?k = Some (k, length ?nonkey + 1, [])" by (rule parse_key_test_show) simp
  show ?thesis
    unfolding parse_update_def s Option.bind.bind_lunit t prod.case strip_prefix_append as k
    using Cons by (simp add: update_assignments_def)
qed

lemma assigned_iff:
  "(c, Some p) \<in> set (map assigned (enumerate 0 xs)) \<longleftrightarrow> (\<exists>j < length xs. c = df_column (xs ! j) \<and> p = j + 1)"
  by (auto simp: assigned_def enumerate_eq_zip set_zip intro!: image_eqI [where x = "([0..<length xs] ! (p - 1), xs ! (p - 1))"])

lemma update_assignments_iff:
  "(c, Some p) \<in> set (update_assignments fs k) \<longleftrightarrow>
     (\<exists>j < length (filter (\<lambda>f. \<not> df_primary_key f) fs). c = df_column (filter (\<lambda>f. \<not> df_primary_key f) fs ! j) \<and> p = j + 1)"
proof (cases "filter (\<lambda>f. \<not> df_primary_key f) fs")
  case (Cons g gs)
  then have "update_assignments fs k = map assigned (enumerate 0 (filter (\<lambda>f. \<not> df_primary_key f) fs))"
    by (simp add: update_assignments_def)
  then show ?thesis by (simp only: assigned_iff)
qed (simp add: update_assignments_def)

section \<open>Statements and bound values\<close>

text \<open>Moving the value of the key to the end, seen from a column.\<close>

lemma update_order_value:
  assumes "distinct cols" "length vs = length cols" "i < length cols"
    and "ws = take i vs @ drop (Suc i) vs @ [vs ! i]" "others = take i cols @ drop (Suc i) cols"
  shows "length ws = length cols" "map_of (zip cols vs) (cols ! i) = Some (ws ! (length cols - 1))"
    "j < length others \<Longrightarrow> map_of (zip cols vs) (others ! j) = Some (ws ! j)"
proof -
  show len: "length ws = length cols" using assms by simp
  have at: "map_of (zip cols vs) (cols ! j) = Some (vs ! j)" if "j < length cols" for j
    using assms(1,2) that by (intro map_of_zip_nth) simp_all
  have "ws ! (length cols - 1) = vs ! i"
    using nth_append_length [of "take i vs @ drop (Suc i) vs" "vs ! i" "[]"] assms(2-4) by simp
  then show "map_of (zip cols vs) (cols ! i) = Some (ws ! (length cols - 1))" using at [OF assms(3)] by simp
  assume j: "j < length others"
  show "map_of (zip cols vs) (others ! j) = Some (ws ! j)"
  proof (cases "j < i")
    case True
    then have "others ! j = cols ! j" "ws ! j = vs ! j" using assms by (simp_all add: nth_append)
    then show ?thesis using at [of j] True assms(3) by simp
  next
    case False
    have "j - i < length cols - Suc i" "Suc j < length cols" using False j assms(3,5) by auto
    then have "others ! j = cols ! Suc j" "ws ! j = vs ! Suc j" "Suc j < length cols"
      using False assms by (simp_all add: nth_append)
    then show ?thesis using at [of "Suc j"] by simp
  qed
qed

lemma key_split:
  assumes "filter p xs = [k]"
  obtains i where "i < length xs" "xs ! i = k" "filter (\<lambda>x. \<not> p x) xs = take i xs @ drop (Suc i) xs" "position p xs = Some i"
proof -
  have "length (filter p xs) = 1" using assms by simp
  then obtain as x bs where x: "xs = as @ x # bs" "p x" "\<forall>y \<in> set as. \<not> p y" "\<forall>y \<in> set bs. \<not> p y"
    "position p xs = Some (length as)" by (rule position_split)
  then have "k = x" using assms by simp
  with x show thesis by (intro that [of "length as"]) simp_all
qed

lemma position_map: "position p (map f xs) = position (\<lambda>x. p (f x)) xs"
  by (simp add: position_def takeWhile_map comp_def)

lemma distinct_update_assignments:
  assumes "distinct (map df_column fs)"
  shows "distinct (map fst (update_assignments fs k))"
proof (cases "filter (\<lambda>f. \<not> df_primary_key f) fs")
  case (Cons g gs)
  then have "map fst (update_assignments fs k) = map df_column (filter (\<lambda>f. \<not> df_primary_key f) fs)"
    by (simp add: update_assignments_def assigned_def comp_def flip: map_map [of df_column snd, unfolded comp_def])
  then show ?thesis using distinct_map_filter [OF assms] by simp
qed (simp add: update_assignments_def)

text \<open>
  The generated statements and the bound values agree. Reading back the SQL constants of any expansion:
  the insert lists the columns of all fields and parameters 1 to n in the order in which \<^verbatim>\<open>values\<close> encodes them; the
  lookup and the delete test the key column against parameter 1, and the lookup returns the columns in the order in
  which \<^verbatim>\<open>from_row\<close> decodes them; in the update every column other than the key is assigned a parameter, and
  for every assigned column, and for the key test, the value that \<^const>\<open>update_values\<close> binds at that parameter is the
  record's value of that very column. No name can break out of its quotes.
\<close>

lemma generated_statements:
  assumes "expand_collection env input = Inr x" "length vs = length (ex_fields x)"
  shows "let t = cs_table (ex_schema x); k = df_column (ex_key x); cols = map df_column (ex_fields x); n = length cols in
    parse_insert (ex_insert_sql x) = Some (t, cols, [1..<n + 1]) \<and>
    parse_select_by_key (ex_select_by_key_sql x) = Some (cols, t, k, 1) \<and>
    parse_delete (ex_delete_by_key_sql x) = Some (t, k, 1) \<and>
    (\<exists>as ws. parse_update (ex_update_sql x) = Some (t, as, k, n) \<and> distinct (map fst as) \<and> update_values (ex_schema x) vs = Inr ws \<and> length ws = n \<and>
       map_of (zip cols vs) k = Some (ws ! (n - 1)) \<and>
       (\<forall>c p. (c, Some p) \<in> set as \<longrightarrow> 1 \<le> p \<and> p \<le> n \<and> map_of (zip cols vs) c = Some (ws ! (p - 1))) \<and>
       (\<forall>c \<in> set cols. c \<noteq> k \<longrightarrow> (\<exists>p. (c, Some p) \<in> set as)))"
proof -
  obtain c t v fs k ixs attrs where wf: "derived_fields_wf fs" "filter df_primary_key fs = [k]"
    and s: "cs_table (ex_schema x) = t" "cs_fields (ex_schema x) = map field_schema fs" "ex_fields x = fs" "ex_key x = k"
    and sql: "ex_insert_sql x = insert_sql (quote_identifier t) fs"
      "ex_select_by_key_sql x = select_sql (quote_identifier t) fs (df_column k)"
      "ex_update_sql x = update_sql (quote_identifier t) fs (df_column k)"
      "ex_delete_by_key_sql x = delete_sql (quote_identifier t) (df_column k)"
    using expand_collection_Inr [OF assms(1)] by (metis CollectionSchema.select_convs(2,5))
  let ?cols = "map df_column fs" and ?nonkey = "filter (\<lambda>f. \<not> df_primary_key f) fs"
  obtain i where i: "i < length fs" "fs ! i = k" "?nonkey = take i fs @ drop (Suc i) fs" "position df_primary_key fs = Some i"
    using wf(2) by (rule key_split)
  define ws where "ws = take i vs @ drop (Suc i) vs @ [vs ! i]"
  have d: "distinct ?cols" using wf(1) by (simp add: derived_fields_wf_def)
  have len: "length vs = length ?cols" "i < length ?cols" using assms(2) i(1) by (simp_all add: s)
  have others: "map df_column ?nonkey = take i ?cols @ drop (Suc i) ?cols" by (simp add: i(3) take_map drop_map)
  note val = update_order_value [OF d len ws_def others]
  have uv: "update_values (ex_schema x) vs = Inr ws"
    using i(4) len by (simp add: update_values_def s position_map field_schema_def ws_def)
  have fs: "fs \<noteq> []" using i(1) by auto
  have as: "(c, Some p) \<in> set (update_assignments fs (df_column k)) \<longleftrightarrow>
      (\<exists>j < length ?nonkey. c = df_column (?nonkey ! j) \<and> p = j + 1)" for c p
    by (rule update_assignments_iff)
  have count: "length ?nonkey + 1 = length ?cols" using i(1) by (simp add: i(3))
  have bound: "1 \<le> p \<and> p \<le> length ?cols \<and> map_of (zip ?cols vs) c = Some (ws ! (p - 1))" if "(c, Some p) \<in> set (update_assignments fs (df_column k))" for c p
    using that val(3) count by (auto simp: as)
  have all: "\<exists>p. (c, Some p) \<in> set (update_assignments fs (df_column k))" if mem: "c \<in> set ?cols" "c \<noteq> df_column k" for c
  proof -
    obtain f where f: "f \<in> set fs" "c = df_column f" using mem(1) by auto
    have f_key: "f = k" if "df_primary_key f"
    proof -
      have "f \<in> set (filter df_primary_key fs)" using f(1) that by simp
      then show ?thesis by (simp add: wf(2))
    qed
    then have "\<not> df_primary_key f" using f_key mem(2) f(2) by blast
    then have "f \<in> set ?nonkey" using f(1) by simp
    then obtain j where "j < length ?nonkey" "?nonkey ! j = f" by (metis in_set_conv_nth)
    then show ?thesis unfolding as f(2) by metis
  qed
  have once: "distinct (map fst (update_assignments fs (df_column k)))"
    using d by (rule distinct_update_assignments)
  show ?thesis
    unfolding s Let_def sql
    using parse_insert_sql [OF fs] parse_select_sql [OF fs] parse_delete_sql parse_update_sql [of t fs "df_column k"]
      uv val(1,2) bound all count i(1,2) once
    by (intro conjI exI [of _ "update_assignments fs (df_column k)"] exI [of _ ws]) auto
qed

section \<open>Witnesses\<close>

text \<open>A struct with a key and an optional text field, and an index over the text.\<close>

definition simple_type :: "string \<Rightarrow> Type" where
  "simple_type n = TypePath False [PathSegment n NoArguments]"

definition sample_field :: "string \<Rightarrow> string \<Rightarrow> Meta list \<Rightarrow> Type \<Rightarrow> Field" where
  "sample_field name column flags ty = \<lparr>fd_ident = name,
     fd_attrs = [\<lparr>at_path = ''csgdb'', at_content = Nested ([Meta ''id'' (StrValue name), Meta ''column'' (StrValue column)] @ flags)\<rparr>],
     fd_ty = ty\<rparr>"

definition sample_input :: DeriveInput where
  "sample_input = \<lparr>di_ident = ''Note'', di_generic = False,
     di_attrs = [\<lparr>at_path = ''csgdb'', at_content = Nested
       [Meta ''collection'' (StrValue ''note''), Meta ''table'' (StrValue ''notes''), Meta ''version'' (IntValue 5),
        Meta ''index'' (Nested [Meta ''id'' (StrValue ''by''), Meta ''name'' (StrValue ''ix''), Meta ''field'' (StrValue ''t'')])]\<rparr>],
     di_data = StructNamed
       [sample_field ''k'' ''a'' [Meta ''primary_key'' NoValue] (simple_type ''i64''),
        sample_field ''t'' ''b'' [] (TypePath False [PathSegment ''Option'' (AngleBracketed [TypeArgument (simple_type ''String'')])])]\<rparr>"

definition sample_env :: derive_env where
  "sample_env = \<lparr>de_sha256 = (\<lambda>_. replicate 32 0), de_to_uppercase = to_ascii_uppercase, de_is_path = (\<lambda>_. True)\<rparr>"

lemma sample_types:
  "classify_type (simple_type ''i64'') = Inr (CInteger, False)"
  "classify_type (TypePath False [PathSegment ''Option'' (AngleBracketed [TypeArgument (simple_type ''String'')])]) = Inr (CText, True)"
proof -
  have inner: "classify_type (simple_type ''String'') = Inr (CText, False)"
    by (subst classify_type.simps) (simp add: simple_type_def generic_inner_def is_byte_vector_def simple_type_ident_def)
  show "classify_type (simple_type ''i64'') = Inr (CInteger, False)"
    by (subst classify_type.simps) (simp add: simple_type_def generic_inner_def is_byte_vector_def simple_type_ident_def)
  show "classify_type (TypePath False [PathSegment ''Option'' (AngleBracketed [TypeArgument (simple_type ''String'')])]) = Inr (CText, True)"
    by (subst classify_type.simps) (simp add: generic_inner_def inner)
qed

definition key_field :: DerivedField where
  "key_field = \<lparr>df_rust_name = ''k'', df_ty = simple_type ''i64'', df_id = ''k'', df_column = ''a'', df_storage = CInteger,
     df_nullable = False, df_primary_key = True\<rparr>"

definition text_field :: DerivedField where
  "text_field = \<lparr>df_rust_name = ''t'',
     df_ty = TypePath False [PathSegment ''Option'' (AngleBracketed [TypeArgument (simple_type ''String'')])],
     df_id = ''t'', df_column = ''b'', df_storage = CText, df_nullable = True, df_primary_key = False\<rparr>"

lemma sample_expands: "\<exists>x. expand_collection sample_env sample_input = Inr x \<and> ex_fields x = [key_field, text_field]"
  by (simp add: expand_collection_def emit_collection_def sample_input_def sample_env_def sample_field_def
      parse_collection_attributes_def csgdb_attribute_def nested_metas_def collection_meta_def parse_str_def parse_int_def
      set_once_def collection_attributes_default_def index_meta_def index_attributes_default_def required_string_def
      derive_version_def validate_stable_name_def validate_sql_name_def starts_with_def RESERVED_PREFIX_def named_fields_def
      derive_field_def parse_field_attributes_def field_meta_def field_attributes_default_def end_of_meta_def sample_types
      key_field_def text_field_def derive_indexes_def derive_index_def derive_index_field_def field_constant_def
      field_constant_name_def strip_raw_def to_ascii_uppercase_def ascii_upper_def Let_def)

theorem expansion_schema_valid_witness:
  "\<exists>x. expand_collection sample_env sample_input = Inr x \<and> validate_collection_schema (ex_schema x) = Inr ()"
  using sample_expands expansion_schema_valid by blast

theorem canonical_descriptors_identify_witness:
  "canonical_schema ''note'' ''notes'' 5 [key_field, text_field] = canonical_schema ''note'' ''notes'' 5 [text_field, key_field] \<and>
   canonical_schema ''note'' ''notes'' 5 [key_field] \<noteq> canonical_schema ''note'' ''notes'' 5 [text_field]"
proof -
  have 1: "distinct (map df_id [key_field, text_field])" "distinct (map df_id [text_field, key_field])"
    "distinct (map df_id [key_field])" "distinct (map df_id [text_field])"
    by (simp_all add: key_field_def text_field_def)
  have "field_facts ` set [key_field, text_field] = field_facts ` set [text_field, key_field]" by auto
  then have "canonical_schema ''note'' ''notes'' 5 [key_field, text_field] = canonical_schema ''note'' ''notes'' 5 [text_field, key_field]"
    using canonical_descriptors_identify [OF 1(1,2), of "[]" "[]" "[]" "[]" "''note''" "''notes''" 5 "''note''" "''notes''" 5] by simp
  moreover have "field_facts ` set [key_field] \<noteq> field_facts ` set [text_field]"
    by (simp add: field_facts_def key_field_def text_field_def)
  ultimately show ?thesis
    using canonical_descriptors_identify [OF 1(3,4), of "[]" "[]" "[]" "[]" "''note''" "''notes''" 5 "''note''" "''notes''" 5] by simp
qed

end
