(* ===== verification/Records.thy ===== *)
theory Records
  imports Registry
begin

text \<open>
  Record operations and queries of \<^verbatim>\<open>csgdb/src/collection.rs\<close> and \<^verbatim>\<open>csgdb/src/query.rs\<close> as exact
  equations: what a read returns in terms of the rows the engine gives, and which values a write binds.
\<close>

section \<open>A query as the engine sees it\<close>

definition count_mismatch :: Error where
  "count_mismatch = Error ParameterCountMismatch ''SQL parameter count does not match the supplied values''"

definition run_query :: "'db Engine \<Rightarrow> string \<Rightarrow> ValueRef list \<Rightarrow> 'db \<Rightarrow> Rows result" where
  "run_query eng sql ps d =
     bind_result (map_err map_storage_error (e_parameter_count eng sql d)) (\<lambda>n.
     if length ps \<noteq> n then Inl count_mismatch
     else case first_bind_error eng d sql 0 ps of
            Some e \<Rightarrow> Inl (map_storage_error e)
          | None \<Rightarrow> Inr (e_query eng sql ps d))"

lemma bind_queried:
  "bind_st (prepare eng sql) (\<lambda>stmt. bind_st (statement_query eng stmt ps) (\<lambda>rows. lift_st (f rows))) d =
     (bind_result (run_query eng sql ps d) f, d)"
  by (cases "e_parameter_count eng sql d")
    (simp_all add: run_query_def bind_st_def prepare_def statement_query_def bind_all_def bind_iter_def bind_loop_eq
      count_mismatch_def split: option.split)

lemma bind_queried_values:
  "bind_st (prepare eng sql) (\<lambda>stmt. bind_st (statement_query_values eng stmt vs) (\<lambda>rows. lift_st (f rows))) d =
     (bind_result (run_query eng sql (map as_ref vs) d) f, d)"
  by (cases "e_parameter_count eng sql d")
    (simp_all add: run_query_def bind_st_def prepare_def statement_query_values_def bind_owned_all_def bind_iter_def
      bind_loop_eq count_mismatch_def split: option.split)

definition row_or_error :: "SqlError + SqlRow \<Rightarrow> SqlRow result" where
  "row_or_error item = map_err map_storage_error item"

lemma collect_rows_all:
  "collect_rows (\<lambda>row. map_ok Some (f row)) rows acc =
     map_ok (\<lambda>xs. acc @ xs) (try_map (\<lambda>item. bind_result (row_or_error item) f) rows)"
proof (induction rows arbitrary: acc)
  case (Cons item rows)
  show ?case
  proof (cases item)
    case (Inr row)
    then show ?thesis
      by (cases "f row"; cases "try_map (\<lambda>item. bind_result (row_or_error item) f) rows")
        (simp_all add: row_or_error_def Cons.IH)
  qed (simp add: row_or_error_def)
qed simp

lemma map_ok_id [simp]: "map_ok (\<lambda>x. x) r = r"
  by (cases r) simp_all

definition first_row :: "Rows \<Rightarrow> SqlRow option result" where
  "first_row rows = (case rows of [] \<Rightarrow> Inr None | item # _ \<Rightarrow> map_ok Some (row_or_error item))"

lemma next_row_first [simp]: "fst (next_row rows) = first_row rows"
  by (cases rows rule: next_row.cases) (simp_all add: first_row_def row_or_error_def)

section \<open>Properties\<close>

text \<open>
  Reads are exact and leave the connection as it was. On every engine, a query returns the
  decoded rows of its compiled text run with its bound values, all of them and in the engine's order,
  or the first failure in that order, be it a storage failure or a row that does not decode; an existence query
  and a lookup by key look at the first row only; none of them changes the state.
\<close>

lemma record_reads_exact:
  "query_collection eng C q d =
     (bind_result (run_query eng (cq_sql q) (map as_ref (cq_values q)) d)
        (try_map (\<lambda>item. bind_result (row_or_error item) (co_from_row C))), d) \<and>
   collection_exists eng x d =
     (bind_result (run_query eng (ceq_sql x) (map as_ref (ceq_values x)) d)
        (\<lambda>rows. map_ok (\<lambda>row. row \<noteq> None) (first_row rows)), d) \<and>
   get_record eng C key d =
     (bind_result key (\<lambda>k. bind_result (run_query eng (co_select_by_key_sql C) [as_ref k] d)
        (\<lambda>rows. bind_result (first_row rows) (\<lambda>row.
           case row of None \<Rightarrow> Inr None | Some r \<Rightarrow> map_ok Some (co_from_row C r)))), d)"
proof (intro conjI)
  show "query_collection eng C q d =
     (bind_result (run_query eng (cq_sql q) (map as_ref (cq_values q)) d)
        (try_map (\<lambda>item. bind_result (row_or_error item) (co_from_row C))), d)"
    by (simp add: query_collection_def execute_query_def bind_queried_values collect_rows_all)
  show "collection_exists eng x d =
     (bind_result (run_query eng (ceq_sql x) (map as_ref (ceq_values x)) d)
        (\<lambda>rows. map_ok (\<lambda>row. row \<noteq> None) (first_row rows)), d)"
    by (simp add: collection_exists_def execute_exists_query_def bind_queried_values)
  show "get_record eng C key d =
     (bind_result key (\<lambda>k. bind_result (run_query eng (co_select_by_key_sql C) [as_ref k] d)
        (\<lambda>rows. bind_result (first_row rows) (\<lambda>row.
           case row of None \<Rightarrow> Inr None | Some r \<Rightarrow> map_ok Some (co_from_row C r)))), d)"
    by (cases key) (simp_all add: get_record_def query_record_def bind_queried)
qed

text \<open>
  Writes bind the record's values where the statement text expects them: an insert
  binds them in field order; an update of a well-formed collection binds the values of the other fields in
  field order and the primary key's value last; a delete binds the key. A record or key that
  does not encode is refused before the engine is reached.
\<close>

lemma record_writes_exact:
  assumes "schema_wf (co_schema C)" "co_values C r = Inr vs" "length vs = length (cs_fields (co_schema C))"
  shows "insert_record eng C r d = execute_values eng (co_insert_sql C) vs d \<and>
    (\<exists>as k bs va vk vb. cs_fields (co_schema C) = as @ k # bs \<and> primary_key (co_schema C) = Some k \<and>
       vs = va @ vk # vb \<and> length va = length as \<and>
       update_record eng C r d = execute_values eng (co_update_sql C) (va @ vb @ [vk]) d) \<and>
    delete_record eng C (Inr k0) d = execute_values eng (co_delete_by_key_sql C) [k0] d \<and>
    delete_record eng C (Inl e) d = (Inl e, d)"
proof -
  obtain as k bs va vk vb where s: "cs_fields (co_schema C) = as @ k # bs" "primary_key (co_schema C) = Some k"
    "vs = va @ vk # vb" "length va = length as" "update_values (co_schema C) vs = Inr (va @ vb @ [vk])"
    using assms(1,3) by (rule update_values_split)
  then have "update_record eng C r d = execute_values eng (co_update_sql C) (va @ vb @ [vk]) d"
    by (simp add: update_record_def assms(2) execute_values_def execute_record_def)
  with s show ?thesis
    by (auto simp: insert_record_def delete_record_def assms(2) execute_values_def execute_record_def)
qed

end
