(* ===== verification/Connection_Ops.thy ===== *)
theory Connection_Ops
  imports Registry
begin

text \<open>
  An open \<^verbatim>\<open>Connection\<close> of \<^verbatim>\<open>csgdb-storage/src/lib.rs\<close>, its transactions and statements, and the \<^verbatim>\<open>Database\<close> of
  \<^verbatim>\<open>csgdb/src/lib.rs\<close>, \<^verbatim>\<open>collection.rs\<close> and \<^verbatim>\<open>query.rs\<close> around it, with the cache of prepared statements: what a connection
  prepares for repeated use comes from that cache, with whatever values are still bound, and goes back when it is dropped. The
  cache belongs to \<^verbatim>\<open>rusqlite\<close> and is an argument, as is the engine.
\<close>

section \<open>Connections and the statement cache\<close>

record ('db, 'c) ConnectionEngine =
  ce_engine :: "'db Engine"
  ce_prepare_cached :: "string \<Rightarrow> 'db \<Rightarrow> 'c \<Rightarrow> (SqlError + ValueRef list) \<times> 'c"
  ce_return_statement :: "Statement \<Rightarrow> 'c \<Rightarrow> 'c"
  ce_set_capacity :: "nat \<Rightarrow> 'c \<Rightarrow> 'c"
  ce_flush :: "'c \<Rightarrow> 'c"
  ce_query_row :: "string \<Rightarrow> 'db \<Rightarrow> SqlError + i64"
  ce_column_count :: "string \<Rightarrow> 'db \<Rightarrow> nat"
  ce_column_name :: "string \<Rightarrow> nat \<Rightarrow> 'db \<Rightarrow> SqlError + string"
  ce_changes :: "'db \<Rightarrow> u64"
  ce_total_changes :: "'db \<Rightarrow> u64"
  ce_last_insert_rowid :: "'db \<Rightarrow> i64"
  ce_is_autocommit :: "'db \<Rightarrow> bool"
  ce_is_busy :: "'db \<Rightarrow> bool"
  ce_is_interrupted :: "'db \<Rightarrow> bool"
  ce_is_readonly :: "string \<Rightarrow> 'db \<Rightarrow> SqlError + bool"
  ce_release_memory :: "('db, SqlError, unit) effect"
  ce_interrupt :: "'db \<Rightarrow> 'db"

record ('db, 'c) Connection =
  cn_db :: 'db
  cn_cache :: 'c
  cn_security :: SecurityMode

datatype StatementInner = Direct Statement | Cached Statement

fun inner :: "StatementInner \<Rightarrow> Statement" where
  "inner (Direct stmt) = stmt"
| "inner (Cached stmt) = stmt"

fun inner_mut :: "(Statement \<Rightarrow> Statement) \<Rightarrow> StatementInner \<Rightarrow> StatementInner" where
  "inner_mut f (Direct stmt) = Direct (f stmt)"
| "inner_mut f (Cached stmt) = Cached (f stmt)"

text \<open>Dropping a statement: one from the cache goes back with its bindings.\<close>

fun drop_statement :: "('db, 'c) ConnectionEngine \<Rightarrow> StatementInner \<Rightarrow> 'c \<Rightarrow> 'c" where
  "drop_statement ce (Direct stmt) cache = cache"
| "drop_statement ce (Cached stmt) cache = ce_return_statement ce stmt cache"

text \<open>An operation that does not involve the cache.\<close>

definition on_db :: "('db, 'e, 'a) effect \<Rightarrow> (('db, 'c) Connection, 'e, 'a) effect" where
  "on_db operation cn = (case operation (cn_db cn) of (r, db) \<Rightarrow> (r, cn\<lparr>cn_db := db\<rparr>))"

definition connection_prepare ::
  "('db, 'c) ConnectionEngine \<Rightarrow> string \<Rightarrow> (('db, 'c) Connection, Error, StatementInner) effect" where
  "connection_prepare ce sql = bind_st (on_db (prepare (ce_engine ce) sql)) (\<lambda>stmt. ret_st (Direct stmt))"

definition connection_prepare_cached ::
  "('db, 'c) ConnectionEngine \<Rightarrow> string \<Rightarrow> (('db, 'c) Connection, Error, StatementInner) effect" where
  "connection_prepare_cached ce sql cn =
     (case ce_prepare_cached ce sql (cn_db cn) (cn_cache cn) of
        (Inl e, cache) \<Rightarrow> (Inl (map_storage_error e), cn\<lparr>cn_cache := cache\<rparr>)
      | (Inr bound, cache) \<Rightarrow>
          (Inr (Cached \<lparr>st_sql = sql, st_parameter_count = length bound, st_bindings = bound\<rparr>), cn\<lparr>cn_cache := cache\<rparr>))"

text \<open>
  A statement is bound with the parameters, used, and dropped at the end of the expression. \<open>body\<close> is what
  one of the operations of \<^verbatim>\<open>Statement\<close> does with its parameters; the statement that is dropped is as that binding left it.
\<close>

definition use_statement ::
  "('db, 'c) ConnectionEngine \<Rightarrow> ValueRef list \<Rightarrow> (Statement \<Rightarrow> ('db, Error, 'a) effect) \<Rightarrow> StatementInner
     \<Rightarrow> (('db, 'c) Connection, Error, 'a) effect" where
  "use_statement ce parameters body stmt cn =
     (case body (inner stmt) (cn_db cn) of
        (r, db) \<Rightarrow>
          (r, cn\<lparr>cn_db := db,
                 cn_cache := drop_statement ce
                   (inner_mut (\<lambda>st. snd (bind_iter (ce_engine ce) (cn_db cn) parameters st)) stmt) (cn_cache cn)\<rparr>))"

definition connection_execute ::
  "('db, 'c) ConnectionEngine \<Rightarrow> string \<Rightarrow> ValueRef list \<Rightarrow> (('db, 'c) Connection, Error, nat) effect" where
  "connection_execute ce sql parameters =
     bind_st (connection_prepare_cached ce sql)
       (use_statement ce parameters (\<lambda>stmt. statement_execute (ce_engine ce) stmt parameters))"

definition connection_execute_batch :: "('db, 'c) ConnectionEngine \<Rightarrow> string \<Rightarrow> (('db, 'c) Connection, Error, unit) effect" where
  "connection_execute_batch ce sql = on_db (execute_batch (ce_engine ce) sql)"

definition connection_query_i64 :: "('db, 'c) ConnectionEngine \<Rightarrow> string \<Rightarrow> (('db, 'c) Connection, Error, i64) effect" where
  "connection_query_i64 ce sql = on_db (query_i64 (ce_engine ce) sql)"

definition connection_query_i64_cached ::
  "('db, 'c) ConnectionEngine \<Rightarrow> string \<Rightarrow> (('db, 'c) Connection, Error, i64) effect" where
  "connection_query_i64_cached ce sql =
     bind_st (connection_prepare_cached ce sql)
       (use_statement ce [] (\<lambda>stmt db. (map_err map_storage_error (ce_query_row ce (st_sql stmt) db), db)))"

definition connection_set_prepared_statement_cache_capacity ::
  "('db, 'c) ConnectionEngine \<Rightarrow> nat \<Rightarrow> ('db, 'c) Connection \<Rightarrow> ('db, 'c) Connection" where
  "connection_set_prepared_statement_cache_capacity ce capacity cn = cn\<lparr>cn_cache := ce_set_capacity ce capacity (cn_cache cn)\<rparr>"

definition connection_flush_prepared_statement_cache ::
  "('db, 'c) ConnectionEngine \<Rightarrow> ('db, 'c) Connection \<Rightarrow> ('db, 'c) Connection" where
  "connection_flush_prepared_statement_cache ce cn = cn\<lparr>cn_cache := ce_flush ce (cn_cache cn)\<rparr>"

definition connection_changes :: "('db, 'c) ConnectionEngine \<Rightarrow> ('db, 'c) Connection \<Rightarrow> u64" where
  "connection_changes ce cn = ce_changes ce (cn_db cn)"

definition connection_total_changes :: "('db, 'c) ConnectionEngine \<Rightarrow> ('db, 'c) Connection \<Rightarrow> u64" where
  "connection_total_changes ce cn = ce_total_changes ce (cn_db cn)"

definition connection_last_insert_rowid :: "('db, 'c) ConnectionEngine \<Rightarrow> ('db, 'c) Connection \<Rightarrow> i64" where
  "connection_last_insert_rowid ce cn = ce_last_insert_rowid ce (cn_db cn)"

definition connection_is_autocommit :: "('db, 'c) ConnectionEngine \<Rightarrow> ('db, 'c) Connection \<Rightarrow> bool" where
  "connection_is_autocommit ce cn = ce_is_autocommit ce (cn_db cn)"

definition connection_is_busy :: "('db, 'c) ConnectionEngine \<Rightarrow> ('db, 'c) Connection \<Rightarrow> bool" where
  "connection_is_busy ce cn = ce_is_busy ce (cn_db cn)"

definition connection_is_interrupted :: "('db, 'c) ConnectionEngine \<Rightarrow> ('db, 'c) Connection \<Rightarrow> bool" where
  "connection_is_interrupted ce cn = ce_is_interrupted ce (cn_db cn)"

definition connection_is_readonly :: "('db, 'c) ConnectionEngine \<Rightarrow> string \<Rightarrow> ('db, 'c) Connection \<Rightarrow> bool result" where
  "connection_is_readonly ce database_name cn = map_err map_storage_error (ce_is_readonly ce database_name (cn_db cn))"

definition connection_transaction_state ::
  "('db, 'c) ConnectionEngine \<Rightarrow> string option \<Rightarrow> (('db, 'c) Connection, Error, TransactionState) effect" where
  "connection_transaction_state ce database_name = on_db (transaction_state (ce_engine ce) database_name)"

definition connection_set_busy_timeout ::
  "('db, 'c) ConnectionEngine \<Rightarrow> duration \<Rightarrow> (('db, 'c) Connection, Error, unit) effect" where
  "connection_set_busy_timeout ce timeout = on_db (set_busy_timeout (ce_engine ce) timeout)"

definition connection_checkpoint_database ::
  "('db, 'c) ConnectionEngine \<Rightarrow> string option \<Rightarrow> CheckpointMode \<Rightarrow> (('db, 'c) Connection, Error, CheckpointResult) effect" where
  "connection_checkpoint_database ce database_name mode = on_db (checkpoint_database (ce_engine ce) database_name mode)"

definition connection_checkpoint ::
  "('db, 'c) ConnectionEngine \<Rightarrow> CheckpointMode \<Rightarrow> (('db, 'c) Connection, Error, CheckpointResult) effect" where
  "connection_checkpoint ce mode = connection_checkpoint_database ce (Some ''main'') mode"

definition connection_set_wal_autocheckpoint ::
  "('db, 'c) ConnectionEngine \<Rightarrow> u32 \<Rightarrow> (('db, 'c) Connection, Error, unit) effect" where
  "connection_set_wal_autocheckpoint ce frames = on_db (set_wal_autocheckpoint (ce_engine ce) frames)"

definition connection_release_memory :: "('db, 'c) ConnectionEngine \<Rightarrow> (('db, 'c) Connection, Error, unit) effect" where
  "connection_release_memory ce = on_db (map_err_st map_storage_error (ce_release_memory ce))"

text \<open>An interrupt handle shares the engine's interrupt flag with the connection it was taken from.\<close>

definition interrupt :: "('db, 'c) ConnectionEngine \<Rightarrow> ('db, 'c) Connection \<Rightarrow> ('db, 'c) Connection" where
  "interrupt ce cn = cn\<lparr>cn_db := ce_interrupt ce (cn_db cn)\<rparr>"

definition connection_close :: "('db, 'c) ConnectionEngine \<Rightarrow> ('db, 'c) Connection \<Rightarrow> unit result" where
  "connection_close ce cn = close (ce_engine ce) (cn_db cn)"

section \<open>Transactions and statements\<close>

definition connection_transaction :: "('db, 'c) ConnectionEngine \<Rightarrow> (('db, 'c) Connection, Error, unit) effect" where
  "connection_transaction ce = on_db (transaction (ce_engine ce))"

definition transaction_prepare_cached ::
  "('db, 'c) ConnectionEngine \<Rightarrow> string \<Rightarrow> (('db, 'c) Connection, Error, StatementInner) effect" where
  "transaction_prepare_cached ce sql = connection_prepare_cached ce sql"

definition transaction_query_i64_cached ::
  "('db, 'c) ConnectionEngine \<Rightarrow> string \<Rightarrow> (('db, 'c) Connection, Error, i64) effect" where
  "transaction_query_i64_cached ce sql =
     bind_st (transaction_prepare_cached ce sql)
       (use_statement ce [] (\<lambda>stmt db. (map_err map_storage_error (ce_query_row ce (st_sql stmt) db), db)))"

definition statement_parameter_count :: "StatementInner \<Rightarrow> nat" where
  "statement_parameter_count stmt = st_parameter_count (inner stmt)"

definition statement_column_count :: "('db, 'c) ConnectionEngine \<Rightarrow> StatementInner \<Rightarrow> 'db \<Rightarrow> nat" where
  "statement_column_count ce stmt db = ce_column_count ce (st_sql (inner stmt)) db"

definition statement_column_name :: "('db, 'c) ConnectionEngine \<Rightarrow> StatementInner \<Rightarrow> nat \<Rightarrow> 'db \<Rightarrow> string result" where
  "statement_column_name ce stmt index db = map_err (\<lambda>_. column_index_error) (ce_column_name ce (st_sql (inner stmt)) index db)"

definition statement_clear_bindings :: "StatementInner \<Rightarrow> StatementInner" where
  "statement_clear_bindings = inner_mut clear_bindings"

section \<open>Records and queries through the cache\<close>

text \<open>The operations of a transaction; its record operations use the cache, its queries a statement of their own.\<close>

definition transaction_insert ::
  "('db, 'c) ConnectionEngine \<Rightarrow> 'a Collection \<Rightarrow> 'a \<Rightarrow> (('db, 'c) Connection, Error, nat) effect" where
  "transaction_insert ce C record =
     bind_st (lift_st (co_values C record)) (\<lambda>vs.
     bind_st (transaction_prepare_cached ce (co_insert_sql C))
       (use_statement ce (map as_ref vs) (\<lambda>stmt. execute_record (ce_engine ce) stmt vs)))"

definition transaction_get ::
  "('db, 'c) ConnectionEngine \<Rightarrow> 'a Collection \<Rightarrow> Value result \<Rightarrow> (('db, 'c) Connection, Error, 'a option) effect" where
  "transaction_get ce C key =
     bind_st (lift_st key) (\<lambda>k.
     bind_st (transaction_prepare_cached ce (co_select_by_key_sql C))
       (use_statement ce [as_ref k] (\<lambda>stmt. query_record (ce_engine ce) C stmt k)))"

definition transaction_update ::
  "('db, 'c) ConnectionEngine \<Rightarrow> 'a Collection \<Rightarrow> 'a \<Rightarrow> (('db, 'c) Connection, Error, nat) effect" where
  "transaction_update ce C record =
     bind_st (lift_st (bind_result (co_values C record) (update_values (co_schema C)))) (\<lambda>vs.
     bind_st (transaction_prepare_cached ce (co_update_sql C))
       (use_statement ce (map as_ref vs) (\<lambda>stmt. execute_record (ce_engine ce) stmt vs)))"

definition transaction_delete ::
  "('db, 'c) ConnectionEngine \<Rightarrow> 'a Collection \<Rightarrow> Value result \<Rightarrow> (('db, 'c) Connection, Error, nat) effect" where
  "transaction_delete ce C key =
     bind_st (lift_st key) (\<lambda>k.
     bind_st (transaction_prepare_cached ce (co_delete_by_key_sql C))
       (use_statement ce [as_ref k] (\<lambda>stmt. execute_record (ce_engine ce) stmt [k])))"

definition transaction_query_collection ::
  "('db, 'c) ConnectionEngine \<Rightarrow> 'a Collection \<Rightarrow> CollectionQuery \<Rightarrow> (('db, 'c) Connection, Error, 'a list) effect" where
  "transaction_query_collection ce C query =
     bind_st (connection_prepare ce (cq_sql query))
       (use_statement ce (map as_ref (cq_values query)) (\<lambda>stmt. execute_query (ce_engine ce) C stmt query))"

definition transaction_collection_exists ::
  "('db, 'c) ConnectionEngine \<Rightarrow> CollectionExistsQuery \<Rightarrow> (('db, 'c) Connection, Error, bool) effect" where
  "transaction_collection_exists ce query =
     bind_st (connection_prepare ce (ceq_sql query))
       (use_statement ce (map as_ref (ceq_values query)) (\<lambda>stmt. execute_exists_query (ce_engine ce) stmt query))"

section \<open>Databases\<close>

record ('db, 'c) Database =
  db_connection :: "('db, 'c) Connection"

definition on_connection :: "(('db, 'c) Connection, 'e, 'a) effect \<Rightarrow> (('db, 'c) Database, 'e, 'a) effect" where
  "on_connection operation d = (case operation (db_connection d) of (r, cn) \<Rightarrow> (r, d\<lparr>db_connection := cn\<rparr>))"

definition database_security :: "('db, 'c) Database \<Rightarrow> SecurityMode" where
  "database_security d = cn_security (db_connection d)"

definition database_execute_batch :: "('db, 'c) ConnectionEngine \<Rightarrow> string \<Rightarrow> (('db, 'c) Database, Error, unit) effect" where
  "database_execute_batch ce sql = on_connection (connection_execute_batch ce sql)"

definition database_execute ::
  "('db, 'c) ConnectionEngine \<Rightarrow> string \<Rightarrow> ValueRef list \<Rightarrow> (('db, 'c) Database, Error, nat) effect" where
  "database_execute ce sql parameters = on_connection (connection_execute ce sql parameters)"

definition database_prepare :: "('db, 'c) ConnectionEngine \<Rightarrow> string \<Rightarrow> (('db, 'c) Database, Error, StatementInner) effect" where
  "database_prepare ce sql = on_connection (connection_prepare ce sql)"

definition database_prepare_cached ::
  "('db, 'c) ConnectionEngine \<Rightarrow> string \<Rightarrow> (('db, 'c) Database, Error, StatementInner) effect" where
  "database_prepare_cached ce sql = on_connection (connection_prepare_cached ce sql)"

definition database_set_prepared_statement_cache_capacity ::
  "('db, 'c) ConnectionEngine \<Rightarrow> nat \<Rightarrow> ('db, 'c) Database \<Rightarrow> ('db, 'c) Database" where
  "database_set_prepared_statement_cache_capacity ce capacity d =
     d\<lparr>db_connection := connection_set_prepared_statement_cache_capacity ce capacity (db_connection d)\<rparr>"

definition database_flush_prepared_statement_cache ::
  "('db, 'c) ConnectionEngine \<Rightarrow> ('db, 'c) Database \<Rightarrow> ('db, 'c) Database" where
  "database_flush_prepared_statement_cache ce d =
     d\<lparr>db_connection := connection_flush_prepared_statement_cache ce (db_connection d)\<rparr>"

definition database_changes :: "('db, 'c) ConnectionEngine \<Rightarrow> ('db, 'c) Database \<Rightarrow> u64" where
  "database_changes ce d = connection_changes ce (db_connection d)"

definition database_total_changes :: "('db, 'c) ConnectionEngine \<Rightarrow> ('db, 'c) Database \<Rightarrow> u64" where
  "database_total_changes ce d = connection_total_changes ce (db_connection d)"

definition database_last_insert_rowid :: "('db, 'c) ConnectionEngine \<Rightarrow> ('db, 'c) Database \<Rightarrow> i64" where
  "database_last_insert_rowid ce d = connection_last_insert_rowid ce (db_connection d)"

definition database_is_autocommit :: "('db, 'c) ConnectionEngine \<Rightarrow> ('db, 'c) Database \<Rightarrow> bool" where
  "database_is_autocommit ce d = connection_is_autocommit ce (db_connection d)"

definition database_is_busy :: "('db, 'c) ConnectionEngine \<Rightarrow> ('db, 'c) Database \<Rightarrow> bool" where
  "database_is_busy ce d = connection_is_busy ce (db_connection d)"

definition database_is_interrupted :: "('db, 'c) ConnectionEngine \<Rightarrow> ('db, 'c) Database \<Rightarrow> bool" where
  "database_is_interrupted ce d = connection_is_interrupted ce (db_connection d)"

definition database_is_readonly :: "('db, 'c) ConnectionEngine \<Rightarrow> string \<Rightarrow> ('db, 'c) Database \<Rightarrow> bool result" where
  "database_is_readonly ce database_name d = connection_is_readonly ce database_name (db_connection d)"

definition database_transaction_state ::
  "('db, 'c) ConnectionEngine \<Rightarrow> string option \<Rightarrow> (('db, 'c) Database, Error, TransactionState) effect" where
  "database_transaction_state ce database_name = on_connection (connection_transaction_state ce database_name)"

definition database_set_busy_timeout ::
  "('db, 'c) ConnectionEngine \<Rightarrow> duration \<Rightarrow> (('db, 'c) Database, Error, unit) effect" where
  "database_set_busy_timeout ce timeout = on_connection (connection_set_busy_timeout ce timeout)"

definition database_checkpoint ::
  "('db, 'c) ConnectionEngine \<Rightarrow> CheckpointMode \<Rightarrow> (('db, 'c) Database, Error, CheckpointResult) effect" where
  "database_checkpoint ce mode = on_connection (connection_checkpoint ce mode)"

definition database_checkpoint_database ::
  "('db, 'c) ConnectionEngine \<Rightarrow> string option \<Rightarrow> CheckpointMode \<Rightarrow> (('db, 'c) Database, Error, CheckpointResult) effect" where
  "database_checkpoint_database ce database_name mode = on_connection (connection_checkpoint_database ce database_name mode)"

definition database_set_wal_autocheckpoint ::
  "('db, 'c) ConnectionEngine \<Rightarrow> u32 \<Rightarrow> (('db, 'c) Database, Error, unit) effect" where
  "database_set_wal_autocheckpoint ce frames = on_connection (connection_set_wal_autocheckpoint ce frames)"

definition database_release_memory :: "('db, 'c) ConnectionEngine \<Rightarrow> (('db, 'c) Database, Error, unit) effect" where
  "database_release_memory ce = on_connection (connection_release_memory ce)"

definition database_query_i64 :: "('db, 'c) ConnectionEngine \<Rightarrow> string \<Rightarrow> (('db, 'c) Database, Error, i64) effect" where
  "database_query_i64 ce sql = on_connection (connection_query_i64 ce sql)"

definition database_query_i64_cached :: "('db, 'c) ConnectionEngine \<Rightarrow> string \<Rightarrow> (('db, 'c) Database, Error, i64) effect" where
  "database_query_i64_cached ce sql = on_connection (connection_query_i64_cached ce sql)"

definition database_transaction :: "('db, 'c) ConnectionEngine \<Rightarrow> (('db, 'c) Database, Error, unit) effect" where
  "database_transaction ce = on_connection (connection_transaction ce)"

definition database_close :: "('db, 'c) ConnectionEngine \<Rightarrow> ('db, 'c) Database \<Rightarrow> unit result" where
  "database_close ce d = connection_close ce (db_connection d)"

text \<open>Record operations and queries of a database; all prepare through the cache.\<close>

definition database_insert ::
  "('db, 'c) ConnectionEngine \<Rightarrow> 'a Collection \<Rightarrow> 'a \<Rightarrow> (('db, 'c) Database, Error, nat) effect" where
  "database_insert ce C record =
     bind_st (lift_st (co_values C record)) (\<lambda>vs.
     bind_st (database_prepare_cached ce (co_insert_sql C)) (\<lambda>stmt.
     on_connection (use_statement ce (map as_ref vs) (\<lambda>st. execute_record (ce_engine ce) st vs) stmt)))"

definition database_get ::
  "('db, 'c) ConnectionEngine \<Rightarrow> 'a Collection \<Rightarrow> Value result \<Rightarrow> (('db, 'c) Database, Error, 'a option) effect" where
  "database_get ce C key =
     bind_st (lift_st key) (\<lambda>k.
     bind_st (database_prepare_cached ce (co_select_by_key_sql C)) (\<lambda>stmt.
     on_connection (use_statement ce [as_ref k] (\<lambda>st. query_record (ce_engine ce) C st k) stmt)))"

definition database_update ::
  "('db, 'c) ConnectionEngine \<Rightarrow> 'a Collection \<Rightarrow> 'a \<Rightarrow> (('db, 'c) Database, Error, nat) effect" where
  "database_update ce C record =
     bind_st (lift_st (bind_result (co_values C record) (update_values (co_schema C)))) (\<lambda>vs.
     bind_st (database_prepare_cached ce (co_update_sql C)) (\<lambda>stmt.
     on_connection (use_statement ce (map as_ref vs) (\<lambda>st. execute_record (ce_engine ce) st vs) stmt)))"

definition database_delete ::
  "('db, 'c) ConnectionEngine \<Rightarrow> 'a Collection \<Rightarrow> Value result \<Rightarrow> (('db, 'c) Database, Error, nat) effect" where
  "database_delete ce C key =
     bind_st (lift_st key) (\<lambda>k.
     bind_st (database_prepare_cached ce (co_delete_by_key_sql C)) (\<lambda>stmt.
     on_connection (use_statement ce [as_ref k] (\<lambda>st. execute_record (ce_engine ce) st [k]) stmt)))"

definition database_query_collection ::
  "('db, 'c) ConnectionEngine \<Rightarrow> 'a Collection \<Rightarrow> CollectionQuery \<Rightarrow> (('db, 'c) Database, Error, 'a list) effect" where
  "database_query_collection ce C query =
     bind_st (database_prepare_cached ce (cq_sql query)) (\<lambda>stmt.
     on_connection (use_statement ce (map as_ref (cq_values query)) (\<lambda>st. execute_query (ce_engine ce) C st query) stmt))"

definition database_collection_exists ::
  "('db, 'c) ConnectionEngine \<Rightarrow> CollectionExistsQuery \<Rightarrow> (('db, 'c) Database, Error, bool) effect" where
  "database_collection_exists ce query =
     bind_st (database_prepare_cached ce (ceq_sql query)) (\<lambda>stmt.
     on_connection (use_statement ce (map as_ref (ceq_values query)) (\<lambda>st. execute_exists_query (ce_engine ce) st query) stmt))"

definition database_registered_schema ::
  "('db, 'c) ConnectionEngine \<Rightarrow> string \<Rightarrow> (('db, 'c) Database, Error, RegisteredSchema option) effect" where
  "database_registered_schema ce collection_id =
     (if \<not> valid_name collection_id then fail_st invalid_schema
      else
        bind_st (database_query_i64 ce SCHEMA_REGISTRY_EXISTS_SQL) (\<lambda>n.
        if n \<noteq> 1 then ret_st None
        else
          bind_st (database_prepare_cached ce FIND_REGISTERED_SCHEMA_SQL) (\<lambda>stmt.
          on_connection (use_statement ce [RText collection_id]
            (\<lambda>st. query_registered_schema (ce_engine ce) st collection_id) stmt))))"

section \<open>Readers\<close>

text \<open>A pooled reader is a database behind an interface without writes; its transactions are transactions of it.\<close>

definition read_query_i64_cached :: "('db, 'c) ConnectionEngine \<Rightarrow> string \<Rightarrow> (('db, 'c) Database, Error, i64) effect" where
  "read_query_i64_cached ce sql = database_query_i64_cached ce sql"

definition read_prepare :: "('db, 'c) ConnectionEngine \<Rightarrow> string \<Rightarrow> (('db, 'c) Database, Error, StatementInner) effect" where
  "read_prepare ce sql = database_prepare ce sql"

definition read_is_readonly :: "('db, 'c) ConnectionEngine \<Rightarrow> string \<Rightarrow> ('db, 'c) Database \<Rightarrow> bool result" where
  "read_is_readonly ce database_name d = database_is_readonly ce database_name d"

definition read_transaction_state ::
  "('db, 'c) ConnectionEngine \<Rightarrow> string option \<Rightarrow> (('db, 'c) Database, Error, TransactionState) effect" where
  "read_transaction_state ce database_name = database_transaction_state ce database_name"

definition read_release_memory :: "('db, 'c) ConnectionEngine \<Rightarrow> (('db, 'c) Database, Error, unit) effect" where
  "read_release_memory ce = database_release_memory ce"

definition read_transaction_query_i64 :: "('db, 'c) ConnectionEngine \<Rightarrow> string \<Rightarrow> (('db, 'c) Connection, Error, i64) effect" where
  "read_transaction_query_i64 ce sql = on_db (query_i64 (ce_engine ce) sql)"

definition read_transaction_query_i64_cached ::
  "('db, 'c) ConnectionEngine \<Rightarrow> string \<Rightarrow> (('db, 'c) Connection, Error, i64) effect" where
  "read_transaction_query_i64_cached ce sql = transaction_query_i64_cached ce sql"

definition read_transaction_prepare ::
  "('db, 'c) ConnectionEngine \<Rightarrow> string \<Rightarrow> (('db, 'c) Connection, Error, StatementInner) effect" where
  "read_transaction_prepare ce sql = connection_prepare ce sql"

definition read_transaction_prepare_cached ::
  "('db, 'c) ConnectionEngine \<Rightarrow> string \<Rightarrow> (('db, 'c) Connection, Error, StatementInner) effect" where
  "read_transaction_prepare_cached ce sql = transaction_prepare_cached ce sql"

definition read_transaction_transaction_state ::
  "('db, 'c) ConnectionEngine \<Rightarrow> string option \<Rightarrow> (('db, 'c) Connection, Error, TransactionState) effect" where
  "read_transaction_transaction_state ce database_name = on_db (transaction_state (ce_engine ce) database_name)"

definition read_transaction_get ::
  "('db, 'c) ConnectionEngine \<Rightarrow> 'a Collection \<Rightarrow> Value result \<Rightarrow> (('db, 'c) Connection, Error, 'a option) effect" where
  "read_transaction_get ce C key =
     bind_st (lift_st key) (\<lambda>k.
     bind_st (read_transaction_prepare_cached ce (co_select_by_key_sql C))
       (use_statement ce [as_ref k] (\<lambda>stmt. query_record (ce_engine ce) C stmt k)))"

definition read_transaction_query_collection ::
  "('db, 'c) ConnectionEngine \<Rightarrow> 'a Collection \<Rightarrow> CollectionQuery \<Rightarrow> (('db, 'c) Connection, Error, 'a list) effect" where
  "read_transaction_query_collection ce C query =
     bind_st (read_transaction_prepare ce (cq_sql query))
       (use_statement ce (map as_ref (cq_values query)) (\<lambda>stmt. execute_query (ce_engine ce) C stmt query))"

definition read_transaction_collection_exists ::
  "('db, 'c) ConnectionEngine \<Rightarrow> CollectionExistsQuery \<Rightarrow> (('db, 'c) Connection, Error, bool) effect" where
  "read_transaction_collection_exists ce query =
     bind_st (read_transaction_prepare ce (ceq_sql query))
       (use_statement ce (map as_ref (ceq_values query)) (\<lambda>stmt. execute_exists_query (ce_engine ce) stmt query))"

section \<open>The cache is transparent\<close>

text \<open>
  One operation simulates another through a projection of its state: the same result, and the same projected state
  afterwards.
\<close>

definition simulates :: "('s \<Rightarrow> 'd) \<Rightarrow> 's \<Rightarrow> ('s, 'e, 'a) effect \<Rightarrow> ('d, 'e, 'a) effect \<Rightarrow> bool" where
  "simulates project s concrete abstract \<longleftrightarrow> abstract (project s) = map_prod (\<lambda>r. r) project (concrete s)"

lemma simulates_pure [intro]: "simulates p s (ret_st x) (ret_st x)" "simulates p s (fail_st e) (fail_st e)"
  "simulates p s (lift_st r) (lift_st r)"
  by (simp_all add: simulates_def)

lemma simulates_bind [intro]:
  assumes "simulates p s m m'" "\<And>x t. m s = (Inr x, t) \<Longrightarrow> simulates p t (f x) (f' x)"
  shows "simulates p s (bind_st m f) (bind_st m' f')"
proof (cases "m s")
  case (Pair r t)
  then show ?thesis using assms by (cases r) (auto simp: simulates_def bind_st_def)
qed

lemma simulates_on_db [intro]: "simulates cn_db cn (on_db m) m"
  by (simp add: simulates_def on_db_def split: prod.split)

lemma simulates_on_connection:
  "simulates (cn_db \<circ> db_connection) d (on_connection m) m' \<longleftrightarrow> simulates cn_db (db_connection d) m m'"
  by (cases "m (db_connection d)") (simp add: simulates_def on_connection_def)

text \<open>What the program relies on: the cache has a statement, new or used, for every text that compiles.\<close>

definition compiles :: "('db, 'c) ConnectionEngine \<Rightarrow> 'db \<Rightarrow> string \<Rightarrow> bool" where
  "compiles ce db sql \<longleftrightarrow> is_ok (e_parameter_count (ce_engine ce) sql db)"

lemma compilesE:
  assumes "compiles ce db sql"
  obtains n where "e_parameter_count (ce_engine ce) sql db = Inr n"
  using assms by (cases "e_parameter_count (ce_engine ce) sql db") (auto simp: compiles_def)

definition cache_law :: "('db, 'c) ConnectionEngine \<Rightarrow> bool" where
  "cache_law ce \<longleftrightarrow> (\<forall>sql db cache n. e_parameter_count (ce_engine ce) sql db = Inr n \<longrightarrow>
     (\<exists>bound cache'. ce_prepare_cached ce sql db cache = (Inr bound, cache') \<and> length bound = n) \<and>
     e_query_i64 (ce_engine ce) sql db = ce_query_row ce sql db)"

text \<open>A use of a statement that does not depend on what is bound before.\<close>

definition rebinds :: "(Statement \<Rightarrow> ('db, Error, 'a) effect) \<Rightarrow> bool" where
  "rebinds body \<longleftrightarrow> (\<forall>sql bs bs'. length bs = length bs' \<longrightarrow>
     body \<lparr>st_sql = sql, st_parameter_count = length bs, st_bindings = bs\<rparr> =
     body \<lparr>st_sql = sql, st_parameter_count = length bs', st_bindings = bs'\<rparr>)"

lemma bind_iter_rebinds:
  assumes "length bs = length bs'"
  shows "fst (bind_iter eng db ps \<lparr>st_sql = sql, st_parameter_count = length bs, st_bindings = bs\<rparr>) =
      fst (bind_iter eng db ps \<lparr>st_sql = sql, st_parameter_count = length bs', st_bindings = bs'\<rparr>)"
    "length ps = length bs \<Longrightarrow> bind_iter eng db ps \<lparr>st_sql = sql, st_parameter_count = length bs, st_bindings = bs\<rparr> =
      bind_iter eng db ps \<lparr>st_sql = sql, st_parameter_count = length bs', st_bindings = bs'\<rparr>"
  using assms by (auto simp: bind_iter_def bind_loop_eq clear_bindings_def split: option.split)

lemma rebinds_bound:
  "rebinds (\<lambda>stmt db. case bind_iter eng db ps stmt of (Inl e, _) \<Rightarrow> (Inl e, db) | (Inr _, st) \<Rightarrow> g st db)"
  unfolding rebinds_def
proof (intro allI impI ext)
  fix sql and bs bs' :: "ValueRef list" and db
  assume "length bs = length bs'"
  then show "(case bind_iter eng db ps \<lparr>st_sql = sql, st_parameter_count = length bs, st_bindings = bs\<rparr> of
        (Inl e, _) \<Rightarrow> (Inl e, db) | (Inr _, st) \<Rightarrow> g st db) =
      (case bind_iter eng db ps \<lparr>st_sql = sql, st_parameter_count = length bs', st_bindings = bs'\<rparr> of
        (Inl e, _) \<Rightarrow> (Inl e, db) | (Inr _, st) \<Rightarrow> g st db)"
    using bind_iter_rebinds(2) [of bs bs' ps eng db sql] by (cases "length ps = length bs") (simp_all add: bind_iter_def)
qed

lemma rebinds_bind: "rebinds m \<Longrightarrow> rebinds (\<lambda>stmt. bind_st (m stmt) f)"
  unfolding rebinds_def by metis

lemma rebinds_statement:
  "rebinds (\<lambda>stmt. statement_execute eng stmt ps)" "rebinds (\<lambda>stmt. statement_execute_values eng stmt vs)"
  "rebinds (\<lambda>stmt. statement_query eng stmt ps)" "rebinds (\<lambda>stmt. statement_query_values eng stmt vs)"
  unfolding statement_execute_def [abs_def] statement_execute_values_def [abs_def] statement_query_def [abs_def]
    statement_query_values_def [abs_def] bind_all_def bind_owned_all_def
  by (rule rebinds_bound)+

lemma rebinds_operations [intro]:
  "rebinds (\<lambda>stmt. statement_execute eng stmt ps)" "rebinds (\<lambda>stmt. execute_record eng stmt vs)"
  "rebinds (\<lambda>stmt. query_record eng C stmt k)" "rebinds (\<lambda>stmt. execute_query eng C stmt q)"
  "rebinds (\<lambda>stmt. execute_exists_query eng stmt x)" "rebinds (\<lambda>stmt. query_registered_schema eng stmt i)"
  unfolding execute_record_def query_record_def execute_query_def execute_exists_query_def query_registered_schema_def
  by (intro rebinds_bind rebinds_statement)+

lemma cached_statement:
  assumes "cache_law ce" "compiles ce (cn_db cn) sql" "rebinds body"
  shows "simulates cn_db cn (bind_st (connection_prepare_cached ce sql) (use_statement ce ps body)) (bind_st (prepare (ce_engine ce) sql) body)"
proof -
  obtain n where n: "e_parameter_count (ce_engine ce) sql (cn_db cn) = Inr n"
    by (rule compilesE [OF assms(2)])
  then obtain bound cache where c: "ce_prepare_cached ce sql (cn_db cn) (cn_cache cn) = (Inr bound, cache)" "length bound = n"
    using assms(1) unfolding cache_law_def by metis
  have "body \<lparr>st_sql = sql, st_parameter_count = n, st_bindings = bound\<rparr> =
      body \<lparr>st_sql = sql, st_parameter_count = n, st_bindings = replicate n RNull\<rparr>"
    using assms(3) [unfolded rebinds_def, rule_format, of bound "replicate n RNull"] c(2) by simp
  then show ?thesis
    by (simp add: simulates_def bind_st_def connection_prepare_cached_def prepare_def use_statement_def c n split: prod.split)
qed

lemma direct_statement:
  "simulates cn_db cn (bind_st (connection_prepare ce sql) (use_statement ce ps body)) (bind_st (prepare (ce_engine ce) sql) body)"
  by (cases "e_parameter_count (ce_engine ce) sql (cn_db cn)")
    (simp_all add: simulates_def connection_prepare_def bind_st_def on_db_def prepare_def use_statement_def split: prod.split)

lemma cached_row:
  assumes "cache_law ce" "compiles ce (cn_db cn) sql"
  shows "simulates cn_db cn (connection_query_i64_cached ce sql) (query_i64 (ce_engine ce) sql)"
proof -
  have "rebinds (\<lambda>stmt db. (map_err map_storage_error (ce_query_row ce (st_sql stmt) db), db))" by (simp add: rebinds_def)
  from cached_statement [OF assms this, of "[]"]
  have "simulates cn_db cn (connection_query_i64_cached ce sql)
    (bind_st (prepare (ce_engine ce) sql) (\<lambda>stmt db. (map_err map_storage_error (ce_query_row ce (st_sql stmt) db), db)))"
    by (simp add: connection_query_i64_cached_def)
  moreover obtain n where "e_parameter_count (ce_engine ce) sql (cn_db cn) = Inr n"
    by (rule compilesE [OF assms(2)])
  ultimately show ?thesis
    using assms(1) unfolding cache_law_def simulates_def by (simp add: bind_st_def prepare_def query_i64_def)
qed

lemma database_statement:
  "bind_st (on_connection m) (\<lambda>stmt. on_connection (f stmt)) = on_connection (bind_st m f)"
  by (rule ext) (simp add: bind_st_def on_connection_def split: prod.split sum.split)

lemma simulates_lift:
  "(\<And>x. r = Inr x \<Longrightarrow> simulates p s (f x) (f' x)) \<Longrightarrow> simulates p s (bind_st (lift_st r) f) (bind_st (lift_st r) f')"
  by (cases r) (auto simp: simulates_def)

lemma cached_records:
  assumes "cache_law ce"
  shows "compiles ce (cn_db cn) (co_insert_sql C) \<Longrightarrow> simulates cn_db cn (transaction_insert ce C r) (insert_record (ce_engine ce) C r)"
    "compiles ce (cn_db cn) (co_select_by_key_sql C) \<Longrightarrow> simulates cn_db cn (transaction_get ce C k) (get_record (ce_engine ce) C k)"
    "compiles ce (cn_db cn) (co_update_sql C) \<Longrightarrow> simulates cn_db cn (transaction_update ce C r) (update_record (ce_engine ce) C r)"
    "compiles ce (cn_db cn) (co_delete_by_key_sql C) \<Longrightarrow> simulates cn_db cn (transaction_delete ce C k) (delete_record (ce_engine ce) C k)"
  unfolding transaction_insert_def transaction_get_def transaction_update_def transaction_delete_def insert_record_def get_record_def
    update_record_def delete_record_def transaction_prepare_cached_def
  by (intro simulates_lift cached_statement rebinds_operations assms; assumption)+

text \<open>A database's record operations are those of its connection.\<close>

lemma bind_on_connection: "bind_st (lift_st r) (\<lambda>x. on_connection (f x)) = on_connection (bind_st (lift_st r) f)"
  by (cases r) (auto simp: fun_eq_iff on_connection_def)

lemma database_records:
  "database_insert ce C r = on_connection (transaction_insert ce C r)"
  "database_get ce C k = on_connection (transaction_get ce C k)"
  "database_update ce C r = on_connection (transaction_update ce C r)"
  "database_delete ce C k = on_connection (transaction_delete ce C k)"
  unfolding database_insert_def database_get_def database_update_def database_delete_def transaction_insert_def transaction_get_def
    transaction_update_def transaction_delete_def database_prepare_cached_def transaction_prepare_cached_def
    database_statement bind_on_connection by (rule refl)+

lemma cached_registered_schema:
  assumes "cache_law ce" "compiles ce (cn_db (db_connection d)) FIND_REGISTERED_SCHEMA_SQL"
  shows "simulates (cn_db \<circ> db_connection) d (database_registered_schema ce i) (registered_schema (ce_engine ce) i)"
proof -
  let ?find = "bind_st (database_prepare_cached ce FIND_REGISTERED_SCHEMA_SQL) (\<lambda>stmt. on_connection (use_statement ce [RText i]
      (\<lambda>st. query_registered_schema (ce_engine ce) st i) stmt))"
  have "simulates (cn_db \<circ> db_connection) d ?find (bind_st (prepare (ce_engine ce) FIND_REGISTERED_SCHEMA_SQL)
      (\<lambda>stmt. query_registered_schema (ce_engine ce) stmt i))"
    unfolding database_prepare_cached_def database_statement simulates_on_connection
    by (intro cached_statement assms rebinds_operations)
  then show ?thesis
    by (cases "e_query_i64 (ce_engine ce) SCHEMA_REGISTRY_EXISTS_SQL (cn_db (db_connection d))")
      (auto simp: simulates_def database_registered_schema_def registered_schema_def schema_registry_exists_def database_query_i64_def
        connection_query_i64_def on_connection_def on_db_def query_i64_def bind_st_def)
qed

text \<open>
  Claim C36. The statement cache is transparent. Take a database whose engine compiles the texts in question, and a cache in any
  state: whatever statements it holds and whatever values an earlier use, failed or not, left bound in them. Then each operation
  that prepares through the cache returns what the same operation returns with a newly compiled statement, and leaves the
  database content as that one does: single statements, row queries, inserts, lookups, updates and
  deletes of records, collection and existence queries, and the lookup of a registered schema. The same holds for
  the operations of a transaction, also of a pooled reader's.
\<close>

theorem cached_statements_transparent:
  fixes ce :: "('db, 'c) ConnectionEngine" and d :: "('db, 'c) Database"
  defines "eng \<equiv> ce_engine ce" and "cn \<equiv> db_connection d"
  assumes "cache_law ce"
    and "\<forall>str \<in> {sql, co_insert_sql C, co_select_by_key_sql C, co_update_sql C, co_delete_by_key_sql C, cq_sql q, ceq_sql x,
      FIND_REGISTERED_SCHEMA_SQL}. compiles ce (cn_db cn) str"
  shows "simulates (cn_db \<circ> db_connection) d (database_execute ce sql ps) (execute eng sql ps) \<and>
    simulates (cn_db \<circ> db_connection) d (database_query_i64_cached ce sql) (query_i64 eng sql) \<and>
    simulates (cn_db \<circ> db_connection) d (database_insert ce C r) (insert_record eng C r) \<and>
    simulates (cn_db \<circ> db_connection) d (database_get ce C k) (get_record eng C k) \<and>
    simulates (cn_db \<circ> db_connection) d (database_update ce C r) (update_record eng C r) \<and>
    simulates (cn_db \<circ> db_connection) d (database_delete ce C k) (delete_record eng C k) \<and>
    simulates (cn_db \<circ> db_connection) d (database_query_collection ce C q) (query_collection eng C q) \<and>
    simulates (cn_db \<circ> db_connection) d (database_collection_exists ce x) (collection_exists eng x) \<and>
    simulates (cn_db \<circ> db_connection) d (database_registered_schema ce i) (registered_schema eng i) \<and>
    simulates cn_db cn (transaction_query_i64_cached ce sql) (query_i64 eng sql) \<and>
    simulates cn_db cn (transaction_insert ce C r) (insert_record eng C r) \<and>
    simulates cn_db cn (transaction_get ce C k) (get_record eng C k) \<and>
    simulates cn_db cn (transaction_update ce C r) (update_record eng C r) \<and>
    simulates cn_db cn (transaction_delete ce C k) (delete_record eng C k) \<and>
    simulates cn_db cn (transaction_query_collection ce C q) (query_collection eng C q) \<and>
    simulates cn_db cn (transaction_collection_exists ce x) (collection_exists eng x) \<and>
    simulates cn_db cn (read_transaction_get ce C k) (get_record eng C k)"
proof -
  have ok: "compiles ce (cn_db (db_connection d)) str" if "str \<in> {sql, co_insert_sql C, co_select_by_key_sql C, co_update_sql C,
      co_delete_by_key_sql C, cq_sql q, ceq_sql x, FIND_REGISTERED_SCHEMA_SQL}" for str
    using assms(4) that unfolding cn_def by blast
  note records = cached_records [OF assms(3), where cn = "db_connection d"]
  have execute: "simulates cn_db (db_connection d) (connection_execute ce sql ps) (execute (ce_engine ce) sql ps)"
    unfolding connection_execute_def execute_def by (intro cached_statement assms(3) ok rebinds_operations) simp
  have rows: "simulates cn_db (db_connection d) (connection_query_i64_cached ce sql) (query_i64 (ce_engine ce) sql)"
    "simulates cn_db (db_connection d) (transaction_query_i64_cached ce sql) (query_i64 (ce_engine ce) sql)"
    using cached_row [OF assms(3) ok, of sql] by (simp_all add: transaction_query_i64_cached_def connection_query_i64_cached_def transaction_prepare_cached_def)
  have queries: "simulates (cn_db \<circ> db_connection) d (database_query_collection ce C q) (query_collection (ce_engine ce) C q)"
    "simulates (cn_db \<circ> db_connection) d (database_collection_exists ce x) (collection_exists (ce_engine ce) x)"
    unfolding database_query_collection_def database_collection_exists_def query_collection_def collection_exists_def
      database_prepare_cached_def database_statement simulates_on_connection
    by (intro cached_statement assms(3) ok rebinds_operations; simp)+
  have direct: "simulates cn_db (db_connection d) (transaction_query_collection ce C q) (query_collection (ce_engine ce) C q)"
    "simulates cn_db (db_connection d) (transaction_collection_exists ce x) (collection_exists (ce_engine ce) x)"
    unfolding transaction_query_collection_def transaction_collection_exists_def query_collection_def collection_exists_def
    by (rule direct_statement)+
  have snapshot: "read_transaction_get ce C k = transaction_get ce C k"
    by (simp add: read_transaction_get_def transaction_get_def read_transaction_prepare_cached_def)
  show ?thesis
    unfolding eng_def cn_def snapshot database_records database_execute_def database_query_i64_cached_def simulates_on_connection
    by (intro conjI execute rows queries direct records cached_registered_schema assms(3) ok) simp_all
qed

text \<open>A cache that compiles anew each time.\<close>

definition uncached :: "'db Engine \<Rightarrow> ('db, unit) ConnectionEngine" where
  "uncached eng =
     \<lparr>ce_engine = eng, ce_prepare_cached = (\<lambda>sql d c. (map_ok (\<lambda>n. replicate n RNull) (e_parameter_count eng sql d), c)),
      ce_return_statement = (\<lambda>_ c. c), ce_set_capacity = (\<lambda>_ c. c), ce_flush = (\<lambda>c. c), ce_query_row = e_query_i64 eng,
      ce_column_count = (\<lambda>_ _. 0), ce_column_name = (\<lambda>_ _ _. Inl InvalidColumnIndexError),
      ce_changes = (\<lambda>_. 0), ce_total_changes = (\<lambda>_. 0), ce_last_insert_rowid = (\<lambda>_. 0), ce_is_autocommit = (\<lambda>_. True),
      ce_is_busy = (\<lambda>_. False), ce_is_interrupted = (\<lambda>_. False), ce_is_readonly = (\<lambda>_ _. Inr False),
      ce_release_memory = (\<lambda>d. (Inr (), d)), ce_interrupt = (\<lambda>d. d)\<rparr>"

lemma uncached_law: "cache_law (uncached eng)"
  by (simp add: cache_law_def uncached_def)

text \<open>An engine that records the values of each execution, and a cache of one statement with one parameter.\<close>

definition tally_engine :: "ValueRef list list Engine" where
  "tally_engine = \<lparr>e_batch = (\<lambda>_ d. (Inr (), d)), e_parameter_count = (\<lambda>_ _. Inr 1), e_bind = (\<lambda>_ _ _ _. Inr ()),
     e_execute = (\<lambda>_ ps d. (Inr 1, d @ [ps])), e_query = (\<lambda>_ _ _. []), e_query_i64 = (\<lambda>_ d. Inr (of_nat (length d))),
     e_begin = (\<lambda>d. (Inr (), d)), e_commit = (\<lambda>d. (Inr (), d)), e_rollback = (\<lambda>d. (Inr (), d)), e_drop_transaction = (\<lambda>d. d),
     e_transaction_state = (\<lambda>_ _. Inr SqlTxnNone), e_busy_timeout = (\<lambda>_ d. (Inr (), d)),
     e_wal_checkpoint = (\<lambda>_ _ d. ((0, 0, 0), d)), e_wal_autocheckpoint = (\<lambda>_ d. (0, d)),
     e_failure_code = (\<lambda>_. FOther), e_close = (\<lambda>_. Inr ())\<rparr>"

definition tally :: "(ValueRef list list, ValueRef) ConnectionEngine" where
  "tally = \<lparr>ce_engine = tally_engine, ce_prepare_cached = (\<lambda>_ _ c. (Inr [c], c)),
     ce_return_statement = (\<lambda>st c. case st_bindings st of v # _ \<Rightarrow> v | [] \<Rightarrow> c), ce_set_capacity = (\<lambda>_ c. c), ce_flush = (\<lambda>_. RNull),
     ce_query_row = (\<lambda>_ d. Inr (of_nat (length d))), ce_column_count = (\<lambda>_ _. 0), ce_column_name = (\<lambda>_ _ _. Inl InvalidColumnIndexError),
     ce_changes = (\<lambda>_. 1), ce_total_changes = (\<lambda>d. of_nat (length d)), ce_last_insert_rowid = (\<lambda>_. 0), ce_is_autocommit = (\<lambda>_. True),
     ce_is_busy = (\<lambda>_. False), ce_is_interrupted = (\<lambda>_. False), ce_is_readonly = (\<lambda>_ _. Inr False),
     ce_release_memory = (\<lambda>d. (Inr (), d)), ce_interrupt = (\<lambda>d. d)\<rparr>"

definition stale_database :: "(ValueRef list list, ValueRef) Database" where
  "stale_database = \<lparr>db_connection = \<lparr>cn_db = [], cn_cache = RInteger 9, cn_security = Plaintext\<rparr>\<rparr>"

text \<open>The value left bound by an earlier use is not executed.\<close>

theorem cached_statements_transparent_witness:
  "execute tally_engine ''PUT ?'' [RInteger 5] [] = (Inr 1, [[RInteger 5]]) \<and>
   fst (database_execute tally ''PUT ?'' [RInteger 5] stale_database) = Inr 1 \<and>
   cn_db (db_connection (snd (database_execute tally ''PUT ?'' [RInteger 5] stale_database))) = [[RInteger 5]]"
proof -
  have law: "cache_law tally" by (simp add: cache_law_def tally_def tally_engine_def)
  have texts: "\<forall>str \<in> S. compiles tally d str" for S d by (simp add: compiles_def tally_def tally_engine_def)
  have once: "execute tally_engine ''PUT ?'' [RInteger 5] [] = (Inr 1, [[RInteger 5]])"
    by (simp add: execute_def bind_st_def prepare_def statement_execute_def bind_all_def bind_iter_def raw_execute_def map_err_st_def
        tally_engine_def)
  have start: "ce_engine tally = tally_engine" "cn_db (db_connection stale_database) = []" by (simp_all add: tally_def stale_database_def)
  show ?thesis
    using cached_statements_transparent [where d = stale_database and sql = "''PUT ?''" and ps = "[RInteger 5]", OF law texts, THEN conjunct1] once
    by (cases "database_execute tally ''PUT ?'' [RInteger 5] stale_database") (simp add: simulates_def start)
qed

end
