(* ===== verification/Float32.thy ===== *)
theory Float32
  imports Field_Codec
begin

text \<open>
  The \<^verbatim>\<open>f32\<close> field codec of \<^verbatim>\<open>csgdb/src/collection.rs\<close>. Both float types are their IEEE-754 bit patterns: a sign bit over a
  magnitude, whose upper part is the biased exponent and whose lower part is the fraction. Widening (\<^verbatim>\<open>f64::from\<close>) is exact,
  narrowing (\<^verbatim>\<open>as f32\<close>) rounds to the nearest value, ties to even. The language leaves the payload of a converted NaN open: the two
  conversions of NaNs are arguments.
\<close>

section \<open>Magnitudes\<close>

text \<open>The exponent and fraction of a magnitude with \<open>p\<close> fraction bits.\<close>

definition exponent_of :: "nat \<Rightarrow> nat \<Rightarrow> nat" where
  "exponent_of p b = b div 2 ^ p"

definition fraction_of :: "nat \<Rightarrow> nat \<Rightarrow> nat" where
  "fraction_of p b = b mod 2 ^ p"

text \<open>The position of the leading bit.\<close>

fun top_bit :: "nat \<Rightarrow> nat" where
  "top_bit m = (if m \<le> 1 then 0 else Suc (top_bit (m div 2)))"

declare top_bit.simps [simp del]

definition infinity32 :: nat where "infinity32 = 255 * 2 ^ 23"
definition infinity64 :: nat where "infinity64 = 2047 * 2 ^ 52"

definition widen_magnitude :: "nat \<Rightarrow> nat" where
  "widen_magnitude b =
     (let e = exponent_of 23 b; m = fraction_of 23 b in
      if b \<ge> infinity32 then infinity64
      else if e > 0 then (e + 896) * 2 ^ 52 + m * 2 ^ 29
      else if m = 0 then 0
      else (let k = top_bit m in (k + 874) * 2 ^ 52 + (m - 2 ^ k) * 2 ^ (52 - k)))"

text \<open>Division by a power of two, rounded to nearest, ties to even.\<close>

definition round_shift :: "nat \<Rightarrow> nat \<Rightarrow> nat" where
  "round_shift n s =
     (let q = n div 2 ^ s; r = n mod 2 ^ s in
      if 2 * r > 2 ^ s \<or> 2 * r = 2 ^ s \<and> odd q then q + 1 else q)"

text \<open>
  The significand in units of the last place of the result; for a result below the normal range that unit is fixed.
  A carry out of the fraction goes into the exponent, and out of the largest exponent into infinity.
\<close>

definition narrow_magnitude :: "nat \<Rightarrow> nat" where
  "narrow_magnitude b =
     (let e = exponent_of 52 b; m = fraction_of 52 b;
          sig = (if e = 0 then m else 2 ^ 52 + m);
          e' = max e 1;
          s = (if e' \<ge> 897 then 29 else 29 + (897 - e'));
          base = (if e' \<ge> 897 then (e' - 897) * 2 ^ 23 else 0)
      in if b \<ge> infinity64 then infinity32 else min (base + round_shift sig s) infinity32)"

section \<open>Conversions\<close>

definition magnitude32 :: "f32 \<Rightarrow> nat" where "magnitude32 x = unat x mod 2 ^ 31"
definition magnitude64 :: "f64 \<Rightarrow> nat" where "magnitude64 x = unat x mod 2 ^ 63"

definition f32_is_nan :: "f32 \<Rightarrow> bool" where "f32_is_nan x = (magnitude32 x > infinity32)"
definition f64_is_nan :: "f64 \<Rightarrow> bool" where "f64_is_nan x = (magnitude64 x > infinity64)"
definition f32_is_finite :: "f32 \<Rightarrow> bool" where "f32_is_finite x = (magnitude32 x < infinity32)"

definition f64_from_f32 :: "(f32 \<Rightarrow> f64) \<Rightarrow> f32 \<Rightarrow> f64" where
  "f64_from_f32 nan x =
     (if f32_is_nan x then nan x
      else word_of_nat (unat x div 2 ^ 31 * 2 ^ 63 + widen_magnitude (magnitude32 x)))"

definition f64_as_f32 :: "(f64 \<Rightarrow> f32) \<Rightarrow> f64 \<Rightarrow> f32" where
  "f64_as_f32 nan x =
     (if f64_is_nan x then nan x
      else word_of_nat (unat x div 2 ^ 63 * 2 ^ 31 + narrow_magnitude (magnitude64 x)))"

definition f32_to_value :: "(f32 \<Rightarrow> f64) \<Rightarrow> f32 \<Rightarrow> Value result" where
  "f32_to_value nan x = Inr (VReal (f64_from_f32 nan x))"

definition f32_from_value :: "(f64 \<Rightarrow> f32) \<Rightarrow> ValueRef \<Rightarrow> f32 result" where
  "f32_from_value nan r =
     (case r of
        RReal v \<Rightarrow>
          (let narrowed = f64_as_f32 nan v in
           if f64_is_finite v \<and> \<not> f32_is_finite narrowed then Inl invalid_field_value else Inr narrowed)
      | _ \<Rightarrow> Inl invalid_field_type)"

section \<open>Exactness\<close>

lemma top_bit_bounds: "0 < m \<Longrightarrow> 2 ^ top_bit m \<le> m \<and> m < 2 ^ Suc (top_bit m)"
proof (induction m rule: top_bit.induct)
  case (1 m)
  then show ?case by (cases "m \<le> 1") (auto simp: top_bit.simps [of m])
qed

lemma round_shift_exact [simp]: "round_shift (q * 2 ^ s) s = q"
  by (simp add: round_shift_def)

lemma top_bit_less: "0 < m \<Longrightarrow> m < 2 ^ n \<Longrightarrow> top_bit m < n"
proof -
  assume m: "0 < m" "m < 2 ^ n"
  then have "(2 :: nat) ^ top_bit m < 2 ^ n" using top_bit_bounds [of m] by (meson le_less_trans)
  then show ?thesis by simp
qed

lemma parts: "b < c * 2 ^ p \<Longrightarrow> exponent_of p b < c" "fraction_of p b < 2 ^ p" "exponent_of p b * 2 ^ p + fraction_of p b = b"
  by (simp_all add: exponent_of_def fraction_of_def less_mult_imp_div_less div_mult_mod_eq)

lemma place: "e < c \<Longrightarrow> m < p \<Longrightarrow> e * p + m < c * p" for e c m p :: nat
proof -
  assume "e < c" "m < p"
  then have "e * p + m < Suc e * p" "Suc e * p \<le> c * p" by (simp, meson Suc_leI mult_le_mono1)
  then show ?thesis by (rule less_le_trans)
qed

lemma parts_of: "m < 2 ^ p \<Longrightarrow> exponent_of p (e * 2 ^ p + m) = e" "m < 2 ^ p \<Longrightarrow> fraction_of p (e * 2 ^ p + m) = m"
  by (simp_all add: exponent_of_def fraction_of_def)

lemma below_infinity: "m < 2 ^ 52 \<Longrightarrow> e < 2047 \<Longrightarrow> e * 2 ^ 52 + m < infinity64"
  unfolding infinity64_def by (rule place)

lemma narrow_parts:
  assumes "m < 2 ^ 52" "e < 2047"
  shows "narrow_magnitude (e * 2 ^ 52 + m) =
    min ((if max e 1 \<ge> 897 then (max e 1 - 897) * 2 ^ 23 else 0) +
      round_shift (if e = 0 then m else 2 ^ 52 + m) (if max e 1 \<ge> 897 then 29 else 29 + (897 - max e 1))) infinity32"
  using below_infinity [OF assms] assms(1) by (simp add: narrow_magnitude_def Let_def parts_of del: power_numeral)

lemma narrow_normal:
  assumes "0 < e" "e < 255" "m < 2 ^ 23"
  shows "narrow_magnitude ((e + 896) * 2 ^ 52 + m * 2 ^ 29) = e * 2 ^ 23 + m"
proof -
  have sig: "2 ^ 52 + m * 2 ^ 29 = (2 ^ 23 + m) * 2 ^ 29" by simp
  have m: "m * 2 ^ 29 < 2 ^ 52" using assms(3) by simp
  have base: "(max (e + 896) 1 - 897) * 2 ^ 23 + (2 ^ 23 + m) = e * 2 ^ 23 + m" using assms(1) by (cases e) simp_all
  have "e * 2 ^ 23 + m \<le> infinity32" unfolding infinity32_def by (rule less_imp_le [OF place [OF assms(2,3)]])
  then show ?thesis
    using assms base unfolding narrow_parts [OF m, of "e + 896"] by (simp add: narrow_parts [OF m] sig del: power_numeral)
qed


lemma subnormal_fraction:
  assumes "0 < m" "m < 2 ^ 23"
  shows "(2 :: nat) ^ 52 = 2 ^ top_bit m * 2 ^ (52 - top_bit m)" "(m - 2 ^ top_bit m) * 2 ^ (52 - top_bit m) < 2 ^ 52"
proof -
  have k: "top_bit m < 23" "2 ^ top_bit m \<le> m" "m < 2 ^ Suc (top_bit m)" using top_bit_less [OF assms] top_bit_bounds [OF assms(1)] by auto
  show pow: "(2 :: nat) ^ 52 = 2 ^ top_bit m * 2 ^ (52 - top_bit m)" using k(1) by (simp flip: power_add del: power_numeral)
  have "m - 2 ^ top_bit m < 2 ^ top_bit m" using k by simp
  then show "(m - 2 ^ top_bit m) * 2 ^ (52 - top_bit m) < 2 ^ 52" unfolding pow by (rule mult_strict_right_mono) simp
qed

lemma narrow_subnormal:
  assumes "0 < m" "m < 2 ^ 23"
  shows "narrow_magnitude ((top_bit m + 874) * 2 ^ 52 + (m - 2 ^ top_bit m) * 2 ^ (52 - top_bit m)) = m"
proof -
  let ?k = "top_bit m"
  have k: "?k < 23" "2 ^ ?k \<le> m" using top_bit_less [OF assms] top_bit_bounds [OF assms(1)] by auto
  note pow = subnormal_fraction(1) [OF assms] and frac = subnormal_fraction(2) [OF assms]
  have sig: "2 ^ 52 + (m - 2 ^ ?k) * 2 ^ (52 - ?k) = m * 2 ^ (52 - ?k)"
    unfolding pow using k(2) by (simp flip: add_mult_distrib)
  have shift: "(if max (?k + 874) 1 \<ge> 897 then 29 else 29 + (897 - max (?k + 874) 1)) = 52 - ?k" using k(1) by auto
  have "m \<le> infinity32" using assms(2) by (simp add: infinity32_def)
  then show ?thesis
    using k(1) by (simp add: narrow_parts [OF frac] sig shift del: power_numeral)
qed

lemma narrow_widen: "b \<le> infinity32 \<Longrightarrow> narrow_magnitude (widen_magnitude b) = b"
proof -
  assume b: "b \<le> infinity32"
  consider "b = infinity32" | "b < infinity32" "0 < exponent_of 23 b" | "b < infinity32" "exponent_of 23 b = 0" using b by linarith
  then show ?thesis
  proof cases
    case 1
    then show ?thesis by (simp add: widen_magnitude_def Let_def narrow_magnitude_def)
  next
    case 2
    then have "exponent_of 23 b < 255" using parts(1) [of b 255 23] by (simp add: infinity32_def)
    then show ?thesis
      using 2 narrow_normal [OF _ _ parts(2), of "exponent_of 23 b" b] parts(3) [of 23 b]
      by (simp add: widen_magnitude_def Let_def del: power_numeral)
  next
    case 3
    then have f: "fraction_of 23 b = b" using parts(3) [of 23 b] by simp
    then have "b < 2 ^ 23" using parts(2) [of 23 b] by simp
    then show ?thesis
      using 3 f narrow_subnormal [of b] narrow_parts [of 0 0]
      by (cases "b = 0") (simp_all add: widen_magnitude_def Let_def round_shift_def del: power_numeral)
  qed
qed

lemma widen_bound: "widen_magnitude b \<le> infinity64"
proof (cases "b < infinity32")
  case True
  have e: "exponent_of 23 b < 255" using parts(1) [of b 255 23] True by (simp add: infinity32_def)
  have f: "fraction_of 23 b < 2 ^ 23" by (rule parts(2))
  have "(exponent_of 23 b + 896) * 2 ^ 52 + fraction_of 23 b * 2 ^ 29 < 2047 * 2 ^ 52"
    using e f by (intro place) auto
  moreover have "(top_bit m + 874) * 2 ^ 52 + (m - 2 ^ top_bit m) * 2 ^ (52 - top_bit m) < 2047 * 2 ^ 52"
    if "0 < m" "m < 2 ^ 23" for m
    using top_bit_less [OF that] subnormal_fraction(2) [OF that] by (intro place) auto
  ultimately show ?thesis using True f unfolding widen_magnitude_def Let_def infinity64_def
    by (auto intro!: less_imp_le simp del: power_numeral)
qed (simp add: widen_magnitude_def Let_def)

section \<open>Bit patterns\<close>

lemma exponent_bits: "v AND f64_exponent_mask = push_bit 52 (take_bit 11 (drop_bit 52 v))"
proof -
  have "f64_exponent_mask = push_bit 52 (mask 11)" by (simp add: f64_exponent_mask_def push_bit_eq_mult mask_eq_exp_minus_1)
  show ?thesis unfolding \<open>f64_exponent_mask = _\<close> by (rule bit_word_eqI) (auto simp: bit_simps)
qed

lemma push_exponent_inject:
  "push_bit 52 (take_bit 11 v) = push_bit 52 (take_bit 11 w) \<longleftrightarrow> take_bit 11 v = take_bit 11 w" for v w :: f64
proof
  have *: "drop_bit 52 (push_bit 52 (take_bit 11 x)) = take_bit 11 x" for x :: f64
    by (rule bit_word_eqI) (auto simp: bit_simps)
  show "push_bit 52 (take_bit 11 v) = push_bit 52 (take_bit 11 w) \<Longrightarrow> take_bit 11 v = take_bit 11 w"
    by (metis *)
qed simp

lemma magnitude_exponent: "magnitude64 v div 2 ^ 52 = unat (take_bit 11 (drop_bit 52 v))"
proof -
  have "unat v mod 2 ^ (52 + 11) div 2 ^ 52 = unat v div 2 ^ 52 mod 2 ^ 11" for v :: f64
    unfolding power_add by (rule mod_mult2_eq [THEN arg_cong, THEN trans]) simp
  moreover have "unat (take_bit 11 (drop_bit 52 v)) = take_bit 11 (drop_bit 52 (unat v))"
    using unsigned_less [where 'a = nat, of v]
    by (simp add: unsigned_take_bit_eq unsigned_drop_bit_eq take_bit_nat_eq_self)
  ultimately show ?thesis by (simp add: magnitude64_def take_bit_eq_mod drop_bit_eq_div)
qed

lemma f64_finite_magnitude: "f64_is_finite v \<longleftrightarrow> magnitude64 v < infinity64"
proof -
  have m: "f64_exponent_mask = push_bit 52 (take_bit 11 2047)" by (simp add: f64_exponent_mask_def)
  have "f64_is_finite v \<longleftrightarrow> take_bit 11 (drop_bit 52 v) \<noteq> take_bit 11 2047"
    unfolding f64_is_finite_def exponent_bits unfolding m push_exponent_inject ..
  also have "\<dots> \<longleftrightarrow> magnitude64 v div 2 ^ 52 \<noteq> 2047"
    unfolding magnitude_exponent by (auto simp: word_unat_eq_iff)
  also have "\<dots> \<longleftrightarrow> magnitude64 v < infinity64"
  proof -
    have "magnitude64 v < 2048 * 2 ^ 52" by (simp add: magnitude64_def)
    then show ?thesis by (simp add: infinity64_def) linarith
  qed
  finally show ?thesis .
qed

text \<open>A sign bit over a magnitude.\<close>

lemma sign_over_magnitude:
  assumes "m < 2 ^ p" "LENGTH('a::len) = Suc p" "s \<le> 1"
  shows "unat (word_of_nat (s * 2 ^ p + m) :: 'a word) = s * 2 ^ p + m"
    "(s * 2 ^ p + m) mod 2 ^ p = m" "(s * 2 ^ p + m) div 2 ^ p = s"
proof -
  have "s * 2 ^ p + m < 2 ^ LENGTH('a)" unfolding assms(2) power_Suc using assms(1,3) by (intro place) simp_all
  then show "unat (word_of_nat (s * 2 ^ p + m) :: 'a word) = s * 2 ^ p + m"
    by (simp only: unat_of_nat take_bit_nat_eq_self mod_less)
qed (use assms(1) in simp_all)

lemma sign32: "unat x div 2 ^ 31 \<le> 1" "unat x div 2 ^ 31 * 2 ^ 31 + magnitude32 x = unat x" for x :: f32
  using unsigned_less [where 'a = nat, of x] by (auto simp: magnitude32_def)

lemma sign64: "unat x div 2 ^ 63 \<le> 1" "unat x div 2 ^ 63 * 2 ^ 63 + magnitude64 x = unat x" for x :: f64
  using unsigned_less [where 'a = nat, of x] by (auto simp: magnitude64_def)

lemma magnitude_from:
  assumes "\<not> f32_is_nan x"
  shows "magnitude64 (f64_from_f32 nan x) = widen_magnitude (magnitude32 x)"
    "unat (f64_from_f32 nan x) div 2 ^ 63 = unat x div 2 ^ 31"
proof -
  have "widen_magnitude (magnitude32 x) < 2 ^ 63" using widen_bound [of "magnitude32 x"] by (simp add: infinity64_def)
  note * = sign_over_magnitude [where 'a = 64, OF this _ sign32(1)]
  show "magnitude64 (f64_from_f32 nan x) = widen_magnitude (magnitude32 x)"
    "unat (f64_from_f32 nan x) div 2 ^ 63 = unat x div 2 ^ 31"
    using assms * by (simp_all add: f64_from_f32_def magnitude64_def del: of_nat_add of_nat_mult power_numeral)
qed

lemma narrow_bound: "narrow_magnitude b \<le> infinity32"
  by (simp add: narrow_magnitude_def Let_def)

lemma magnitude_as:
  assumes "\<not> f64_is_nan v"
  shows "magnitude32 (f64_as_f32 nan v) = narrow_magnitude (magnitude64 v)"
proof -
  have "narrow_magnitude (magnitude64 v) < 2 ^ 31" using narrow_bound [of "magnitude64 v"] by (simp add: infinity32_def)
  note * = sign_over_magnitude [where 'a = 32, OF this _ sign64(1)]
  show ?thesis using assms * by (simp add: f64_as_f32_def magnitude32_def del: of_nat_add of_nat_mult power_numeral)
qed

lemma f32_through_f64:
  assumes "\<not> f32_is_nan x"
  shows "f64_as_f32 nan' (f64_from_f32 nan x) = x"
proof -
  have m: "magnitude32 x \<le> infinity32" using assms by (simp add: f32_is_nan_def)
  have "\<not> f64_is_nan (f64_from_f32 nan x)" using widen_bound [of "magnitude32 x"] by (simp add: f64_is_nan_def magnitude_from [OF assms] not_less)
  then show ?thesis using assms by (simp add: f64_as_f32_def magnitude_from narrow_widen [OF m] sign32(2) del: power_numeral)
qed

section \<open>The accepted range\<close>

lemma round_shift_below: "n < c * 2 ^ s \<Longrightarrow> round_shift n s \<le> c"
  using less_mult_imp_div_less [of n c "2 ^ s"] by (auto simp: round_shift_def Let_def)

lemma round_shift_above: "c * 2 ^ s \<le> n \<Longrightarrow> c \<le> round_shift n s"
  using div_le_mono [of "c * 2 ^ s" n "2 ^ s"] by (auto simp: round_shift_def Let_def)

text \<open>The largest double that still narrows to a finite value is just below the midpoint between the largest single and \<open>2\<^sup>1\<^sup>2\<^sup>8\<close>.\<close>

definition narrow_limit :: nat where "narrow_limit = 0x47EFFFFFF0000000"

lemma round_shift_top: "round_shift n 29 < 2 ^ 24 \<longleftrightarrow> n < 2 ^ 53 - 2 ^ 28"
proof -
  have n: "n = n div 2 ^ 29 * 2 ^ 29 + n mod 2 ^ 29" "n mod 2 ^ 29 < 2 ^ 29" by simp_all
  consider "n div 2 ^ 29 < 2 ^ 24 - 1" | "n div 2 ^ 29 = 2 ^ 24 - 1" | "n div 2 ^ 29 \<ge> 2 ^ 24" by fastforce
  then show ?thesis
  proof cases
    case 2
    then show ?thesis using n by (simp add: round_shift_def Let_def)
  qed (use n in \<open>simp_all add: round_shift_def Let_def\<close>, linarith+)
qed

lemma narrow_finite_iff:
  assumes "b < infinity64"
  shows "narrow_magnitude b < infinity32 \<longleftrightarrow> b < narrow_limit"
proof -
  let ?e = "exponent_of 52 b" and ?m = "fraction_of 52 b"
  have b: "b = ?e * 2 ^ 52 + ?m" "?m < 2 ^ 52" "?e < 2047"
    using parts(1) [of b 2047 52] parts(2,3) [of 52 b] assms by (simp_all add: infinity64_def)
  have n: "narrow_magnitude b = min ((if max ?e 1 \<ge> 897 then (max ?e 1 - 897) * 2 ^ 23 else 0) +
      round_shift (if ?e = 0 then ?m else 2 ^ 52 + ?m) (if max ?e 1 \<ge> 897 then 29 else 29 + (897 - max ?e 1))) infinity32"
    using narrow_parts [OF b(2,3)] b(1) by simp
  consider "?e < 897" | "897 \<le> ?e" "?e < 1150" | "?e = 1150" | "1150 < ?e" by linarith
  then show ?thesis
  proof cases
    case 1
    let ?s = "29 + (897 - max ?e 1)"
    have "(2 :: nat) ^ 24 * 2 ^ 29 \<le> 2 ^ 24 * 2 ^ ?s" by (rule mult_le_mono2, rule power_increasing) simp_all
    moreover have "(if ?e = 0 then ?m else 2 ^ 52 + ?m) < 2 ^ 24 * 2 ^ 29" using b(2) by simp
    ultimately have "(if ?e = 0 then ?m else 2 ^ 52 + ?m) < 2 ^ 24 * 2 ^ ?s" by (rule less_le_trans [rotated])
    note round_shift_below [OF this]
    then show ?thesis using 1 b n by (simp add: infinity32_def narrow_limit_def)
  next
    case 2
    have "2 ^ 52 + ?m < 2 ^ 24 * 2 ^ 29" using b(2) by simp
    note round_shift_below [OF this]
    then show ?thesis using 2 b n by (simp add: infinity32_def narrow_limit_def)
  next
    case 3
    then show ?thesis using round_shift_top [of "2 ^ 52 + ?m"] b n by (simp add: infinity32_def narrow_limit_def) linarith
  next
    case 4
    have "2 ^ 23 * 2 ^ 29 \<le> 2 ^ 52 + ?m" by simp
    note round_shift_above [OF this]
    then show ?thesis using 4 b n by (simp add: infinity32_def narrow_limit_def)
  qed
qed

lemma f32_from_real:
  "f32_from_value down (RReal v) =
     (if f64_is_finite v \<and> narrow_limit \<le> magnitude64 v then Inl invalid_field_value else Inr (f64_as_f32 down v))"
proof (cases "f64_is_finite v")
  case True
  then have f: "magnitude64 v < infinity64" by (simp add: f64_finite_magnitude)
  then have "\<not> f64_is_nan v" by (simp add: f64_is_nan_def)
  then have "f32_is_finite (f64_as_f32 down v) \<longleftrightarrow> magnitude64 v < narrow_limit"
    using narrow_finite_iff [OF f] by (simp add: f32_is_finite_def magnitude_as)
  then show ?thesis using True by (auto simp: f32_from_value_def Let_def)
qed (simp add: f32_from_value_def Let_def)

text \<open>
  Claim C26. Whatever the language does to the payload of a converted NaN, every other \<^verbatim>\<open>f32\<close>, the zeros, the subnormals and the infinities
  included, is stored as a real and read back bit for bit. A stored real is refused as an invalid field value exactly when it is
  finite and at least the midpoint between the largest \<^verbatim>\<open>f32\<close> and \<open>2\<^sup>1\<^sup>2\<^sup>8\<close>, and every value of another type is refused as an invalid type.
\<close>

theorem f32_values_exact:
  assumes "\<not> f32_is_nan x"
  shows "bind_result (f32_to_value up x) (f32_from_value down \<circ> as_ref) = Inr x \<and>
    f32_from_value down (RReal v) =
      (if f64_is_finite v \<and> narrow_limit \<le> magnitude64 v then Inl invalid_field_value else Inr (f64_as_f32 down v)) \<and>
    (ref_value_type r = TReal \<or> f32_from_value down r = Inl invalid_field_type)"
proof (intro conjI)
  have b: "magnitude32 x \<le> infinity32" using assms by (simp add: f32_is_nan_def)
  have "\<not> (f64_is_finite (f64_from_f32 up x) \<and> narrow_limit \<le> magnitude64 (f64_from_f32 up x))"
  proof
    assume *: "f64_is_finite (f64_from_f32 up x) \<and> narrow_limit \<le> magnitude64 (f64_from_f32 up x)"
    then have "widen_magnitude (magnitude32 x) < infinity64" "\<not> magnitude32 x < infinity32"
      using narrow_finite_iff [of "widen_magnitude (magnitude32 x)"] narrow_widen [OF b]
      by (simp_all add: f64_finite_magnitude magnitude_from [OF assms])
    then show False by (simp add: widen_magnitude_def Let_def)
  qed
  then show "bind_result (f32_to_value up x) (f32_from_value down \<circ> as_ref) = Inr x"
    by (simp add: f32_to_value_def f32_from_real f32_through_f64 [OF assms] del: de_Morgan_conj)
  show "ref_value_type r = TReal \<or> f32_from_value down r = Inl invalid_field_type"
    by (cases r) (simp_all add: f32_from_value_def)
qed (rule f32_from_real)

text \<open>The smallest subnormal survives; the largest \<^verbatim>\<open>f64\<close> and the number 7 are refused.\<close>

theorem f32_values_exact_witness:
  "bind_result (f32_to_value (\<lambda>_. 0x7FF8000000000000) 1) (f32_from_value (\<lambda>_. 0x7FC00000) \<circ> as_ref) = Inr 1 \<and>
   f32_from_value (\<lambda>_. 0x7FC00000) (RReal 0x7FEFFFFFFFFFFFFF) = Inl invalid_field_value \<and>
   f32_from_value (\<lambda>_. 0x7FC00000) (RInteger 7) = Inl invalid_field_type"
proof -
  have "\<not> f32_is_nan 1" by (simp add: f32_is_nan_def magnitude32_def infinity32_def)
  note * = f32_values_exact [OF this, of "\<lambda>_. 0x7FF8000000000000" "\<lambda>_. 0x7FC00000" "0x7FEFFFFFFFFFFFFF" "RInteger 7"]
  have "f64_is_finite 0x7FEFFFFFFFFFFFFF \<and> narrow_limit \<le> magnitude64 0x7FEFFFFFFFFFFFFF"
    by (simp add: f64_finite_magnitude magnitude64_def infinity64_def narrow_limit_def)
  with * show ?thesis by simp
qed

end
