(* ===== verification/Collection_Map.thy ===== *)
theory Collection_Map
  imports Derive_Sql Records Connection_Ops Float32
begin

text \<open>
  A derived collection, from the generated code of \<^verbatim>\<open>csgdb-derive/src/lib.rs\<close> through the record operations and the statement cache down
  to a table, is a map from keys to records. The engine is an argument; what is used of it is the meaning of the four statement
  forms that the macro emits, on the rows of one table.
\<close>

section \<open>Tables\<close>

type_synonym table_row = "string \<rightharpoonup> SqlValueRef"

record table_shape =
  ts_name :: string
  ts_key :: string
  ts_columns :: "(string \<times> ColumnType) list"

text \<open>
  A value that a column of a given type gives back as it was: of the column's storage class, or null. SQLite stores a NaN as
  null and does not keep the sign of a zero.
\<close>

definition exact_value :: "ColumnType \<Rightarrow> ValueRef \<Rightarrow> bool" where
  "exact_value ty v =
     (case v of
        RNull \<Rightarrow> True
      | RReal f \<Rightarrow> ty = CReal \<and> \<not> f64_is_nan f \<and> f \<noteq> 0x8000000000000000
      | _ \<Rightarrow> ref_value_type v = class_of_column ty)"

text \<open>A value for which equality in SQL is equality.\<close>

definition exact_key :: "ValueRef \<Rightarrow> bool" where
  "exact_key v = (case v of RInteger _ \<Rightarrow> True | RText _ \<Rightarrow> True | RBlob _ \<Rightarrow> True | _ \<Rightarrow> False)"

datatype TableStatement =
    InsertRow "string list" "nat list"
  | UpdateRows "(string \<times> nat option) list" nat
  | DeleteRows nat

text \<open>The statements on a table, tested by its key, as the forms of the macro read.\<close>

definition read_statement :: "table_shape \<Rightarrow> string \<Rightarrow> TableStatement option" where
  "read_statement T sql =
     (case parse_insert sql of
        Some (t, cs, ps) \<Rightarrow>
          if t = ts_name T \<and> distinct cs \<and> set cs = fst ` set (ts_columns T) \<and> length ps = length cs
          then Some (InsertRow cs ps) else None
      | None \<Rightarrow>
          (case parse_update sql of
             Some (t, as, k, p) \<Rightarrow>
               if t = ts_name T \<and> k = ts_key T \<and> distinct (map fst as) then Some (UpdateRows as p) else None
           | None \<Rightarrow>
               (case parse_delete sql of
                  Some (t, k, p) \<Rightarrow> if t = ts_name T \<and> k = ts_key T then Some (DeleteRows p) else None
                | None \<Rightarrow> None)))"

text \<open>A statement has as many parameters as its highest number says.\<close>

fun parameters_of :: "TableStatement \<Rightarrow> nat" where
  "parameters_of (InsertRow cs ps) = fold max ps 0"
| "parameters_of (UpdateRows as p) = fold max (List.map_filter snd as) p"
| "parameters_of (DeleteRows p) = p"

definition supplied :: "ValueRef list \<Rightarrow> nat \<Rightarrow> ValueRef" where
  "supplied vs p = vs ! (p - 1)"

fun assigned_columns :: "TableStatement \<Rightarrow> (string \<times> nat) list" where
  "assigned_columns (InsertRow cs ps) = zip cs ps"
| "assigned_columns (UpdateRows as p) = List.map_filter (\<lambda>(c, q). map_option (Pair c) q) as"
| "assigned_columns (DeleteRows p) = []"

definition new_values :: "TableStatement \<Rightarrow> ValueRef list \<Rightarrow> table_row" where
  "new_values st vs = map_of (map (\<lambda>(c, p). (c, cell (supplied vs p))) (assigned_columns st))"

definition row_matches :: "table_shape \<Rightarrow> ValueRef \<Rightarrow> table_row \<Rightarrow> bool" where
  "row_matches T v row \<longleftrightarrow> row (ts_key T) = Some (cell v)"

text \<open>The effect on the rows, with the number of changed rows; an insert needs a free key.\<close>

fun run_statement :: "table_shape \<Rightarrow> TableStatement \<Rightarrow> ValueRef list \<Rightarrow> table_row list \<Rightarrow> (nat \<times> table_row list) option" where
  "run_statement T (InsertRow cs ps) vs rows =
     (let row = new_values (InsertRow cs ps) vs in
      if \<exists>r \<in> set rows. r (ts_key T) = row (ts_key T) then None else Some (1, rows @ [row]))"
| "run_statement T (UpdateRows as p) vs rows =
     Some (length (filter (row_matches T (supplied vs p)) rows),
       map (\<lambda>row. if row_matches T (supplied vs p) row then row ++ new_values (UpdateRows as p) vs else row) rows)"
| "run_statement T (DeleteRows p) vs rows =
     Some (length (filter (row_matches T (supplied vs p)) rows), filter (\<lambda>row. \<not> row_matches T (supplied vs p) row) rows)"

fun key_parameters :: "table_shape \<Rightarrow> TableStatement \<Rightarrow> nat list" where
  "key_parameters T (InsertRow cs ps) = List.map_filter (\<lambda>(c, p). if c = ts_key T then Some p else None) (zip cs ps)"
| "key_parameters T (UpdateRows as p) = [p]"
| "key_parameters T (DeleteRows p) = [p]"

definition exact_parameters :: "table_shape \<Rightarrow> TableStatement \<Rightarrow> ValueRef list \<Rightarrow> bool" where
  "exact_parameters T st vs \<longleftrightarrow>
     length vs = parameters_of st \<and>
     (\<forall>(c, p) \<in> set (assigned_columns st). \<forall>ty. map_of (ts_columns T) c = Some ty \<longrightarrow> exact_value ty (supplied vs p)) \<and>
     (\<forall>p \<in> set (key_parameters T st). exact_key (supplied vs p))"

text \<open>
  What the program relies on of the engine: a statement of these forms compiles, with its number of parameters; when its execution
  succeeds the rows change as it says, and when it fails, for whatever reason, they do not change. A lookup gives the first row
  with the key, or reports a failure.
\<close>

definition statement_law :: "'db Engine \<Rightarrow> ('db \<Rightarrow> table_row list) \<Rightarrow> table_shape \<Rightarrow> bool" where
  "statement_law eng rows T \<longleftrightarrow>
     (\<forall>sql st db. read_statement T sql = Some st \<longrightarrow>
        e_parameter_count eng sql db = Inr (parameters_of st) \<and>
        (\<forall>vs. exact_parameters T st vs \<longrightarrow>
           (case e_execute eng sql vs db of
              (Inl _, db') \<Rightarrow> rows db' = rows db
            | (Inr n, db') \<Rightarrow> run_statement T st vs (rows db) = Some (n, rows db'))))"

definition lookup_law :: "'db Engine \<Rightarrow> ('db \<Rightarrow> table_row list) \<Rightarrow> table_shape \<Rightarrow> bool" where
  "lookup_law eng rows T \<longleftrightarrow>
     (\<forall>sql cs p db. parse_select_by_key sql = Some (cs, ts_name T, ts_key T, p) \<and> set cs \<subseteq> fst ` set (ts_columns T) \<longrightarrow>
        e_parameter_count eng sql db = Inr p \<and>
        (\<forall>vs. length vs = p \<and> exact_key (supplied vs p) \<longrightarrow>
           (\<exists>e items. e_query eng sql vs db = Inl e # items) \<or>
           e_query eng sql vs db =
             map (\<lambda>row. Inr (map (\<lambda>c. the (row c)) cs)) (take 1 (filter (row_matches T (supplied vs p)) (rows db)))))"

section \<open>The generated collection\<close>

text \<open>
  The generated implementation of \<^verbatim>\<open>Collection\<close>: the constants of the expansion, \<^verbatim>\<open>values\<close> and \<^verbatim>\<open>from_row\<close> over the field codecs, and the
  structure expression that builds a record from its fields.
\<close>

definition derived_collection ::
  "Expansion \<Rightarrow> ('r \<Rightarrow> Value result) list \<Rightarrow> (ValueRef \<Rightarrow> 'f result) list \<Rightarrow> ('f list \<Rightarrow> 'r) \<Rightarrow> 'r Collection" where
  "derived_collection x encoders decoders build =
     \<lparr>co_schema = ex_schema x, co_create_table_sql = ex_create_table_sql x, co_insert_sql = ex_insert_sql x,
      co_select_by_key_sql = ex_select_by_key_sql x, co_update_sql = ex_update_sql x,
      co_delete_by_key_sql = ex_delete_by_key_sql x, co_create_index_sql = ex_create_index_sql x,
      co_values = derived_values encoders, co_from_row = (\<lambda>row. map_ok build (derived_from_row decoders row))\<rparr>"

definition derived_table :: "Expansion \<Rightarrow> table_shape" where
  "derived_table x = \<lparr>ts_name = cs_table (ex_schema x), ts_key = df_column (ex_key x),
     ts_columns = map (\<lambda>f. (df_column f, df_storage f)) (ex_fields x)\<rparr>"

definition key_position :: "Expansion \<Rightarrow> nat" where
  "key_position x = the (position df_primary_key (ex_fields x))"

definition encoded :: "('r \<Rightarrow> Value result) list \<Rightarrow> 'r \<Rightarrow> Value list" where
  "encoded encoders r = (case derived_values encoders r of Inr vs \<Rightarrow> vs | Inl _ \<Rightarrow> [])"

definition record_key :: "Expansion \<Rightarrow> ('r \<Rightarrow> Value result) list \<Rightarrow> 'r \<Rightarrow> Value" where
  "record_key x encoders r = encoded encoders r ! key_position x"

definition record_row :: "Expansion \<Rightarrow> ('r \<Rightarrow> Value result) list \<Rightarrow> 'r \<Rightarrow> table_row" where
  "record_row x encoders r c =
     map_option (\<lambda>v. cell (as_ref v)) (map_of (zip (map df_column (ex_fields x)) (encoded encoders r)) c)"

text \<open>
  A record that the collection can hold: it encodes, its values are exact in their columns and its key is an exact key, texts are
  valid, and each field's codec gives back what it was given.
\<close>

definition storable ::
  "Expansion \<Rightarrow> ('r \<Rightarrow> Value result) list \<Rightarrow> (ValueRef \<Rightarrow> 'f result) list \<Rightarrow> ('f list \<Rightarrow> 'r) \<Rightarrow> 'r \<Rightarrow> bool" where
  "storable x encoders decoders build r \<longleftrightarrow>
     (\<exists>vs xs. derived_values encoders r = Inr vs \<and> build xs = r \<and>
        length encoders = length (ex_fields x) \<and> length decoders = length (ex_fields x) \<and> length xs = length (ex_fields x) \<and>
        (\<forall>i < length (ex_fields x). exact_value (df_storage (ex_fields x ! i)) (as_ref (vs ! i)) \<and>
           (decoders ! i) (as_ref (vs ! i)) = Inr (xs ! i)) \<and>
        exact_key (as_ref (vs ! key_position x)) \<and>
        (\<forall>v \<in> set vs. \<forall>s. v = VText s \<longrightarrow> utf8_valid (bytes_of_string s)))"

section \<open>Rows with keys\<close>

text \<open>A list of records with distinct keys as a map, under the changes of the three statements.\<close>

definition keyed :: "('r \<Rightarrow> 'k) \<Rightarrow> 'r list \<Rightarrow> 'k \<rightharpoonup> 'r" where
  "keyed key rs = map_of (map (\<lambda>r. (key r, r)) rs)"

lemma keyed_simps [simp]: "keyed key [] = Map.empty" "keyed key (r # rs) = (keyed key rs)(key r \<mapsto> r)"
  by (simp_all add: keyed_def)

lemma keyed_None: "keyed key rs k = None \<longleftrightarrow> k \<notin> key ` set rs"
  by (induction rs) auto

lemma keyed_append: "key r \<notin> key ` set rs \<Longrightarrow> keyed key (rs @ [r]) = (keyed key rs)(key r \<mapsto> r)"
  by (induction rs) (auto simp: fun_upd_twist)

lemma keyed_filter: "keyed key (filter (\<lambda>r. key r \<noteq> k) rs) = (keyed key rs)(k := None)"
  by (induction rs) (auto simp: fun_upd_twist)

lemma keyed_replace:
  "keyed key (map (\<lambda>r. if key r = key r' then r' else r) rs) =
     (if keyed key rs (key r') = None then keyed key rs else (keyed key rs)(key r' \<mapsto> r'))"
  by (induction rs) (auto simp: fun_upd_twist)

lemma keys_replace: "map key (map (\<lambda>r. if key r = key r' then r' else r) rs) = map key rs"
  by simp

lemma distinct_matches:
  "distinct (map key rs) \<Longrightarrow> filter (\<lambda>r. key r = k) rs = (case keyed key rs k of None \<Rightarrow> [] | Some r \<Rightarrow> [r])"
proof (induction rs)
  case (Cons r rs)
  then show ?case by (cases "key r = k") (auto simp: keyed_None filter_empty_conv image_iff split: option.splits)
qed simp

lemma keyed_Some: "keyed key rs k = Some r \<Longrightarrow> r \<in> set rs \<and> key r = k"
  by (induction rs) (auto split: if_splits)

section \<open>Records as rows\<close>

lemma cell_inject [simp]: "cell u = cell v \<longleftrightarrow> u = v"
proof
  assume "cell u = cell v"
  then show "u = v" by (cases u; cases v) (auto simp: cell_def dest: arg_cong [of _ _ string_of_bytes])
qed simp

lemma expansion_shape:
  assumes "expand_collection env input = Inr x"
  shows "distinct (map df_column (ex_fields x))" "key_position x < length (ex_fields x)" "ex_fields x ! key_position x = ex_key x"
proof -
  obtain fs k where wf: "derived_fields_wf fs" "filter df_primary_key fs = [k]" and s: "ex_fields x = fs" "ex_key x = k"
    using expand_collection_Inr [OF assms] by metis
  obtain i where i: "i < length fs" "fs ! i = k" "position df_primary_key fs = Some i" using wf(2) by (rule key_split)
  then show "key_position x < length (ex_fields x)" "ex_fields x ! key_position x = ex_key x" by (simp_all add: key_position_def s)
  show "distinct (map df_column (ex_fields x))" using wf(1) by (simp add: s derived_fields_wf_def)
qed

lemma storable_encoded:
  assumes "storable x encoders decoders build r"
  shows "derived_values encoders r = Inr (encoded encoders r)" "length (encoded encoders r) = length (ex_fields x)"
    "exact_key (as_ref (record_key x encoders r))"
    "i < length (ex_fields x) \<Longrightarrow> exact_value (df_storage (ex_fields x ! i)) (as_ref (encoded encoders r ! i))"
proof -
  obtain vs where vs: "derived_values encoders r = Inr vs" "length encoders = length (ex_fields x)"
    "exact_key (as_ref (vs ! key_position x))"
    "\<forall>i < length (ex_fields x). exact_value (df_storage (ex_fields x ! i)) (as_ref (vs ! i))"
    using assms by (auto simp: storable_def)
  then have e: "encoded encoders r = vs" by (simp add: encoded_def)
  have "length vs = length encoders" using vs(1) by (simp add: derived_values_def try_map_length)
  then show "derived_values encoders r = Inr (encoded encoders r)" "length (encoded encoders r) = length (ex_fields x)"
    "exact_key (as_ref (record_key x encoders r))"
    "i < length (ex_fields x) \<Longrightarrow> exact_value (df_storage (ex_fields x ! i)) (as_ref (encoded encoders r ! i))"
    using vs by (simp_all add: e record_key_def)
qed

text \<open>Stored as a row and read back, a record is itself.\<close>

lemma storable_reads_back:
  assumes "storable x encoders decoders build r"
  shows "map_ok build (derived_from_row decoders (map (\<lambda>v. cell (as_ref v)) (encoded encoders r))) = Inr r"
proof -
  obtain vs xs where w: "derived_values encoders r = Inr vs" "build xs = r" "length encoders = length (ex_fields x)"
    "length decoders = length (ex_fields x)" "length xs = length (ex_fields x)"
    "\<forall>i < length (ex_fields x). (decoders ! i) (as_ref (vs ! i)) = Inr (xs ! i)"
    "\<forall>v \<in> set vs. \<forall>s. v = VText s \<longrightarrow> utf8_valid (bytes_of_string s)"
    using assms by (auto simp: storable_def)
  have at: "(encoders ! i) r = Inr (vs ! i)" if "i < length encoders" for i
    using w(1) that by (simp add: derived_values_def try_map_Inr_iff list_all2_conv_all_nth)
  have "derived_from_row decoders (map (\<lambda>v. cell (as_ref v)) vs) = Inr xs"
    by (rule derived_record_round_trip [OF w(1) _ _ _ w(7)]) (use w(3-6) at in simp_all)
  then show ?thesis using w(1,2) by (simp add: encoded_def)
qed

lemma row_at:
  assumes "expand_collection env input = Inr x" "storable x encoders decoders build r"
  shows "record_row x encoders r (df_column (ex_key x)) = Some (cell (as_ref (record_key x encoders r)))"
    "map (\<lambda>c. the (record_row x encoders r c)) (map df_column (ex_fields x)) = map (\<lambda>v. cell (as_ref v)) (encoded encoders r)"
proof -
  let ?cols = "map df_column (ex_fields x)" and ?vs = "encoded encoders r"
  note shape = expansion_shape [OF assms(1)] and len = storable_encoded(2) [OF assms(2)]
  have at: "map_of (zip ?cols ?vs) (?cols ! i) = Some (?vs ! i)" if "i < length ?cols" for i
    using shape(1) that len by (intro map_of_zip_nth) simp_all
  then show "record_row x encoders r (df_column (ex_key x)) = Some (cell (as_ref (record_key x encoders r)))"
    using at [of "key_position x"] shape(2,3) by (simp add: record_row_def record_key_def)
  show "map (\<lambda>c. the (record_row x encoders r c)) ?cols = map (\<lambda>v. cell (as_ref v)) ?vs"
    using at len by (intro nth_equalityI) (simp_all add: record_row_def)
qed

section \<open>The four operations on the rows\<close>

lemma forms_exclusive:
  "parse_update s = Some u \<Longrightarrow> parse_insert s = None"
  "parse_delete s = Some v \<Longrightarrow> parse_insert s = None \<and> parse_update s = None"
  by (cases s; auto simp: parse_update_def parse_insert_def parse_delete_def split: if_splits)+

text \<open>A failure that the engine reported, as opposed to one of the library.\<close>

definition engine_failure :: "Error \<Rightarrow> bool" where
  "engine_failure e \<longleftrightarrow> (\<exists>f. e = map_storage_error f)"

lemma executed:
  assumes "statement_law eng rows T" "read_statement T sql = Some st" "exact_parameters T st (map as_ref ws)"
    and "execute_values eng sql ws db = (res, db')"
  shows "case res of Inl e \<Rightarrow> engine_failure e \<and> rows db' = rows db
    | Inr n \<Rightarrow> run_statement T st (map as_ref ws) (rows db) = Some (n, rows db')"
proof -
  note law = assms(1) [unfolded statement_law_def, rule_format, OF assms(2), of db]
  have count: "e_parameter_count eng sql db = Inr (length ws)"
    using law [THEN conjunct1] assms(3) by (simp add: exact_parameters_def)
  show ?thesis
  proof (cases "first_bind_error eng db sql 0 (map as_ref ws)")
    case None
    then have "map_err_st map_storage_error (e_execute eng sql (map as_ref ws)) db = (res, db')"
      using assms(4) count by (simp add: execute_values_eq)
    then show ?thesis
      using law [THEN conjunct2, rule_format, OF assms(3)] by (cases res) (auto simp: engine_failure_def)
  next
    case (Some f)
    then show ?thesis using assms(4) count by (auto simp: execute_values_eq engine_failure_def)
  qed
qed

lemma fold_max_upt: "fold max [1..<Suc n] 0 = n"
  by (induction n) simp_all

lemma insert_statement:
  assumes "expand_collection env input = Inr x" "storable x encoders decoders build r"
  defines "T \<equiv> derived_table x" and "vs \<equiv> encoded encoders r"
    and "st \<equiv> InsertRow (map df_column (ex_fields x)) [1..<length (ex_fields x) + 1]"
  shows "read_statement T (ex_insert_sql x) = Some st" "new_values st (map as_ref vs) = record_row x encoders r"
    "exact_parameters T st (map as_ref vs)"
proof -
  let ?fs = "ex_fields x" and ?cols = "map df_column (ex_fields x)"
  note shape = expansion_shape [OF assms(1)] and enc = storable_encoded [OF assms(2)]
  have "parse_insert (ex_insert_sql x) = Some (cs_table (ex_schema x), ?cols, [1..<length ?fs + 1])"
    using generated_statements [OF assms(1) enc(2)] by (simp add: Let_def)
  then show "read_statement T (ex_insert_sql x) = Some st"
    using shape(1) by (simp add: read_statement_def T_def derived_table_def st_def image_comp comp_def del: upt_Suc)
  have sup: "supplied (map as_ref vs) (Suc i) = as_ref (vs ! i)" if "i < length ?fs" for i
    using that enc(2) by (simp add: supplied_def vs_def)
  have "map (\<lambda>(c, p). (c, cell (supplied (map as_ref vs) p))) (zip ?cols [1..<length ?fs + 1]) =
      map (\<lambda>(c, v). (c, cell (as_ref v))) (zip ?cols vs)"
    using sup enc(2) by (intro nth_equalityI) (simp_all add: vs_def del: upt_Suc)
  then show "new_values st (map as_ref vs) = record_row x encoders r"
    unfolding new_values_def st_def assigned_columns.simps by (simp add: record_row_def vs_def map_of_map fun_eq_iff)
  have "exact_value ty (supplied (map as_ref vs) p)"
    if cp: "(c, p) \<in> set (zip ?cols [1..<length ?fs + 1])" "map_of (ts_columns T) c = Some ty" for c p ty
  proof -
    obtain i where i: "i < length ?fs" "c = df_column (?fs ! i)" "p = Suc i" using cp(1) by (auto simp: in_set_zip simp del: upt_Suc)
    have "map_of (map (\<lambda>f. (df_column f, df_storage f)) ?fs) (df_column (?fs ! i)) = Some (df_storage (?fs ! i))"
      using i(1) shape(1) by (intro map_of_is_SomeI) (auto simp: comp_def)
    then show ?thesis using cp(2) i sup enc(4) [OF i(1)] by (simp add: T_def derived_table_def vs_def)
  qed
  moreover have "exact_key (supplied (map as_ref vs) p)"
    if cp: "(c, p) \<in> set (zip ?cols [1..<length ?fs + 1])" "c = ts_key T" for c p
  proof -
    obtain i where i: "i < length ?fs" "c = df_column (?fs ! i)" "p = Suc i" using cp(1) by (auto simp: in_set_zip simp del: upt_Suc)
    have "?cols ! i = ?cols ! key_position x" using i cp(2) shape(2,3) by (simp add: T_def derived_table_def)
    then have "i = key_position x" using nth_eq_iff_index_eq [OF shape(1)] i(1) shape(2) by simp
    then show ?thesis using i sup enc(3) by (simp add: record_key_def vs_def)
  qed
  ultimately show "exact_parameters T st (map as_ref vs)"
    using enc(2) fold_max_upt [of "length ?fs"]
    by (auto simp: exact_parameters_def st_def vs_def List.map_filter_def split: if_splits simp del: upt_Suc)
qed

lemma distinct_assigned: "distinct (map fst as) \<Longrightarrow> distinct (map fst (assigned_columns (UpdateRows as p)))"
proof (induction as)
  case (Cons a as)
  have "fst ` set (List.map_filter (\<lambda>(c, q). map_option (Pair c) q) as) \<subseteq> fst ` set as" by (force simp: List.map_filter_def)
  then show ?case using Cons by (cases a; cases "snd a") (auto simp: List.map_filter_simps)
qed (simp add: List.map_filter_simps)

lemma mem_assigned: "(c, q) \<in> set (assigned_columns (UpdateRows as p)) \<longleftrightarrow> (c, Some q) \<in> set as"
  by (force simp: List.map_filter_def)

lemma fold_max_below: "\<forall>p \<in> set ps. p \<le> n \<Longrightarrow> fold max ps n = n" for n :: nat
  by (induction ps) (auto simp: max_def)

lemma update_statement:
  assumes "expand_collection env input = Inr x" "storable x encoders decoders build r"
  defines "T \<equiv> derived_table x"
  obtains as ws where "update_values (ex_schema x) (encoded encoders r) = Inr ws"
    "read_statement T (ex_update_sql x) = Some (UpdateRows as (length (ex_fields x)))"
    "supplied (map as_ref ws) (length (ex_fields x)) = as_ref (record_key x encoders r)"
    "exact_parameters T (UpdateRows as (length (ex_fields x))) (map as_ref ws)"
    "\<And>r'. storable x encoders decoders build r' \<Longrightarrow> record_key x encoders r' = record_key x encoders r \<Longrightarrow>
       record_row x encoders r' ++ new_values (UpdateRows as (length (ex_fields x))) (map as_ref ws) = record_row x encoders r"
proof -
  let ?n = "length (ex_fields x)" and ?cols = "map df_column (ex_fields x)" and ?vs = "encoded encoders r" and ?k = "df_column (ex_key x)"
  note shape = expansion_shape [OF assms(1)] and enc = storable_encoded [OF assms(2)]
  obtain as ws where g: "parse_update (ex_update_sql x) = Some (cs_table (ex_schema x), as, ?k, ?n)" "distinct (map fst as)"
    "update_values (ex_schema x) ?vs = Inr ws" "length ws = ?n" "map_of (zip ?cols ?vs) ?k = Some (ws ! (?n - 1))"
    "\<And>c p. (c, Some p) \<in> set as \<Longrightarrow> 1 \<le> p \<and> p \<le> ?n \<and> map_of (zip ?cols ?vs) c = Some (ws ! (p - 1))"
    "\<And>c. c \<in> set ?cols \<Longrightarrow> c \<noteq> ?k \<Longrightarrow> \<exists>p. (c, Some p) \<in> set as"
    using generated_statements [OF assms(1) enc(2)] unfolding Let_def length_map
    by (elim conjE exE) (rule that, assumption+, blast, blast)
  have n: "0 < ?n" using shape(2) by linarith
  have sup: "supplied (map as_ref ws) p = as_ref (ws ! (p - 1))" if "1 \<le> p" "p \<le> ?n" for p
    using that g(4) by (simp add: supplied_def)
  have key: "ws ! (?n - 1) = record_key x encoders r"
    using g(5) map_of_zip_nth [of ?cols ?vs "key_position x"] shape enc(2) by (simp add: record_key_def)
  let ?st = "UpdateRows as ?n"
  have new: "new_values ?st (map as_ref ws) c =
      (if \<exists>p. (c, Some p) \<in> set as then record_row x encoders r c else None)" for c
  proof (cases "\<exists>p. (c, Some p) \<in> set as")
    case True
    then obtain p where p: "(c, Some p) \<in> set as" by blast
    have "new_values ?st (map as_ref ws) c = Some (cell (supplied (map as_ref ws) p))"
      unfolding new_values_def
    proof (rule map_of_is_SomeI)
      show "distinct (map fst (map (\<lambda>(c, p). (c, cell (supplied (map as_ref ws) p))) (assigned_columns ?st)))"
        using distinct_assigned [OF g(2)] by (simp add: comp_def case_prod_unfold del: assigned_columns.simps)
      show "(c, cell (supplied (map as_ref ws) p)) \<in> set (map (\<lambda>(c, p). (c, cell (supplied (map as_ref ws) p))) (assigned_columns ?st))"
        using p unfolding set_map by (intro image_eqI [of _ _ "(c, p)"]) (simp_all only: mem_assigned prod.case)
    qed
    then show ?thesis using True g(6) [OF p] sup by (simp add: record_row_def)
  next
    case False
    then show ?thesis by (auto simp: new_values_def map_of_eq_None_iff mem_assigned simp del: assigned_columns.simps)
  qed
  show thesis
  proof (rule that)
    show "read_statement T (ex_update_sql x) = Some ?st"
      using g(1,2) forms_exclusive(1) [OF g(1)] by (simp add: read_statement_def T_def derived_table_def)
    show "supplied (map as_ref ws) ?n = as_ref (record_key x encoders r)" using sup [of ?n] n key by simp
    show "exact_parameters T ?st (map as_ref ws)"
    proof -
      have "exact_value ty (supplied (map as_ref ws) p)" if c: "(c, Some p) \<in> set as" "map_of (ts_columns T) c = Some ty" for c p ty
      proof -
        obtain i where i: "i < ?n" "c = ?cols ! i" "?vs ! i = ws ! (p - 1)"
          using g(6) [OF c(1)] map_of_SomeD [of "zip ?cols ?vs" c] enc(2) by (auto simp: in_set_zip)
        have "map_of (map (\<lambda>f. (df_column f, df_storage f)) (ex_fields x)) c = Some (df_storage (ex_fields x ! i))"
          using i(1,2) shape(1) by (intro map_of_is_SomeI) (auto simp: comp_def)
        then show ?thesis using c(2) enc(4) [OF i(1)] i(3) sup g(6) [OF c(1)] by (simp add: T_def derived_table_def)
      qed
      moreover have "fold max (List.map_filter snd as) ?n = ?n" by (rule fold_max_below) (use g(6) in \<open>auto simp: List.map_filter_def\<close>)
      ultimately show ?thesis
        using g(4) key sup [of ?n] n enc(3) by (auto simp: exact_parameters_def mem_assigned simp del: assigned_columns.simps)
    qed
    show "record_row x encoders r' ++ new_values ?st (map as_ref ws) = record_row x encoders r"
      if r': "storable x encoders decoders build r'" "record_key x encoders r' = record_key x encoders r" for r'
    proof
      fix c
      show "(record_row x encoders r' ++ new_values ?st (map as_ref ws)) c = record_row x encoders r c"
      proof (cases "\<exists>p. (c, Some p) \<in> set as")
        case True
        then have "new_values ?st (map as_ref ws) c = record_row x encoders r c" by (simp only: new if_True)
        moreover have "record_row x encoders r c \<noteq> None" using True g(6) by (auto simp: record_row_def)
        ultimately show ?thesis by (auto simp: map_add_def split: option.split)
      next
        case False
        then have "c = ?k \<or> c \<notin> set ?cols" using g(7) by blast
        moreover have "record_row x encoders q c = None" if "c \<notin> set ?cols" for q
          using that by (auto simp: record_row_def map_of_eq_None_iff dest: set_zip_leftD)
        ultimately have "record_row x encoders r' c = record_row x encoders r c"
          using row_at(1) [OF assms(1) r'(1)] row_at(1) [OF assms(1,2)] r'(2) by metis
        then show ?thesis using False by (simp add: map_add_def new)
      qed
    qed
  qed (rule g(3))
qed

lemma delete_statement:
  assumes "expand_collection env input = Inr x" "exact_key (as_ref k)"
  defines "T \<equiv> derived_table x"
  shows "read_statement T (ex_delete_by_key_sql x) = Some (DeleteRows 1)" "exact_parameters T (DeleteRows 1) (map as_ref [k])"
    "supplied (map as_ref [k]) 1 = as_ref k"
proof -
  have "length (replicate (length (ex_fields x)) VNull) = length (ex_fields x)" by simp
  then have "parse_delete (ex_delete_by_key_sql x) = Some (cs_table (ex_schema x), df_column (ex_key x), 1)"
    using generated_statements [OF assms(1)] unfolding Let_def by blast
  then show "read_statement T (ex_delete_by_key_sql x) = Some (DeleteRows 1)"
    using forms_exclusive(2) [of "ex_delete_by_key_sql x"] by (simp add: read_statement_def T_def derived_table_def)
  show "exact_parameters T (DeleteRows 1) (map as_ref [k])" "supplied (map as_ref [k]) 1 = as_ref k"
    using assms(2) by (simp_all add: exact_parameters_def supplied_def)
qed

lemma lookup_statement:
  assumes "expand_collection env input = Inr x" "exact_key (as_ref k)" "lookup_law eng rows (derived_table x)"
  shows "e_parameter_count eng (ex_select_by_key_sql x) db = Inr 1"
    "(\<exists>e items. e_query eng (ex_select_by_key_sql x) [as_ref k] db = Inl e # items) \<or>
     e_query eng (ex_select_by_key_sql x) [as_ref k] db =
       map (\<lambda>row. Inr (map (\<lambda>c. the (row c)) (map df_column (ex_fields x))))
         (take 1 (filter (row_matches (derived_table x) (as_ref k)) (rows db)))"
proof -
  let ?T = "derived_table x" and ?cols = "map df_column (ex_fields x)"
  have "length (replicate (length (ex_fields x)) VNull) = length (ex_fields x)" by simp
  then have p: "parse_select_by_key (ex_select_by_key_sql x) = Some (?cols, ts_name ?T, ts_key ?T, 1)"
    using generated_statements [OF assms(1)] unfolding Let_def derived_table_def table_shape.simps by blast
  have "set ?cols \<subseteq> fst ` set (ts_columns ?T)" by (auto simp: derived_table_def image_iff)
  note law = assms(3) [unfolded lookup_law_def, rule_format, OF conjI [OF p this], of db]
  show "e_parameter_count eng (ex_select_by_key_sql x) db = Inr 1" using law by blast
  have "length [as_ref k] = 1 \<and> exact_key (supplied [as_ref k] 1)" using assms(2) by (simp add: supplied_def)
  from law [THEN conjunct2, rule_format, OF this]
  show "(\<exists>e items. e_query eng (ex_select_by_key_sql x) [as_ref k] db = Inl e # items) \<or>
     e_query eng (ex_select_by_key_sql x) [as_ref k] db =
       map (\<lambda>row. Inr (map (\<lambda>c. the (row c)) ?cols)) (take 1 (filter (row_matches ?T (as_ref k)) (rows db)))"
    by (simp add: supplied_def)
qed

section \<open>The collection as a map\<close>

text \<open>The table holds a map: its rows are the rows of storable records with distinct keys.\<close>

definition holds_map ::
  "Expansion \<Rightarrow> ('r \<Rightarrow> Value result) list \<Rightarrow> (ValueRef \<Rightarrow> 'f result) list \<Rightarrow> ('f list \<Rightarrow> 'r) \<Rightarrow> table_row list \<Rightarrow> (Value \<rightharpoonup> 'r) \<Rightarrow> bool" where
  "holds_map x encoders decoders build rows m \<longleftrightarrow>
     (\<exists>rs. rows = map (record_row x encoders) rs \<and> (\<forall>r \<in> set rs. storable x encoders decoders build r) \<and>
        distinct (map (record_key x encoders) rs) \<and> m = keyed (record_key x encoders) rs)"

lemma matching_rows:
  assumes "expand_collection env input = Inr x" "\<forall>r \<in> set rs. storable x encoders decoders build r"
  shows "r \<in> set rs \<Longrightarrow> row_matches (derived_table x) (as_ref k) (record_row x encoders r) \<longleftrightarrow> record_key x encoders r = k"
    "filter (row_matches (derived_table x) (as_ref k)) (map (record_row x encoders) rs) =
       map (record_row x encoders) (filter (\<lambda>r. record_key x encoders r = k) rs)"
    "filter (\<lambda>row. \<not> row_matches (derived_table x) (as_ref k) row) (map (record_row x encoders) rs) =
       map (record_row x encoders) (filter (\<lambda>r. record_key x encoders r \<noteq> k) rs)"
proof -
  show one: "row_matches (derived_table x) (as_ref k) (record_row x encoders r) \<longleftrightarrow> record_key x encoders r = k" if "r \<in> set rs" for r
    using row_at(1) [OF assms(1) assms(2) [rule_format, OF that]] by (simp add: row_matches_def derived_table_def as_ref_eq_iff)
  show "filter (row_matches (derived_table x) (as_ref k)) (map (record_row x encoders) rs) =
       map (record_row x encoders) (filter (\<lambda>r. record_key x encoders r = k) rs)"
    "filter (\<lambda>row. \<not> row_matches (derived_table x) (as_ref k) row) (map (record_row x encoders) rs) =
       map (record_row x encoders) (filter (\<lambda>r. record_key x encoders r \<noteq> k) rs)"
    using one by (auto simp: filter_map comp_def intro!: arg_cong [where f = "map (record_row x encoders)"] filter_cong)
qed

text \<open>
  Operations on records and what they answer. A map answers them so; otherwise the answer is a failure of the engine and nothing
  has changed.
\<close>

datatype 'r RecordOp = InsertOp 'r | GetOp Value | UpdateOp 'r | DeleteOp Value

datatype 'r RecordAnswer = Changed "nat result" | Found "'r option result"

fun map_step :: "('r \<Rightarrow> Value) \<Rightarrow> 'r RecordOp \<Rightarrow> (Value \<rightharpoonup> 'r) \<Rightarrow> 'r RecordAnswer \<Rightarrow> (Value \<rightharpoonup> 'r) \<Rightarrow> bool" where
  "map_step key (InsertOp r) m (Changed (Inr n)) m' \<longleftrightarrow> m (key r) = None \<and> n = 1 \<and> m' = m(key r \<mapsto> r)"
| "map_step key (GetOp k) m (Found (Inr found)) m' \<longleftrightarrow> found = m k \<and> m' = m"
| "map_step key (UpdateOp r) m (Changed (Inr n)) m' \<longleftrightarrow>
     (if m (key r) = None then n = 0 \<and> m' = m else n = 1 \<and> m' = m(key r \<mapsto> r))"
| "map_step key (DeleteOp k) m (Changed (Inr n)) m' \<longleftrightarrow> n = (if m k = None then 0 else 1) \<and> m' = m(k := None)"
| "map_step key (GetOp k) m (Found (Inl e)) m' \<longleftrightarrow> engine_failure e \<and> m' = m"
| "map_step key (GetOp k) m (Changed _) m' \<longleftrightarrow> False"
| "map_step key _ m (Changed (Inl e)) m' \<longleftrightarrow> engine_failure e \<and> m' = m"
| "map_step key _ m _ m' \<longleftrightarrow> False"

fun permitted :: "('r \<Rightarrow> bool) \<Rightarrow> 'r RecordOp \<Rightarrow> bool" where
  "permitted ok (InsertOp r) = ok r"
| "permitted ok (GetOp k) = exact_key (as_ref k)"
| "permitted ok (UpdateOp r) = ok r"
| "permitted ok (DeleteOp k) = exact_key (as_ref k)"

lemma writes_as_executions:
  assumes "C = derived_collection x encoders decoders build" "storable x encoders decoders build r"
  shows "insert_record eng C r db = execute_values eng (ex_insert_sql x) (encoded encoders r) db"
    "update_values (ex_schema x) (encoded encoders r) = Inr ws \<Longrightarrow> update_record eng C r db = execute_values eng (ex_update_sql x) ws db"
    "delete_record eng C (Inr k) db = execute_values eng (ex_delete_by_key_sql x) [k] db"
  using storable_encoded(1) [OF assms(2)]
  by (simp_all add: assms(1) derived_collection_def insert_record_def update_record_def delete_record_def execute_values_def
      execute_record_def)

lemma insert_step:
  assumes "expand_collection env input = Inr x" "statement_law eng rows (derived_table x)"
    and "holds_map x encoders decoders build (rows db) m" "storable x encoders decoders build r"
    and "execute_values eng (ex_insert_sql x) (encoded encoders r) db = (res, db')"
  shows "\<exists>m'. map_step (record_key x encoders) (InsertOp r) m (Changed res) m' \<and> holds_map x encoders decoders build (rows db') m'"
proof -
  let ?T = "derived_table x" and ?key = "record_key x encoders" and ?row = "record_row x encoders"
  obtain rs where rs: "rows db = map ?row rs" "\<forall>r \<in> set rs. storable x encoders decoders build r" "distinct (map ?key rs)" "m = keyed ?key rs"
    using assms(3) by (auto simp: holds_map_def)
  note st = insert_statement [OF assms(1,4)]
  note ex = executed [OF assms(2) st(1,3) assms(5)]
  show ?thesis
  proof (cases res)
    case (Inl e)
    then show ?thesis using ex assms(3) by simp
  next
    case (Inr n)
    have same: "r' (ts_key ?T) = ?row r (ts_key ?T) \<longleftrightarrow> row_matches ?T (as_ref (?key r)) r'" for r'
      using row_at(1) [OF assms(1,4)] by (simp add: row_matches_def derived_table_def)
    have "n = 1 \<and> rows db' = rows db @ [?row r] \<and> (\<forall>r' \<in> set (rows db). \<not> row_matches ?T (as_ref (?key r)) r')"
      using ex Inr st(2) by (auto simp: Let_def same split: if_splits)
    then have n: "n = 1" "rows db' = map ?row (rs @ [r])" "?key r \<notin> ?key ` set rs"
      using rs(1) matching_rows(1) [OF assms(1) rs(2)] by auto
    then have "holds_map x encoders decoders build (rows db') (m(?key r \<mapsto> r))"
      using rs assms(4) keyed_append [OF n(3)] by (auto simp: holds_map_def intro!: exI [of _ "rs @ [r]"])
    then show ?thesis using Inr n(1,3) rs(4) by (auto simp: keyed_None)
  qed
qed

lemma update_step:
  assumes "expand_collection env input = Inr x" "statement_law eng rows (derived_table x)"
    and "holds_map x encoders decoders build (rows db) m" "storable x encoders decoders build r"
    and "update_record eng (derived_collection x encoders decoders build) r db = (res, db')"
  shows "\<exists>m'. map_step (record_key x encoders) (UpdateOp r) m (Changed res) m' \<and> holds_map x encoders decoders build (rows db') m'"
proof -
  let ?T = "derived_table x" and ?key = "record_key x encoders" and ?row = "record_row x encoders"
  obtain rs where rs: "rows db = map ?row rs" "\<forall>r \<in> set rs. storable x encoders decoders build r" "distinct (map ?key rs)" "m = keyed ?key rs"
    using assms(3) by (auto simp: holds_map_def)
  obtain as ws where st: "update_values (ex_schema x) (encoded encoders r) = Inr ws"
    "read_statement ?T (ex_update_sql x) = Some (UpdateRows as (length (ex_fields x)))"
    "supplied (map as_ref ws) (length (ex_fields x)) = as_ref (?key r)"
    "exact_parameters ?T (UpdateRows as (length (ex_fields x))) (map as_ref ws)"
    "\<And>r'. storable x encoders decoders build r' \<Longrightarrow> ?key r' = ?key r \<Longrightarrow>
       ?row r' ++ new_values (UpdateRows as (length (ex_fields x))) (map as_ref ws) = ?row r"
    using update_statement [OF assms(1,4)] by metis
  have "execute_values eng (ex_update_sql x) ws db = (res, db')"
    using writes_as_executions(2) [OF refl assms(4) st(1), of eng db] assms(5) by simp
  note ex = executed [OF assms(2) st(2,4) this]
  show ?thesis
  proof (cases res)
    case (Inl e)
    then show ?thesis using ex assms(3) by simp
  next
    case (Inr n)
    let ?new = "map (\<lambda>r'. if ?key r' = ?key r then r else r') rs"
    let ?st = "UpdateRows as (length (ex_fields x))"
    have "map (\<lambda>row. if row_matches ?T (as_ref (?key r)) row then row ++ new_values ?st (map as_ref ws) else row) (map ?row rs) = map ?row ?new"
      using matching_rows(1) [OF assms(1) rs(2)] rs(2) st(5) by simp
    then have "run_statement ?T ?st (map as_ref ws) (rows db) = Some (length (filter (\<lambda>r'. ?key r' = ?key r) rs), map ?row ?new)"
      by (simp only: run_statement.simps st(3) rs(1) matching_rows(2) [OF assms(1) rs(2)] length_map)
    then have "rows db' = map ?row ?new" "n = length (filter (\<lambda>r'. ?key r' = ?key r) rs)" using ex Inr by simp_all
    moreover have "holds_map x encoders decoders build (map ?row ?new) (keyed ?key ?new)"
      unfolding holds_map_def using rs(2,3) assms(4) keys_replace [of ?key r rs] by (intro exI [of _ ?new]) (auto simp del: map_map)
    ultimately show ?thesis
      using Inr rs(4) keyed_replace [of ?key r rs] distinct_matches [OF rs(3), of "?key r"]
      by (auto simp: split: option.splits if_splits intro!: exI [of _ "keyed ?key ?new"])
  qed
qed

lemma delete_step:
  assumes "expand_collection env input = Inr x" "statement_law eng rows (derived_table x)"
    and "holds_map x encoders decoders build (rows db) m" "exact_key (as_ref k)"
    and "execute_values eng (ex_delete_by_key_sql x) [k] db = (res, db')"
  shows "\<exists>m'. map_step (record_key x encoders) (DeleteOp k) m (Changed res) m' \<and> holds_map x encoders decoders build (rows db') m'"
proof -
  let ?T = "derived_table x" and ?key = "record_key x encoders" and ?row = "record_row x encoders"
  obtain rs where rs: "rows db = map ?row rs" "\<forall>r \<in> set rs. storable x encoders decoders build r" "distinct (map ?key rs)" "m = keyed ?key rs"
    using assms(3) by (auto simp: holds_map_def)
  note st = delete_statement [OF assms(1,4)]
  note ex = executed [OF assms(2) st(1,2) assms(5)]
  show ?thesis
  proof (cases res)
    case (Inl e)
    then show ?thesis using ex assms(3) by simp
  next
    case (Inr n)
    let ?new = "filter (\<lambda>r'. ?key r' \<noteq> k) rs"
    have "run_statement ?T (DeleteRows 1) (map as_ref [k]) (rows db) = Some (length (filter (\<lambda>r'. ?key r' = k) rs), map ?row ?new)"
      by (simp only: run_statement.simps st(3) rs(1) matching_rows(2,3) [OF assms(1) rs(2)] length_map)
    then have "rows db' = map ?row ?new" "n = length (filter (\<lambda>r'. ?key r' = k) rs)" using ex Inr by simp_all
    moreover have "holds_map x encoders decoders build (map ?row ?new) (keyed ?key ?new)"
      unfolding holds_map_def using rs(2,3) by (intro exI [of _ ?new]) (auto intro: distinct_map_filter)
    ultimately show ?thesis
      using Inr rs(4) keyed_filter [of ?key k rs] distinct_matches [OF rs(3), of k]
      by (auto split: option.splits intro!: exI [of _ "keyed ?key ?new"])
  qed
qed

lemma get_step:
  assumes "expand_collection env input = Inr x" "lookup_law eng rows (derived_table x)"
    and "holds_map x encoders decoders build (rows db) m" "exact_key (as_ref k)"
    and "get_record eng (derived_collection x encoders decoders build) (Inr k) db = (res, db')"
  shows "map_step (record_key x encoders) (GetOp k) m (Found res) m \<and> rows db' = rows db"
proof -
  let ?C = "derived_collection x encoders decoders build" and ?T = "derived_table x"
  let ?key = "record_key x encoders" and ?row = "record_row x encoders" and ?sql = "ex_select_by_key_sql x"
  obtain rs where rs: "rows db = map ?row rs" "\<forall>r \<in> set rs. storable x encoders decoders build r" "distinct (map ?key rs)" "m = keyed ?key rs"
    using assms(3) by (auto simp: holds_map_def)
  have C: "co_select_by_key_sql ?C = ?sql" "co_from_row ?C = (\<lambda>row. map_ok build (derived_from_row decoders row))"
    by (simp_all add: derived_collection_def)
  define answer where "answer = bind_result (run_query eng ?sql [as_ref k] db) (\<lambda>items. bind_result (first_row items) (\<lambda>row.
      case row of None \<Rightarrow> Inr None | Some r \<Rightarrow> map_ok Some (co_from_row ?C r)))"
  have "get_record eng ?C (Inr k) db = (answer, db)"
    unfolding answer_def get_record_def query_record_def by (simp add: bind_queried C(1))
  then have res: "res = answer" "db' = db" using assms(5) by simp_all
  have "run_query eng ?sql [as_ref k] db = (case first_bind_error eng db ?sql 0 [as_ref k] of
      Some e \<Rightarrow> Inl (map_storage_error e) | None \<Rightarrow> Inr (e_query eng ?sql [as_ref k] db))"
    using lookup_statement(1) [OF assms(1,4,2), of db] by (simp add: run_query_def)
  moreover note lookup_statement(2) [OF assms(1,4,2), of db]
  moreover have "filter (row_matches ?T (as_ref k)) (rows db) = map ?row (case m k of None \<Rightarrow> [] | Some r \<Rightarrow> [r])"
    using matching_rows(2) [OF assms(1) rs(2), of k] distinct_matches [OF rs(3), of k] by (simp add: rs(1,4))
  moreover have "co_from_row ?C (map (\<lambda>c. the (?row r c)) (map df_column (ex_fields x))) = Inr r" if "m k = Some r" for r
  proof -
    have r: "storable x encoders decoders build r" using keyed_Some [of ?key rs k r] that rs(2,4) by simp
    show ?thesis unfolding row_at(2) [OF assms(1) r] C by (rule storable_reads_back [OF r])
  qed
  ultimately have "(\<exists>e. answer = Inl e \<and> engine_failure e) \<or> answer = Inr (m k)"
    unfolding answer_def
    by (cases "first_bind_error eng db ?sql 0 [as_ref k]"; cases "m k")
      (auto simp: first_row_def row_or_error_def engine_failure_def simp del: map_map first_bind_error.simps)
  then show ?thesis using res by auto
qed

section \<open>Histories\<close>

text \<open>
  A system whose steps are steps of an abstract one: the interface between an implementation and its specification. What holds of one
  step holds of every history.
\<close>

fun run_all :: "('op \<Rightarrow> 's \<Rightarrow> 'a \<times> 's) \<Rightarrow> 'op list \<Rightarrow> 's \<Rightarrow> 'a list \<times> 's" where
  "run_all step [] s = ([], s)"
| "run_all step (op # ops) s =
     (case step op s of (a, s') \<Rightarrow> case run_all step ops s' of (as, s'') \<Rightarrow> (a # as, s''))"

fun spec_run :: "('op \<Rightarrow> 'm \<Rightarrow> 'a \<Rightarrow> 'm \<Rightarrow> bool) \<Rightarrow> 'op list \<Rightarrow> 'm \<Rightarrow> 'a list \<Rightarrow> 'm \<Rightarrow> bool" where
  "spec_run spec [] m [] m' \<longleftrightarrow> m' = m"
| "spec_run spec (op # ops) m (a # as) m' \<longleftrightarrow> (\<exists>m1. spec op m a m1 \<and> spec_run spec ops m1 as m')"
| "spec_run spec _ m _ m' \<longleftrightarrow> False"

locale forward_simulation =
  fixes step :: "'op \<Rightarrow> 's \<Rightarrow> 'a \<times> 's" and spec :: "'op \<Rightarrow> 'm \<Rightarrow> 'a \<Rightarrow> 'm \<Rightarrow> bool"
    and holds :: "'s \<Rightarrow> 'm \<Rightarrow> bool" and allowed :: "'op \<Rightarrow> bool"
  assumes step_refines: "holds s m \<Longrightarrow> allowed op \<Longrightarrow> step op s = (a, s') \<Longrightarrow> \<exists>m'. spec op m a m' \<and> holds s' m'"
begin

lemma run_refines:
  "holds s m \<Longrightarrow> list_all allowed ops \<Longrightarrow> run_all step ops s = (as, s') \<Longrightarrow> \<exists>m'. spec_run spec ops m as m' \<and> holds s' m'"
proof (induction ops arbitrary: s m as)
  case (Cons op ops)
  obtain a s1 where 1: "step op s = (a, s1)" by (cases "step op s")
  obtain as1 s2 where 2: "run_all step ops s1 = (as1, s2)" by (cases "run_all step ops s1")
  have as: "as = a # as1" "s' = s2" using Cons.prems(3) 1 2 by simp_all
  obtain m1 where "spec op m a m1" "holds s1 m1" using step_refines Cons.prems(1,2) 1 by fastforce
  then show ?case using Cons.IH [of s1 m1 as1] Cons.prems(2) 2 as by auto
qed simp

end

text \<open>The operations of a database, through its statement cache.\<close>

fun database_step ::
  "('db, 'c) ConnectionEngine \<Rightarrow> 'r Collection \<Rightarrow> 'r RecordOp \<Rightarrow> ('db, 'c) Database \<Rightarrow> 'r RecordAnswer \<times> ('db, 'c) Database" where
  "database_step ce C (InsertOp r) d = apfst Changed (database_insert ce C r d)"
| "database_step ce C (GetOp k) d = apfst Found (database_get ce C (Inr k) d)"
| "database_step ce C (UpdateOp r) d = apfst Changed (database_update ce C r d)"
| "database_step ce C (DeleteOp k) d = apfst Changed (database_delete ce C (Inr k) d)"

definition database_content :: "('db, 'c) Database \<Rightarrow> 'db" where
  "database_content d = cn_db (db_connection d)"

lemma simulated_result:
  "simulates (cn_db \<circ> db_connection) d m m' \<Longrightarrow> m d = (res, d') \<Longrightarrow> m' (database_content d) = (res, database_content d')"
  by (simp add: simulates_def database_content_def)

lemma database_engine:
  assumes "cache_law ce"
  shows "compiles ce (database_content d) (co_insert_sql C) \<Longrightarrow> database_insert ce C r d = (res, d') \<Longrightarrow>
      insert_record (ce_engine ce) C r (database_content d) = (res, database_content d')"
    "compiles ce (database_content d) (co_select_by_key_sql C) \<Longrightarrow> database_get ce C k d = (found, d') \<Longrightarrow>
      get_record (ce_engine ce) C k (database_content d) = (found, database_content d')"
    "compiles ce (database_content d) (co_update_sql C) \<Longrightarrow> database_update ce C r d = (res, d') \<Longrightarrow>
      update_record (ce_engine ce) C r (database_content d) = (res, database_content d')"
    "compiles ce (database_content d) (co_delete_by_key_sql C) \<Longrightarrow> database_delete ce C k d = (res, d') \<Longrightarrow>
      delete_record (ce_engine ce) C k (database_content d) = (res, database_content d')"
  by (erule simulated_result [rotated], simp add: database_records simulates_on_connection cached_records [OF assms]
      database_content_def)+

lemma compiled:
  "statement_law (ce_engine ce) rows T \<Longrightarrow> read_statement T sql = Some st \<Longrightarrow> compiles ce db sql"
  by (simp add: statement_law_def compiles_def)

lemma collection_simulation:
  assumes x: "expand_collection env input = Inr x" and cache: "cache_law ce"
    and law: "statement_law (ce_engine ce) rows (derived_table x)" and look: "lookup_law (ce_engine ce) rows (derived_table x)"
    and C: "C = derived_collection x encoders decoders build"
  shows "forward_simulation (database_step ce C) (map_step (record_key x encoders))
    (\<lambda>d. holds_map x encoders decoders build (rows (database_content d))) (permitted (storable x encoders decoders build))"
proof
  fix d m op a d'
  assume h: "holds_map x encoders decoders build (rows (database_content d)) m"
    and op: "permitted (storable x encoders decoders build) op" and step: "database_step ce C op d = (a, d')"
  have sql: "co_insert_sql C = ex_insert_sql x" "co_select_by_key_sql C = ex_select_by_key_sql x"
    "co_update_sql C = ex_update_sql x" "co_delete_by_key_sql C = ex_delete_by_key_sql x"
    by (simp_all add: C derived_collection_def)
  show "\<exists>m'. map_step (record_key x encoders) op m a m' \<and> holds_map x encoders decoders build (rows (database_content d')) m'"
  proof (cases op)
    case (InsertOp r)
    then obtain res where r: "storable x encoders decoders build r" "database_insert ce C r d = (res, d')" "a = Changed res"
      using op step by (cases "database_insert ce C r d") auto
    have "insert_record (ce_engine ce) C r (database_content d) = (res, database_content d')"
      by (rule database_engine(1) [OF cache _ r(2)]) (simp add: sql compiled [OF law insert_statement(1) [OF x r(1)]])
    then show ?thesis
      using insert_step [OF x law h r(1)] writes_as_executions(1) [OF C r(1), of "ce_engine ce" "database_content d"] InsertOp r(3) by simp
  next
    case (GetOp k)
    then obtain res where k: "exact_key (as_ref k)" "database_get ce C (Inr k) d = (res, d')" "a = Found res"
      using op step by (cases "database_get ce C (Inr k) d") auto
    have "get_record (ce_engine ce) C (Inr k) (database_content d) = (res, database_content d')"
      by (rule database_engine(2) [OF cache _ k(2)]) (simp add: sql compiles_def lookup_statement(1) [OF x k(1) look])
    then show ?thesis using get_step [OF x look h k(1)] GetOp k(3) h unfolding C by (metis (no_types))
  next
    case (UpdateOp r)
    then obtain res where r: "storable x encoders decoders build r" "database_update ce C r d = (res, d')" "a = Changed res"
      using op step by (cases "database_update ce C r d") auto
    obtain as where "read_statement (derived_table x) (ex_update_sql x) = Some (UpdateRows as (length (ex_fields x)))"
      using update_statement [OF x r(1)] by metis
    then have "update_record (ce_engine ce) C r (database_content d) = (res, database_content d')"
      by (intro database_engine(3) [OF cache _ r(2)]) (simp add: sql compiled [OF law])
    then show ?thesis using update_step [OF x law h r(1)] UpdateOp r(3) unfolding C by simp
  next
    case (DeleteOp k)
    then obtain res where k: "exact_key (as_ref k)" "database_delete ce C (Inr k) d = (res, d')" "a = Changed res"
      using op step by (cases "database_delete ce C (Inr k) d") auto
    have "delete_record (ce_engine ce) C (Inr k) (database_content d) = (res, database_content d')"
      by (rule database_engine(4) [OF cache _ k(2)]) (simp add: sql compiled [OF law delete_statement(1) [OF x k(1)]])
    then have "execute_values (ce_engine ce) (ex_delete_by_key_sql x) [k] (database_content d) = (res, database_content d')"
      by (simp add: delete_record_def execute_record_def execute_values_def sql)
    then show ?thesis using delete_step [OF x law h k(1)] DeleteOp k(3) by simp
  qed
qed


section \<open>An executable table\<close>

text \<open>An engine for one table that runs the statements as they read; it refuses an insert of a key that is taken.\<close>

definition table_engine :: "table_shape \<Rightarrow> table_row list Engine" where
  "table_engine T =
     \<lparr>e_batch = (\<lambda>_ d. (Inr (), d)),
      e_parameter_count = (\<lambda>sql _.
        case read_statement T sql of
          Some st \<Rightarrow> Inr (parameters_of st)
        | None \<Rightarrow> (case parse_select_by_key sql of Some (cs, t, k, p) \<Rightarrow> Inr p | None \<Rightarrow> Inl SqlInputError)),
      e_bind = (\<lambda>_ _ _ _. Inr ()),
      e_execute = (\<lambda>sql vs d.
        case read_statement T sql of
          Some st \<Rightarrow>
            (case run_statement T st vs d of
               Some (n, d') \<Rightarrow> (Inr n, d') | None \<Rightarrow> (Inl (SqliteFailure FConstraintViolation 1555), d))
        | None \<Rightarrow> (Inl SqlInputError, d)),
      e_query = (\<lambda>sql vs d.
        case parse_select_by_key sql of
          Some (cs, t, k, p) \<Rightarrow> map (\<lambda>row. Inr (map (\<lambda>c. the (row c)) cs)) (take 1 (filter (row_matches T (supplied vs p)) d))
        | None \<Rightarrow> []),
      e_query_i64 = (\<lambda>_ d. Inr (of_nat (length d))), e_begin = (\<lambda>d. (Inr (), d)), e_commit = (\<lambda>d. (Inr (), d)),
      e_rollback = (\<lambda>d. (Inr (), d)), e_drop_transaction = (\<lambda>d. d), e_transaction_state = (\<lambda>_ _. Inr SqlTxnNone),
      e_busy_timeout = (\<lambda>_ d. (Inr (), d)), e_wal_checkpoint = (\<lambda>_ _ d. ((0, 0, 0), d)), e_wal_autocheckpoint = (\<lambda>_ d. (0, d)),
      e_failure_code = (\<lambda>_. FOther), e_close = (\<lambda>_. Inr ())\<rparr>"

lemma select_exclusive: "parse_select_by_key s = Some u \<Longrightarrow> parse_insert s = None \<and> parse_update s = None \<and> parse_delete s = None"
  by (cases s) (auto simp: parse_select_by_key_def parse_update_def parse_insert_def parse_delete_def split: if_splits)

lemma table_engine_laws: "statement_law (table_engine T) (\<lambda>d. d) T" "lookup_law (table_engine T) (\<lambda>d. d) T"
  using select_exclusive
  by (auto simp: statement_law_def lookup_law_def table_engine_def read_statement_def split: option.splits)

text \<open>The sample structure: a key and an optional text.\<close>

definition note_expansion :: Expansion where
  "note_expansion = projr (expand_collection sample_env sample_input)"

datatype note_field = KeyField i64 | TextField "string option"

definition note_encoders :: "(i64 \<times> string option \<Rightarrow> Value result) list" where
  "note_encoders = [\<lambda>r. signed_to_value (fst r), \<lambda>r. option_to_value string_to_value (snd r)]"

definition note_decoders :: "(ValueRef \<Rightarrow> note_field result) list" where
  "note_decoders = [\<lambda>v. map_ok KeyField (signed_from_value v), \<lambda>v. map_ok TextField (option_from_value string_from_value v)]"

fun note_build :: "note_field list \<Rightarrow> i64 \<times> string option" where
  "note_build [KeyField a, TextField b] = (a, b)"
| "note_build _ = (0, None)"

lemma note_expands: "expand_collection sample_env sample_input = Inr note_expansion" "ex_fields note_expansion = [key_field, text_field]"
  using sample_expands by (auto simp: note_expansion_def)

lemma note_storable: "storable note_expansion note_encoders note_decoders note_build (5, Some ''x'')"
proof -
  have p: "key_position note_expansion = 0"
    by (simp add: key_position_def note_expands(2) position_def key_field_def text_field_def)
  have k: "signed_from_value (as_ref (VInteger 5)) = Inr (5 :: i64)"
    using i64_codec.round_trip [of 5 "VInteger 5"] by (simp add: signed_to_value_def)
  have t: "option_from_value string_from_value (as_ref (VText ''x'')) = Inr (Some ''x'')"
    by (simp add: option_from_value_def string_from_value_def)
  have v: "derived_values note_encoders (5, Some ''x'') = Inr [VInteger 5, VText ''x'']"
    by (simp add: derived_values_def note_encoders_def signed_to_value_def option_to_value_def string_to_value_def)
  have u: "utf8_valid (bytes_of_string ''x'')" by (simp add: bytes_of_string_def)
  show ?thesis
    unfolding storable_def note_expands(2)
    by (rule exI [of _ "[VInteger 5, VText ''x'']"], rule exI [of _ "[KeyField 5, TextField (Some ''x'')]"])
      (use v p k t u in \<open>auto simp: less_Suc_eq note_decoders_def note_encoders_def exact_value_def exact_key_def key_field_def text_field_def
        class_of_column_def\<close>)
qed

interpretation note_table: forward_simulation
  "database_step (uncached (table_engine (derived_table note_expansion)))
     (derived_collection note_expansion note_encoders note_decoders note_build)"
  "map_step (record_key note_expansion note_encoders)"
  "\<lambda>d. holds_map note_expansion note_encoders note_decoders note_build (database_content d)"
  "permitted (storable note_expansion note_encoders note_decoders note_build)"
  by (rule collection_simulation [OF note_expands(1) uncached_law _ _ refl, where rows = "\<lambda>d. d"])
    (simp_all add: uncached_def table_engine_laws)

definition empty_notes :: "(table_row list, unit) Database" where
  "empty_notes = \<lparr>db_connection = \<lparr>cn_db = [], cn_cache = (), cn_security = Plaintext\<rparr>\<rparr>"

lemma first_insert:
  fixes T :: table_shape
  assumes "read_statement T sql = Some (InsertRow cs ps)" "length vs = fold max ps 0"
  shows "execute_values (table_engine T) sql vs [] = (Inr 1, [new_values (InsertRow cs ps) (map as_ref vs)])"
proof -
  have "first_bind_error (table_engine T) db sql i us = None" for db i us
    by (induction us arbitrary: i) (simp_all add: table_engine_def)
  moreover have "e_parameter_count (table_engine T) sql [] = Inr (length vs)"
    "e_execute (table_engine T) sql (map as_ref vs) [] = (Inr 1, [new_values (InsertRow cs ps) (map as_ref vs)])"
    using assms by (simp_all add: table_engine_def Let_def)
  ultimately show ?thesis by (simp add: execute_values_eq map_err_st_def)
qed


end
