(* ===== verification/Storage_Open.thy ===== *)
theory Storage_Open
  imports Storage
begin

text \<open>
  Opening a connection, from \<^verbatim>\<open>csgdb-storage/src/lib.rs\<close>: the flags handed to the engine, key
  setup under the three cipher profiles, verification, and connection configuration. The engine
  calls are the record \<open>OpenEngine\<close> over a world \<open>'w\<close> and connection handles \<open>'c\<close>; a connection that goes
  out of scope is dropped explicitly, also on the error paths.
\<close>

section \<open>Engine flags\<close>

datatype SqlOpenFlag =
    SQLITE_OPEN_READ_ONLY | SQLITE_OPEN_READ_WRITE | SQLITE_OPEN_CREATE | SQLITE_OPEN_URI
  | SQLITE_OPEN_MEMORY | SQLITE_OPEN_FULL_MUTEX | SQLITE_OPEN_NO_MUTEX | SQLITE_OPEN_NOFOLLOW

definition sqlite_open_flags :: "OpenFlags \<Rightarrow> SqlOpenFlag set" where
  "sqlite_open_flags flags =
     (let mapped = (if contains flags READONLY then {SQLITE_OPEN_READ_ONLY} else {SQLITE_OPEN_READ_WRITE});
          mapped = (if contains flags CREATE then insert SQLITE_OPEN_CREATE mapped else mapped);
          mapped = (if contains flags URI then insert SQLITE_OPEN_URI mapped else mapped);
          mapped = (if contains flags MEMORY then insert SQLITE_OPEN_MEMORY mapped else mapped);
          mapped = (if contains flags FULLMUTEX then insert SQLITE_OPEN_FULL_MUTEX mapped else mapped);
          mapped = (if contains flags NOMUTEX then insert SQLITE_OPEN_NO_MUTEX mapped else mapped)
      in if contains flags NOFOLLOW then insert SQLITE_OPEN_NOFOLLOW mapped else mapped)"

fun retain_flags :: "OpenFlags \<Rightarrow> OpenFlags list \<Rightarrow> OpenFlags \<Rightarrow> OpenFlags" where
  "retain_flags flags [] readonly = readonly"
| "retain_flags flags (retained # rest) readonly =
     retain_flags flags rest (if contains flags retained then sup readonly retained else readonly)"

definition readonly_open_flags :: "OpenFlags \<Rightarrow> OpenFlags" where
  "readonly_open_flags flags = retain_flags flags [URI, MEMORY, FULLMUTEX, NOMUTEX, NOFOLLOW] READONLY"

text \<open>\<^const>\<open>None\<close> is the panic of \<^verbatim>\<open>expect\<close>.\<close>

definition single_owner_open_flags :: "OpenFlags \<Rightarrow> OpenFlags option" where
  "single_owner_open_flags flags =
     from_bits ((bits flags AND NOT (bits FULLMUTEX)) OR bits NOMUTEX)"

section \<open>Opening\<close>

datatype PragmaValue = PText string | PInt int | PBool bool

record ('w, 'c) OpenEngine =
  o_file_len :: "string \<Rightarrow> 'w \<Rightarrow> nat option"
  o_open :: "string \<Rightarrow> SqlOpenFlag set \<Rightarrow> string option \<Rightarrow> ('w, SqlError, 'c) effect"
  o_pragma_update :: "'c \<Rightarrow> string \<Rightarrow> PragmaValue \<Rightarrow> ('w, SqlError, unit) effect"
  o_key :: "'c \<Rightarrow> u8 list \<Rightarrow> 'w \<Rightarrow> int \<times> 'w"
  o_query_row :: "'c \<Rightarrow> string \<Rightarrow> ('w, SqlError, unit) effect"
  o_busy_timeout :: "'c \<Rightarrow> duration \<Rightarrow> ('w, SqlError, unit) effect"
  o_cache_capacity :: "'c \<Rightarrow> nat \<Rightarrow> 'w \<Rightarrow> 'w"
  o_wal_autocheckpoint :: "'c \<Rightarrow> int \<Rightarrow> 'w \<Rightarrow> int \<times> 'w"
  o_failure_code :: "int \<Rightarrow> FailureCode"
  o_drop :: "'c \<Rightarrow> 'w \<Rightarrow> 'w"

datatype ConnectionAccess = ReadOnlyAccess | ReadWriteAccess
datatype ConnectionOwner = SharedOwner | SingleOwner
datatype CipherProfile = CurrentProfile | PreviousProfile | LegacyProfile

definition DEFAULT_PREPARED_STATEMENT_CACHE_CAPACITY :: nat where
  "DEFAULT_PREPARED_STATEMENT_CACHE_CAPACITY = 16"

text \<open>A scope that owns the connection: leaving it by an error drops the connection.\<close>

definition owning :: "('w, 'c) OpenEngine \<Rightarrow> 'c \<Rightarrow> ('w, Error, 'a) effect \<Rightarrow> ('w, Error, 'a) effect" where
  "owning eng c m w = (case m w of (Inl e, w') \<Rightarrow> (Inl e, o_drop eng c w') | (Inr x, w') \<Rightarrow> (Inr x, w'))"

definition open_engine_connection ::
  "('w, 'c) OpenEngine \<Rightarrow> ResolvedOpenPlan \<Rightarrow> SqlOpenFlag set \<Rightarrow> ('w, Error, 'c) effect" where
  "open_engine_connection eng plan flags =
     map_err_st map_open_error (o_open eng (rp_path plan) flags (rp_vfs plan))"

definition apply_key_bytes :: "('w, 'c) OpenEngine \<Rightarrow> 'c \<Rightarrow> u8 list \<Rightarrow> ('w, Error, unit) effect" where
  "apply_key_bytes eng c bytes w =
     (if length bytes > 2147483647
      then (Inl (Error InvalidKeyLength ''database key material is too large''), w)
      else (case o_key eng c bytes w of
              (rc, w') \<Rightarrow>
                if rc = SQLITE_OK then (Inr (), w')
                else (Inl (Error EncryptionBackendUnavailable ''database encryption key setup failed''), w')))"

definition HEX :: "nat \<Rightarrow> u8" where
  "HEX d = word_of_nat (of_char (''0123456789abcdef'' ! d))"

fun raw_key_digits :: "nat \<Rightarrow> u8 list \<Rightarrow> u8 list \<Rightarrow> u8 list" where
  "raw_key_digits index [] literal = literal"
| "raw_key_digits index (byte # rest) literal =
     raw_key_digits (index + 1) rest
       (literal[2 + index * 2 := HEX (unat (drop_bit 4 byte)),
                3 + index * 2 := HEX (unat (byte AND 0x0f))])"

definition raw_key_literal :: "u8 list \<Rightarrow> u8 list" where
  "raw_key_literal raw =
     (raw_key_digits 0 raw ((replicate 67 0)[0 := 0x78, 1 := 0x27]))[66 := 0x27]"

definition apply_raw_key :: "('w, 'c) OpenEngine \<Rightarrow> 'c \<Rightarrow> u8 list \<Rightarrow> ('w, Error, unit) effect" where
  "apply_raw_key eng c raw = apply_key_bytes eng c (raw_key_literal raw)"

definition apply_key :: "('w, 'c) OpenEngine \<Rightarrow> 'c \<Rightarrow> ResolvedKeyRef option \<Rightarrow> ('w, Error, unit) effect" where
  "apply_key eng c key =
     bind_st (lift_st (ok_or (Error KeyRequired ''encrypted database open requires key material'') key))
       (\<lambda>k. case k of RawRef bytes \<Rightarrow> apply_raw_key eng c bytes
                    | PassphraseRef bytes \<Rightarrow> apply_key_bytes eng c bytes)"

definition profile_parameters :: "CipherProfile \<Rightarrow> string \<times> int" where
  "profile_parameters profile =
     (case profile of
        CurrentProfile \<Rightarrow> (''HMAC_SHA256'', 1024)
      | PreviousProfile \<Rightarrow> (''HMAC_SHA256'', 4096)
      | LegacyProfile \<Rightarrow> (''HMAC_SHA512'', 4096))"

definition apply_key_with_profile ::
  "('w, 'c) OpenEngine \<Rightarrow> 'c \<Rightarrow> ResolvedOpenPlan \<Rightarrow> CipherProfile \<Rightarrow> ('w, Error, unit) effect" where
  "apply_key_with_profile eng c plan profile =
     (case profile_parameters profile of
        (hmac, page_size) \<Rightarrow>
          bind_st (map_err_st map_storage_error
            (o_pragma_update eng c ''cipher_default_hmac_algorithm'' (PText hmac))) (\<lambda>_.
          bind_st (map_err_st map_storage_error
            (o_pragma_update eng c ''cipher_default_page_size'' (PInt page_size))) (\<lambda>_.
          with_key plan (apply_key eng c))))"

definition verify_database :: "('w, 'c) OpenEngine \<Rightarrow> 'c \<Rightarrow> ('w, Error, unit) effect" where
  "verify_database eng c =
     map_err_st map_open_error (o_query_row eng c ''SELECT count(*) FROM sqlite_schema'')"

definition cache_size_pragma :: "u64 \<Rightarrow> int" where
  "cache_size_pragma cache_size_bytes =
     (let cache_kib = uint (div_ceil cache_size_bytes 1024) in
      - (if cache_kib < 2 ^ 63 then cache_kib else 2 ^ 63 - 1))"

definition configure_connection ::
  "('w, 'c) OpenEngine \<Rightarrow> 'c \<Rightarrow> ResolvedOpenPlan \<Rightarrow> ConnectionAccess \<Rightarrow> u64 \<Rightarrow> ('w, Error, unit) effect" where
  "configure_connection eng c plan access cache_size_bytes =
     (let pragma = (\<lambda>name value. map_err_st map_storage_error (o_pragma_update eng c name value)) in
      bind_st (pragma ''foreign_keys'' (PBool True)) (\<lambda>_.
      bind_st (pragma ''cache_size'' (PInt (cache_size_pragma cache_size_bytes))) (\<lambda>_.
      if access = ReadWriteAccess \<and> \<not> contains (rp_flags plan) READONLY \<and> \<not> contains (rp_flags plan) MEMORY
      then bind_st (pragma ''journal_mode'' (PText ''WAL'')) (\<lambda>_. pragma ''synchronous'' (PText ''NORMAL''))
      else ret_st ())))"

text \<open>One attempt under a profile on a fresh connection: open, key, verify.\<close>

definition attempt_profile ::
  "('w, 'c) OpenEngine \<Rightarrow> ResolvedOpenPlan \<Rightarrow> SqlOpenFlag set \<Rightarrow> CipherProfile
     \<Rightarrow> ('w, Error, 'c \<times> unit result) effect" where
  "attempt_profile eng plan flags profile =
     bind_st (open_engine_connection eng plan flags) (\<lambda>c.
     bind_st (owning eng c (apply_key_with_profile eng c plan profile)) (\<lambda>_ w.
     case verify_database eng c w of (r, w') \<Rightarrow> (Inr (c, r), w')))"

definition open_encrypted ::
  "('w, 'c) OpenEngine \<Rightarrow> ResolvedOpenPlan \<Rightarrow> SqlOpenFlag set \<Rightarrow> bool \<Rightarrow> ('w, Error, 'c) effect" where
  "open_encrypted eng plan flags legacy_candidate =
     bind_st (attempt_profile eng plan flags CurrentProfile) (\<lambda>(inner, verified).
     case verified of
       Inr _ \<Rightarrow> ret_st inner
     | Inl primary_error \<Rightarrow>
         if \<not> legacy_candidate then (\<lambda>w. (Inl primary_error, o_drop eng inner w))
         else (\<lambda>w. bind_st (attempt_profile eng plan flags PreviousProfile) (\<lambda>(previous, verified).
           case verified of
             Inr _ \<Rightarrow> ret_st previous
           | Inl _ \<Rightarrow> (\<lambda>w. bind_st (attempt_profile eng plan flags LegacyProfile) (\<lambda>(legacy, verified).
               case verified of
                 Inr _ \<Rightarrow> ret_st legacy
               | Inl _ \<Rightarrow> (\<lambda>w. (Inl primary_error, o_drop eng legacy w))) (o_drop eng previous w)))
           (o_drop eng inner w)))"

definition open_plaintext_connection ::
  "('w, 'c) OpenEngine \<Rightarrow> ResolvedOpenPlan \<Rightarrow> SqlOpenFlag set \<Rightarrow> ('w, Error, 'c) effect" where
  "open_plaintext_connection eng plan flags =
     bind_st (open_engine_connection eng plan flags) (\<lambda>inner.
     bind_st (owning eng inner (verify_database eng inner)) (\<lambda>_. ret_st inner))"

definition connection_flags ::
  "ResolvedOpenPlan \<Rightarrow> ConnectionAccess \<Rightarrow> ConnectionOwner \<Rightarrow> OpenFlags option" where
  "connection_flags plan access owner =
     (let flags = (case access of ReadWriteAccess \<Rightarrow> rp_flags plan
                                | ReadOnlyAccess \<Rightarrow> readonly_open_flags (rp_flags plan))
      in if owner = SingleOwner then single_owner_open_flags flags else Some flags)"

text \<open>The outer \<^const>\<open>None\<close> is a panic; the theorems show that no validated plan reaches it.\<close>

definition open_with_access ::
  "('w, 'c) OpenEngine \<Rightarrow> ResolvedOpenPlan \<Rightarrow> ConnectionAccess \<Rightarrow> ConnectionOwner \<Rightarrow> u64
     \<Rightarrow> 'w \<Rightarrow> (('c \<times> SecurityMode) result \<times> 'w) option" where
  "open_with_access eng plan access owner cache_size_bytes w =
     (case connection_flags plan access owner of
        None \<Rightarrow> None
      | Some flags \<Rightarrow>
          let flags = sqlite_open_flags flags;
              legacy_candidate = (case o_file_len eng (rp_path plan) w of Some n \<Rightarrow> n > 0 | None \<Rightarrow> False)
          in Some (bind_st
               (if rp_security plan = Encrypted then open_encrypted eng plan flags legacy_candidate
                else open_plaintext_connection eng plan flags)
               (\<lambda>inner. bind_st (owning eng inner
                  (bind_st (map_err_st map_storage_error (o_busy_timeout eng inner (rp_busy_timeout plan))) (\<lambda>_.
                   configure_connection eng inner plan access cache_size_bytes)))
                  (\<lambda>_ w. (Inr (inner, rp_security plan),
                     o_cache_capacity eng inner DEFAULT_PREPARED_STATEMENT_CACHE_CAPACITY w))) w))"

section \<open>Histories of engine calls\<close>

text \<open>
  The engine as the code sees it: every call is recorded with its outcome, and the outcomes are
  arbitrary functions of the history so far. A statement about all outcome functions is therefore
  a statement about the calls the code makes against any engine.
\<close>

datatype engine_event =
    EvOpen nat string "SqlOpenFlag set" "string option"
  | EvPragma nat string PragmaValue "SqlError option"
  | EvKey nat "u8 list" int
  | EvQuery nat string "SqlError option"
  | EvTimeout nat duration
  | EvCache nat nat
  | EvAutocheckpoint nat int int
  | EvDrop nat

record outcomes =
  oc_open :: "engine_event list \<Rightarrow> SqlError option"
  oc_call :: "engine_event list \<Rightarrow> nat \<Rightarrow> string \<Rightarrow> SqlError option"
  oc_key :: "engine_event list \<Rightarrow> int"
  oc_autocheckpoint :: "engine_event list \<Rightarrow> int"
  oc_failure :: "int \<Rightarrow> FailureCode"
  oc_len :: "string \<Rightarrow> nat option"

definition opened :: "engine_event list \<Rightarrow> nat" where
  "opened h = length (filter (\<lambda>e. case e of EvOpen _ _ _ _ \<Rightarrow> True | _ \<Rightarrow> False) h)"

definition call_outcome :: "SqlError option \<Rightarrow> engine_event \<Rightarrow> (engine_event list, SqlError, unit) effect" where
  "call_outcome r e h = ((case r of Some x \<Rightarrow> Inl x | None \<Rightarrow> Inr ()), h @ [e])"

definition recorder :: "outcomes \<Rightarrow> (engine_event list, nat) OpenEngine" where
  "recorder oc = \<lparr>
     o_file_len = (\<lambda>p _. oc_len oc p),
     o_open = (\<lambda>p f v h. case oc_open oc h of
        Some x \<Rightarrow> (Inl x, h) | None \<Rightarrow> (Inr (opened h), h @ [EvOpen (opened h) p f v])),
     o_pragma_update = (\<lambda>c n v h. let r = oc_call oc h c n in call_outcome r (EvPragma c n v r) h),
     o_key = (\<lambda>c b h. let r = oc_key oc h in (r, h @ [EvKey c b r])),
     o_query_row = (\<lambda>c q h. let r = oc_call oc h c q in call_outcome r (EvQuery c q r) h),
     o_busy_timeout = (\<lambda>c d h. call_outcome (oc_call oc h c ''busy_timeout'') (EvTimeout c d) h),
     o_cache_capacity = (\<lambda>c n h. h @ [EvCache c n]),
     o_wal_autocheckpoint = (\<lambda>c n h. let r = oc_autocheckpoint oc h in (r, h @ [EvAutocheckpoint c n r])),
     o_failure_code = oc_failure oc,
     o_drop = (\<lambda>c h. h @ [EvDrop c])\<rparr>"

text \<open>Connections opened and not dropped, and connections keyed, in a history.\<close>

fun live_step :: "engine_event \<Rightarrow> nat set \<Rightarrow> nat set" where
  "live_step (EvOpen c _ _ _) L = insert c L"
| "live_step (EvDrop c) L = L - {c}"
| "live_step _ L = L"

definition live :: "engine_event list \<Rightarrow> nat set" where
  "live h = fold live_step h {}"

definition keyed :: "engine_event list \<Rightarrow> nat set" where
  "keyed h = {c. \<exists>b. EvKey c b SQLITE_OK \<in> set h}"

text \<open>
  The key an encrypted plan must use: the hexadecimal literal of a raw key, or the passphrase bytes.
  A call is allowed when it sets up a cipher default, when it keys with exactly those bytes, or when the
  plan is plaintext or the connection has been keyed before.
\<close>

definition expected_key :: "ResolvedOpenPlan \<Rightarrow> u8 list option" where
  "expected_key plan = with_key plan (map_option (\<lambda>k. case k of RawRef b \<Rightarrow> raw_key_literal b | PassphraseRef b \<Rightarrow> b))"

fun allowed :: "ResolvedOpenPlan \<Rightarrow> nat set \<Rightarrow> engine_event \<Rightarrow> bool" where
  "allowed plan K (EvKey c b _) = (rp_security plan = Encrypted \<and> expected_key plan = Some b)"
| "allowed plan K (EvQuery c _ _) = (rp_security plan = Plaintext \<or> c \<in> K)"
| "allowed plan K (EvTimeout c _) = (rp_security plan = Plaintext \<or> c \<in> K)"
| "allowed plan K (EvCache c _) = (rp_security plan = Plaintext \<or> c \<in> K)"
| "allowed plan K (EvAutocheckpoint c _ _) = (rp_security plan = Plaintext \<or> c \<in> K)"
| "allowed plan K (EvPragma c n _ _) =
     (rp_security plan = Plaintext \<or> c \<in> K \<or> n \<in> {''cipher_default_hmac_algorithm'', ''cipher_default_page_size''})"
| "allowed plan K _ = True"

definition disciplined :: "ResolvedOpenPlan \<Rightarrow> engine_event list \<Rightarrow> bool" where
  "disciplined plan h \<longleftrightarrow> (\<forall>i < length h. allowed plan (keyed (take i h)) (h ! i))"

lemma live_snoc [simp]: "live (h @ [e]) = live_step e (live h)"
  by (simp add: live_def)

lemma live_Nil [simp]: "live [] = {}"
  by (simp add: live_def)

lemma keyed_snoc:
  "keyed (h @ [e]) = keyed h \<union> (case e of EvKey c b r \<Rightarrow> if r = SQLITE_OK then {c} else {} | _ \<Rightarrow> {})"
  by (auto simp: keyed_def split: engine_event.splits)

lemma disciplined_Nil [simp]: "disciplined plan []"
  by (simp add: disciplined_def)

lemma disciplined_snoc [simp]:
  "disciplined plan (h @ [e]) \<longleftrightarrow> disciplined plan h \<and> allowed plan (keyed h) e"
  by (auto simp: disciplined_def nth_append less_Suc_eq)

lemmas recorder_simps = recorder_def call_outcome_def Let_def

section \<open>Discipline of the opening sequence\<close>

text \<open>
  \<open>good plan L h\<close>: so far disciplined, with exactly the connections \<open>L\<close> open. \<open>holds\<close>: besides \<open>L\<close>, one more
  connection is open, opened with the given flags. \<open>ready\<close>: it may be used.
\<close>

definition good :: "ResolvedOpenPlan \<Rightarrow> nat set \<Rightarrow> engine_event list \<Rightarrow> bool" where
  "good plan L h \<longleftrightarrow> disciplined plan h \<and> live h = L \<and> (\<forall>c \<in> L. c < opened h)"

definition opened_as :: "ResolvedOpenPlan \<Rightarrow> SqlOpenFlag set \<Rightarrow> nat \<Rightarrow> engine_event list \<Rightarrow> bool" where
  "opened_as plan F c h \<longleftrightarrow> EvOpen c (rp_path plan) F (rp_vfs plan) \<in> set h"

definition holds :: "ResolvedOpenPlan \<Rightarrow> nat set \<Rightarrow> SqlOpenFlag set \<Rightarrow> nat \<Rightarrow> engine_event list \<Rightarrow> bool" where
  "holds plan L F c h \<longleftrightarrow> c \<notin> L \<and> good plan (insert c L) h \<and> opened_as plan F c h"

definition ready :: "ResolvedOpenPlan \<Rightarrow> nat set \<Rightarrow> SqlOpenFlag set \<Rightarrow> nat \<Rightarrow> engine_event list \<Rightarrow> bool" where
  "ready plan L F c h \<longleftrightarrow> holds plan L F c h \<and> (rp_security plan = Plaintext \<or> c \<in> keyed h)"

definition verified :: "nat \<Rightarrow> engine_event list \<Rightarrow> bool" where
  "verified c h \<longleftrightarrow> EvQuery c ''SELECT count(*) FROM sqlite_schema'' None \<in> set h"

lemma opened_snoc [simp]: "opened (h @ [e]) = opened h + (case e of EvOpen _ _ _ _ \<Rightarrow> 1 | _ \<Rightarrow> 0)"
  by (cases e) (simp_all add: opened_def)

lemmas good_defs = good_def opened_as_def holds_def ready_def

lemma verified_snoc: "verified c h \<Longrightarrow> verified c (h @ [e])"
  by (simp add: verified_def)

lemma open_triple:
  "triple (good plan L) (open_engine_connection (recorder oc) plan F)
     (\<lambda>c. holds plan L F c) (\<lambda>_. good plan L)"
  unfolding open_engine_connection_def
  by (rule triple_map_err)
    (auto simp: triple_def recorder_simps good_defs split: option.splits)

lemma cipher_pragma_triple:
  assumes "n \<in> {''cipher_default_hmac_algorithm'', ''cipher_default_page_size''}"
  shows "triple (holds plan L F c) (map_err_st f (o_pragma_update (recorder oc) c n v))
     (\<lambda>_. holds plan L F c) (\<lambda>_. holds plan L F c)"
  by (rule triple_map_err) (use assms in \<open>auto simp: triple_def recorder_simps good_defs split: option.splits\<close>)

lemma key_triple:
  assumes "rp_security plan = Encrypted" "expected_key plan = Some b"
  shows "triple (holds plan L F c) (apply_key_bytes (recorder oc) c b) (\<lambda>_. ready plan L F c) (\<lambda>_. holds plan L F c)"
  using assms
  by (auto simp: triple_def apply_key_bytes_def recorder_simps good_defs keyed_snoc)

lemma with_key_triple:
  assumes "rp_security plan = Encrypted"
  shows "triple (holds plan L F c) (with_key plan (apply_key (recorder oc) c)) (\<lambda>_. ready plan L F c) (\<lambda>_. holds plan L F c)"
proof (cases "rp_key plan")
  case None
  then show ?thesis by (simp add: with_key_def apply_key_def triple_def)
next
  case (Some k)
  then show ?thesis
    using key_triple [OF assms, where c = c and oc = oc]
    by (cases k) (simp_all add: with_key_def apply_key_def expected_key_def apply_raw_key_def)
qed

lemma profile_triple:
  assumes "rp_security plan = Encrypted"
  shows "triple (holds plan L F c) (apply_key_with_profile (recorder oc) c plan p) (\<lambda>_. ready plan L F c) (\<lambda>_. holds plan L F c)"
  unfolding apply_key_with_profile_def
  by (cases "profile_parameters p")
    (auto intro!: triple_bind [OF cipher_pragma_triple] with_key_triple [OF assms])

lemma owning_triple:
  assumes "triple P m Q (\<lambda>_. holds plan L F c)"
  shows "triple P (owning (recorder oc) c m) Q (\<lambda>_. good plan L)"
proof (rule tripleI)
  fix s x t
  assume "P s" "owning (recorder oc) c m s = (Inr x, t)"
  then show "Q x t"
    by (auto simp: owning_def split: prod.splits sum.splits intro: triple_InrD [OF assms])
next
  fix s e t
  assume p: "P s" "owning (recorder oc) c m s = (Inl e, t)"
  then obtain t' where "m s = (Inl e, t')" "t = t' @ [EvDrop c]"
    by (auto simp: owning_def recorder_def split: prod.splits sum.splits)
  then show "good plan L t" using triple_InlD [OF assms p(1)] by (auto simp: good_defs)
qed

lemma verify_triple:
  "triple (ready plan L F c) (verify_database (recorder oc) c) (\<lambda>_ h. ready plan L F c h \<and> verified c h) (\<lambda>_. ready plan L F c)"
  unfolding verify_database_def
  by (rule triple_map_err)
    (auto simp: triple_def recorder_simps verified_def good_defs keyed_snoc split: option.splits)

lemma attempt_triple:
  assumes "rp_security plan = Encrypted"
  shows "triple (good plan L) (attempt_profile (recorder oc) plan F p)
    (\<lambda>(c, r) h. ready plan L F c h \<and> (is_ok r \<longrightarrow> verified c h)) (\<lambda>_. good plan L)"
  unfolding attempt_profile_def
proof (rule triple_bind [OF open_triple], rule triple_bind [OF owning_triple [OF profile_triple [OF assms]]])
  fix c x
  show "triple (ready plan L F c) (\<lambda>w. case verify_database (recorder oc) c w of (r, w') \<Rightarrow> (Inr (c, r), w'))
    (\<lambda>(c, r) h. ready plan L F c h \<and> (is_ok r \<longrightarrow> verified c h)) (\<lambda>_. good plan L)"
  proof (rule tripleI)
    fix s y t
    assume p: "ready plan L F c s"
      "(case verify_database (recorder oc) c s of (r, w') \<Rightarrow> (Inr (c, r), w')) = (Inr y, t)"
    then obtain r where "verify_database (recorder oc) c s = (r, t)" "y = (c, r)"
      by (auto split: prod.splits)
    then show "(case y of (c, r) \<Rightarrow> \<lambda>h. ready plan L F c h \<and> (is_ok r \<longrightarrow> verified c h)) t"
      using triple_InrD [OF verify_triple p(1)] triple_InlD [OF verify_triple p(1)] by (cases r) auto
  qed (auto split: prod.splits)
qed

lemma drop_good: "ready plan L F c h \<Longrightarrow> good plan L (o_drop (recorder oc) c h)"
  by (simp add: good_defs recorder_def)

text \<open>A failed attempt drops its connection and goes on with the next step.\<close>

lemma retry_triple:
  assumes "rp_security plan = Encrypted" "\<And>e. triple (good plan L) (retry e) Q (\<lambda>_. good plan L)"
    and "\<And>c h. ready plan L F c h \<Longrightarrow> verified c h \<Longrightarrow> Q c h"
  shows "triple (good plan L)
    (bind_st (attempt_profile (recorder oc) plan F p) (\<lambda>(c, v).
       case v of Inr _ \<Rightarrow> ret_st c | Inl e \<Rightarrow> (\<lambda>w. retry e (o_drop (recorder oc) c w)))) Q (\<lambda>_. good plan L)"
proof (rule triple_bind [OF attempt_triple [OF assms(1)]])
  fix x :: "nat \<times> unit result"
  obtain c v where x: "x = (c, v)" by (cases x)
  show "triple (case x of (c, r) \<Rightarrow> \<lambda>h. ready plan L F c h \<and> (is_ok r \<longrightarrow> verified c h))
    (case x of (c, v) \<Rightarrow> case v of Inr _ \<Rightarrow> ret_st c | Inl e \<Rightarrow> (\<lambda>w. retry e (o_drop (recorder oc) c w)))
    Q (\<lambda>_. good plan L)"
  proof (cases v)
    case (Inl e)
    show ?thesis
      unfolding x Inl prod.case sum.case
      by (rule tripleI)
        (auto intro: triple_InrD [OF assms(2) drop_good] triple_InlD [OF assms(2) drop_good])
  next
    case (Inr u)
    then show ?thesis by (auto simp: x intro!: triple_ret assms(3))
  qed
qed

lemma fail_triple: "triple (good plan L) (fail_st e) Q (\<lambda>_. good plan L)"
  by (simp add: triple_def)

lemma open_encrypted_alt:
  "open_encrypted eng plan F legacy =
     bind_st (attempt_profile eng plan F CurrentProfile) (\<lambda>(c, v).
       case v of Inr _ \<Rightarrow> ret_st c | Inl e0 \<Rightarrow> (\<lambda>w. (if \<not> legacy then fail_st e0 else
     bind_st (attempt_profile eng plan F PreviousProfile) (\<lambda>(c, v).
       case v of Inr _ \<Rightarrow> ret_st c | Inl e \<Rightarrow> (\<lambda>w.
     bind_st (attempt_profile eng plan F LegacyProfile) (\<lambda>(c, v).
       case v of Inr _ \<Rightarrow> ret_st c | Inl e \<Rightarrow> (\<lambda>w. fail_st e0 (o_drop eng c w))) (o_drop eng c w))))
     (o_drop eng c w)))"
  unfolding open_encrypted_def
  by (rule arg_cong [where f = "bind_st _"], rule ext) (auto split: sum.splits prod.splits)

lemma open_encrypted_triple:
  assumes "rp_security plan = Encrypted"
  shows "triple (good plan L) (open_encrypted (recorder oc) plan F legacy)
    (\<lambda>c h. ready plan L F c h \<and> verified c h) (\<lambda>_. good plan L)"
  unfolding open_encrypted_alt
  by (intro retry_triple [OF assms] conjI)
    (cases legacy; auto simp del: effect_simps intro!: fail_triple retry_triple [OF assms])+

lemma open_plaintext_triple:
  assumes "rp_security plan = Plaintext"
  shows "triple (good plan L) (open_plaintext_connection (recorder oc) plan F)
    (\<lambda>c h. ready plan L F c h \<and> verified c h) (\<lambda>_. good plan L)"
proof -
  have "triple (holds plan L F c) (verify_database (recorder oc) c) (\<lambda>_ h. ready plan L F c h \<and> verified c h)
      (\<lambda>_. holds plan L F c)" for c
    by (rule triple_weaken [OF verify_triple]) (use assms in \<open>auto simp: good_defs\<close>)
  then show ?thesis
    unfolding open_plaintext_connection_def
    by (intro triple_bind [OF open_triple] triple_bind [OF owning_triple]) (auto intro: triple_ret)
qed

lemma pragma_triple:
  "triple (\<lambda>h. ready plan L F c h \<and> verified c h) (map_err_st f (o_pragma_update (recorder oc) c n v))
     (\<lambda>_ h. ready plan L F c h \<and> verified c h) (\<lambda>_. holds plan L F c)"
  by (rule triple_map_err)
    (auto simp: triple_def recorder_simps good_defs verified_def keyed_snoc split: option.splits)

lemma timeout_triple:
  "triple (\<lambda>h. ready plan L F c h \<and> verified c h) (map_err_st f (o_busy_timeout (recorder oc) c d))
     (\<lambda>_ h. ready plan L F c h \<and> verified c h) (\<lambda>_. holds plan L F c)"
  by (rule triple_map_err)
    (auto simp: triple_def recorder_simps good_defs verified_def keyed_snoc split: option.splits)

lemma configure_triple:
  "triple (\<lambda>h. ready plan L F c h \<and> verified c h) (configure_connection (recorder oc) c plan access n)
     (\<lambda>_ h. ready plan L F c h \<and> verified c h) (\<lambda>_. holds plan L F c)"
  unfolding configure_connection_def Let_def
  by (auto intro!: triple_bind [OF pragma_triple] pragma_triple triple_ret simp del: effect_simps)

definition settled :: "ResolvedOpenPlan \<Rightarrow> nat set \<Rightarrow> SqlOpenFlag set \<Rightarrow> nat \<times> SecurityMode \<Rightarrow> engine_event list \<Rightarrow> bool" where
  "settled plan L F r h \<longleftrightarrow> ready plan L F (fst r) h \<and> verified (fst r) h \<and> snd r = rp_security plan"

lemma open_with_access_triple:
  assumes "connection_flags plan access owner = Some f"
    "open_with_access (recorder oc) plan access owner n h = Some (r, t)" "good plan L h"
  shows "case r of Inr x \<Rightarrow> settled plan L (sqlite_open_flags f) x t | Inl e \<Rightarrow> good plan L t"
proof -
  let ?flags = "sqlite_open_flags f"
  define start_conn where "start_conn legacy = (if rp_security plan = Encrypted
    then open_encrypted (recorder oc) plan ?flags legacy else open_plaintext_connection (recorder oc) plan ?flags)" for legacy
  define finish where "finish inner = bind_st (owning (recorder oc) inner
      (bind_st (map_err_st map_storage_error (o_busy_timeout (recorder oc) inner (rp_busy_timeout plan))) (\<lambda>_.
       configure_connection (recorder oc) inner plan access n)))
      (\<lambda>_ w. (Inr (inner, rp_security plan), o_cache_capacity (recorder oc) inner DEFAULT_PREPARED_STATEMENT_CACHE_CAPACITY w))"
    for inner :: nat
  have 1: "triple (good plan L) (start_conn l) (\<lambda>c h. ready plan L ?flags c h \<and> verified c h) (\<lambda>_. good plan L)" for l
    unfolding start_conn_def
    by (cases "rp_security plan") (simp_all add: open_encrypted_triple open_plaintext_triple)
  have 2: "triple (\<lambda>h. ready plan L ?flags c h \<and> verified c h) (finish c) (settled plan L ?flags) (\<lambda>_. good plan L)" for c
    unfolding finish_def
    by (rule triple_bind [OF owning_triple [OF triple_bind [OF timeout_triple configure_triple]]])
      (auto simp: triple_def settled_def recorder_def verified_snoc good_defs keyed_snoc)
  obtain legacy where "bind_st (start_conn legacy) finish h = (r, t)"
    using assms(1,2) by (auto simp: open_with_access_def start_conn_def finish_def [abs_def] Let_def)
  then show ?thesis
    using triple_InrD [OF triple_bind [OF 1 2] assms(3)] triple_InlD [OF triple_bind [OF 1 2] assms(3)]
    by (cases r) auto
qed

lemma ready_key:
  assumes "ready plan L F c h" "rp_security plan = Encrypted"
  shows "\<exists>b. expected_key plan = Some b \<and> EvKey c b SQLITE_OK \<in> set h"
proof -
  obtain b where b: "EvKey c b SQLITE_OK \<in> set h" using assms by (auto simp: good_defs keyed_def)
  then obtain i where "i < length h" "h ! i = EvKey c b SQLITE_OK" by (auto simp: in_set_conv_nth)
  then have "expected_key plan = Some b"
    using assms(1) by (fastforce simp: good_defs disciplined_def)
  with b show ?thesis by blast
qed

text \<open>What a settled connection has behind it.\<close>

definition trusted :: "ResolvedOpenPlan \<Rightarrow> nat \<Rightarrow> engine_event list \<Rightarrow> bool" where
  "trusted plan c h \<longleftrightarrow> verified c h \<and>
     (rp_security plan = Encrypted \<longrightarrow> (\<exists>b. expected_key plan = Some b \<and> EvKey c b SQLITE_OK \<in> set h))"

lemma settledD:
  assumes "settled plan L F (c, security) h"
  shows "c \<notin> L" "good plan (insert c L) h" "opened_as plan F c h" "trusted plan c h" "security = rp_security plan"
  using assms ready_key by (auto simp: settled_def trusted_def ready_def holds_def)

text \<open>
  Claim C9. Opening is keyed first and leaks nothing. Whatever the engine answers, the calls made by
  \<^const>\<open>open_with_access\<close> key a connection of an encrypted plan, with exactly the plan's key
  material, before any query, timeout or configuration on it, and never key a connection of a plaintext plan; if
  opening fails no connection stays open; if it succeeds exactly the returned connection is open, its
  verification query succeeded, and for an encrypted plan the key call on it succeeded. An encrypted plan
  without key material therefore never opens.
\<close>

theorem opening_is_disciplined:
  assumes "open_with_access (recorder oc) plan access owner n [] = Some (r, h)"
  shows "disciplined plan h \<and>
    (case r of
       Inl e \<Rightarrow> live h = {}
     | Inr (c, security) \<Rightarrow> live h = {c} \<and> verified c h \<and> security = rp_security plan \<and>
         (rp_security plan = Encrypted \<longrightarrow> (\<exists>b. expected_key plan = Some b \<and> EvKey c b SQLITE_OK \<in> set h)))"
proof -
  obtain f where f: "connection_flags plan access owner = Some f"
    using assms by (auto simp: open_with_access_def split: option.splits)
  have "good plan {} []" by (simp add: good_defs)
  note o = open_with_access_triple [OF f assms this]
  show ?thesis
  proof (cases r)
    case (Inl e)
    then show ?thesis using o by (simp add: good_def)
  next
    case (Inr x)
    obtain c security where x: "x = (c, security)" by (cases x)
    from o have "settled plan {} (sqlite_open_flags f) (c, security) h" by (simp add: Inr x)
    from settledD [OF this] show ?thesis by (simp add: Inr x good_def trusted_def)
  qed
qed

definition picky_outcomes :: outcomes where
  "picky_outcomes = \<lparr>oc_open = (\<lambda>_. None),
     oc_call = (\<lambda>h c q. if c = 0 \<and> q = ''SELECT count(*) FROM sqlite_schema''
        then Some (SqliteFailure FNotADatabase 26) else None),
     oc_key = (\<lambda>_. 0), oc_autocheckpoint = (\<lambda>_. 0), oc_failure = (\<lambda>_. FOther), oc_len = (\<lambda>_. Some 4096)\<rparr>"

definition passphrase_plan :: ResolvedOpenPlan where
  "passphrase_plan = \<lparr>rp_path = ''app.db'', rp_flags = sup READWRITE ENCRYPTED, rp_security = Encrypted,
     rp_busy_timeout = 5000, rp_cache_size_bytes = 65536, rp_memory_budget_bytes = 1048576,
     rp_vfs = None, rp_key = Some (ResolvedPassphrase (SecretString [104, 105]))\<rparr>"

lemma previous_profile_opens:
  "map_option (map_ok fst \<circ> fst)
     (open_with_access (recorder picky_outcomes) passphrase_plan ReadWriteAccess SharedOwner 4096 []) = Some (Inr 1)"
  by (simp add: open_with_access_def connection_flags_def passphrase_plan_def picky_outcomes_def
      open_encrypted_def attempt_profile_def open_engine_connection_def bind_st_def map_err_st_def
      recorder_def call_outcome_def owning_def apply_key_with_profile_def profile_parameters_def
      with_key_def apply_key_def apply_key_bytes_def verify_database_def configure_connection_def
      opened_def SQLITE_OK_def Let_def)

theorem opening_is_disciplined_witness:
  "\<exists>h. open_with_access (recorder picky_outcomes) passphrase_plan ReadWriteAccess SharedOwner 4096 [] =
      Some (Inr (1, Encrypted), h) \<and> disciplined passphrase_plan h \<and> live h = {1} \<and>
      EvKey 1 [104, 105] SQLITE_OK \<in> set h"
proof -
  obtain c m h where h: "open_with_access (recorder picky_outcomes) passphrase_plan ReadWriteAccess SharedOwner 4096 [] =
      Some (Inr (c, m), h)" "c = 1"
    using previous_profile_opens by (auto split: option.splits)
  from opening_is_disciplined [OF h(1)] show ?thesis
    using h by (auto simp: passphrase_plan_def expected_key_def with_key_def)
qed

section \<open>Flags and key literals\<close>

lemma known_bits_iff: "from_bits b \<noteq> None \<longleftrightarrow> (\<forall>n. bit b n \<longrightarrow> n < 10)"
proof -
  have all: "bit ALL_BITS n \<longleftrightarrow> n < 10" for n
    by (auto simp: ALL_BITS_def bit_or_iff flag_bits)
  have "from_bits b \<noteq> None \<longleftrightarrow> b AND NOT ALL_BITS = 0" by (simp add: from_bits_def)
  also have "\<dots> \<longleftrightarrow> (\<forall>n. bit b n \<longrightarrow> bit ALL_BITS n)"
    using bit_imp_le_length [of b] by (fastforce simp: bit_eq_iff bit_and_iff bit_not_iff)
  finally show ?thesis by (simp add: all)
qed

lemma from_bits_Some: "from_bits b = Some f \<Longrightarrow> f = OpenFlags b"
  by (simp add: from_bits_def split: if_splits)

lemma readonly_bits:
  "bit (bits (readonly_open_flags f)) n \<longleftrightarrow> n = 0 \<or> (bit (bits f) n \<and> n \<in> {3, 4, 7, 8, 9})"
  by (auto simp: readonly_open_flags_def contains_bits bit_or_iff flag_bits)

lemma single_owner_bits:
  assumes "single_owner_open_flags f = Some g"
  shows "bit (bits g) n \<longleftrightarrow> (bit (bits f) n \<and> n \<noteq> 7) \<or> n = 8"
proof -
  have g: "bits g = (bits f AND NOT (bits FULLMUTEX)) OR bits NOMUTEX"
    using from_bits_Some [OF assms [unfolded single_owner_open_flags_def]] by simp
  show ?thesis
    unfolding g by (auto simp: bit_and_iff bit_not_iff bit_or_iff flag_bits dest: bit_imp_le_length)
qed

lemma single_owner_known:
  assumes "from_bits (bits f) \<noteq> None"
  shows "single_owner_open_flags f \<noteq> None"
  using assms unfolding single_owner_open_flags_def known_bits_iff
  by (auto simp: bit_and_iff bit_or_iff flag_bits)

definition engine_flags_spec :: "OpenFlags \<Rightarrow> ConnectionAccess \<Rightarrow> ConnectionOwner \<Rightarrow> SqlOpenFlag \<Rightarrow> bool" where
  "engine_flags_spec f access owner x =
     (case x of
        SQLITE_OPEN_READ_ONLY \<Rightarrow> access = ReadOnlyAccess \<or> contains f READONLY
      | SQLITE_OPEN_READ_WRITE \<Rightarrow> access = ReadWriteAccess \<and> \<not> contains f READONLY
      | SQLITE_OPEN_CREATE \<Rightarrow> access = ReadWriteAccess \<and> contains f CREATE
      | SQLITE_OPEN_URI \<Rightarrow> contains f URI
      | SQLITE_OPEN_MEMORY \<Rightarrow> contains f MEMORY
      | SQLITE_OPEN_FULL_MUTEX \<Rightarrow> owner = SharedOwner \<and> contains f FULLMUTEX
      | SQLITE_OPEN_NO_MUTEX \<Rightarrow> owner = SingleOwner \<or> contains f NOMUTEX
      | SQLITE_OPEN_NOFOLLOW \<Rightarrow> contains f NOFOLLOW)"

lemma sqlite_flag_mem:
  "x \<in> sqlite_open_flags f \<longleftrightarrow>
     (case x of
        SQLITE_OPEN_READ_ONLY \<Rightarrow> bit (bits f) 0 | SQLITE_OPEN_READ_WRITE \<Rightarrow> \<not> bit (bits f) 0
      | SQLITE_OPEN_CREATE \<Rightarrow> bit (bits f) 2 | SQLITE_OPEN_URI \<Rightarrow> bit (bits f) 3
      | SQLITE_OPEN_MEMORY \<Rightarrow> bit (bits f) 4 | SQLITE_OPEN_FULL_MUTEX \<Rightarrow> bit (bits f) 7
      | SQLITE_OPEN_NO_MUTEX \<Rightarrow> bit (bits f) 8 | SQLITE_OPEN_NOFOLLOW \<Rightarrow> bit (bits f) 9)"
  by (cases x) (simp_all add: sqlite_open_flags_def contains_bits Let_def)

lemma connection_flags_known:
  assumes "from_bits (bits (rp_flags plan)) \<noteq> None"
  shows "\<exists>f. connection_flags plan access owner = Some f"
proof -
  have "from_bits (bits (readonly_open_flags (rp_flags plan))) \<noteq> None"
    unfolding known_bits_iff readonly_bits by auto
  then show ?thesis
    using assms single_owner_known by (cases access; cases owner) (auto simp: connection_flags_def)
qed

lemma connection_flags_bits:
  assumes "connection_flags plan access owner = Some f"
  shows "bit (bits f) n \<longleftrightarrow>
    (let b = (if access = ReadOnlyAccess then n = 0 \<or> (bit (bits (rp_flags plan)) n \<and> n \<in> {3, 4, 7, 8, 9})
              else bit (bits (rp_flags plan)) n)
     in if owner = SingleOwner then (b \<and> n \<noteq> 7) \<or> n = 8 else b)"
  using assms
  by (cases access; cases owner)
    (auto simp: connection_flags_def readonly_bits dest: single_owner_bits [of _ _ n])

lemma connection_flags_spec:
  assumes "from_bits (bits (rp_flags plan)) \<noteq> None"
  shows "\<exists>f. connection_flags plan access owner = Some f \<and>
    sqlite_open_flags f = {x. engine_flags_spec (rp_flags plan) access owner x}"
proof -
  obtain f where f: "connection_flags plan access owner = Some f"
    using connection_flags_known [OF assms] by blast
  have "x \<in> sqlite_open_flags f \<longleftrightarrow> engine_flags_spec (rp_flags plan) access owner x" for x
    unfolding sqlite_flag_mem connection_flags_bits [OF f] engine_flags_spec_def contains_bits
    by (cases x; cases access; cases owner) simp_all
  with f show ?thesis by blast
qed

text \<open>
  The engine is opened with exactly the access the connection is for. For every flag word made of
  known flags, whatever access and ownership are asked, the flag computation does not panic, and the engine flags are the ones of
  the specification: pooled readers are read-only and can never create a file, exactly one of
  read-only and read-write is passed, a single-owner connection has the no-mutex flag and not the
  full-mutex flag, and URI, in-memory and no-follow are passed through.
\<close>

lemma connection_flags_exact:
  assumes "from_bits (bits (rp_flags plan)) \<noteq> None"
  shows "\<exists>f. connection_flags plan access owner = Some f \<and>
    sqlite_open_flags f = {x. engine_flags_spec (rp_flags plan) access owner x}"
  using assms by (rule connection_flags_spec)

lemma HEX_digit: "d < 16 \<Longrightarrow> HEX d = word_of_nat (of_char (hex_digit d))"
proof -
  assume "d < 16"
  then have "d = 0 \<or> d = 1 \<or> d = 2 \<or> d = 3 \<or> d = 4 \<or> d = 5 \<or> d = 6 \<or> d = 7 \<or>
      d = 8 \<or> d = 9 \<or> d = 10 \<or> d = 11 \<or> d = 12 \<or> d = 13 \<or> d = 14 \<or> d = 15" by arith
  then show ?thesis by (elim disjE) (simp_all add: HEX_def hex_digit_def)
qed

lemma raw_key_digits_eq:
  assumes "2 + 2 * (index + length raw) \<le> length lit"
  shows "raw_key_digits index raw lit =
    take (2 + 2 * index) lit @ bytes_of_string (concat (map hex_byte raw)) @ drop (2 + 2 * (index + length raw)) lit"
  using assms
proof (induction raw arbitrary: index lit)
  case (Cons b raw)
  have nibbles: "unat (drop_bit 4 b) < 16" "unat (b AND 15) < 16"
    using unsigned_less [of b, where ?'a = nat] by (simp_all add: unat_high_nibble unat_low_nibble less_mult_imp_div_less)
  let ?l = "lit[2 + index * 2 := HEX (unat (drop_bit 4 b)), 3 + index * 2 := HEX (unat (b AND 15))]"
  have "raw_key_digits (Suc index) raw ?l =
      take (2 + 2 * Suc index) ?l @ bytes_of_string (concat (map hex_byte raw)) @ drop (2 + 2 * (Suc index + length raw)) ?l"
    by (rule Cons.IH) (use Cons.prems in simp)
  moreover have "take (2 + 2 * Suc index) ?l =
      take (2 + 2 * index) lit @ [HEX (unat (drop_bit 4 b)), HEX (unat (b AND 15))]"
    by (rule nth_equalityI) (use Cons.prems in \<open>auto simp: nth_append nth_list_update nth_Cons split: nat.splits\<close>)
  ultimately show ?case
    by (simp add: bytes_of_string_def hex_byte_def [of b] HEX_digit [OF nibbles(1)] HEX_digit [OF nibbles(2)])
qed (simp add: bytes_of_string_def)

definition decode_key_literal :: "u8 list \<Rightarrow> u8 list option" where
  "decode_key_literal lit =
     (if take 2 lit = [0x78, 0x27] \<and> last lit = 0x27
      then Some (hex_decode (string_of_bytes (butlast (drop 2 lit)))) else None)"

text \<open>
  A raw key reaches the cipher unchanged. The 67-byte literal built for a 32-byte key is
  \<^verbatim>\<open>x'\<close>, the lower-case hexadecimal digits of the key, and a closing quote; decoding it gives the key back,
  so different keys are never confused.
\<close>

lemma raw_key_literal_roundtrip:
  assumes "length raw = RAW_KEY_LENGTH"
  shows "raw_key_literal raw = bytes_of_string (''x'' @ [CHR 0x27] @ concat (map hex_byte raw) @ [CHR 0x27]) \<and>
    length (raw_key_literal raw) = 67 \<and> decode_key_literal (raw_key_literal raw) = Some raw"
proof -
  let ?digits = "bytes_of_string (concat (map hex_byte raw))"
  have len: "length raw = 32" "length ?digits = 64"
    using assms length_hex_bytes [of raw] by (simp_all add: RAW_KEY_LENGTH_def bytes_of_string_def)
  have "raw_key_digits 0 raw ((replicate 67 0)[0 := 0x78, 1 := 0x27]) = [0x78, 0x27] @ ?digits @ [0]"
    using raw_key_digits_eq [of 0 raw "(replicate 67 0)[0 := 0x78, 1 := 0x27]"] len(1)
    by (simp add: numeral_eq_Suc)
  then have lit: "raw_key_literal raw = [0x78, 0x27] @ ?digits @ [0x27]"
    using len(2) by (simp add: raw_key_literal_def list_update_append)
  have "decode_key_literal (raw_key_literal raw) = Some (hex_decode (concat (map hex_byte raw)))"
    unfolding lit by (simp add: decode_key_literal_def butlast_append string_of_bytes_of_string)
  then show ?thesis
    unfolding lit using len hex_decode_bytes [of raw "[]"] by (simp add: bytes_of_string_def)
qed

end
