(* ===== verification/Pool_Config.thy ===== *)
theory Pool_Config
  imports Storage
begin

text \<open>
  Resource limits of the connection manager, from \<^verbatim>\<open>csgdb/src/pool.rs\<close>: the option records with
  their defaults, their validation, and the division of the memory budget among connections.
\<close>

section \<open>Options\<close>

definition DEFAULT_READ_CONNECTIONS :: usize where "DEFAULT_READ_CONNECTIONS = 2"
definition DEFAULT_WRITE_QUEUE_CAPACITY :: usize where "DEFAULT_WRITE_QUEUE_CAPACITY = 64"
definition DEFAULT_GROUP_COMMIT_MAX_JOBS :: usize where "DEFAULT_GROUP_COMMIT_MAX_JOBS = 8"
definition DEFAULT_GROUP_COMMIT_DELAY :: duration where "DEFAULT_GROUP_COMMIT_DELAY = 250 * 1000"
definition DEFAULT_MAINTENANCE_INTERVAL_COMMITS :: u64 where "DEFAULT_MAINTENANCE_INTERVAL_COMMITS = 32"
definition DEFAULT_WAL_SOFT_LIMIT_FRAMES :: u32 where "DEFAULT_WAL_SOFT_LIMIT_FRAMES = 4096"
definition MAX_READ_CONNECTIONS :: usize where "MAX_READ_CONNECTIONS = 64"
definition MAX_WRITE_QUEUE_CAPACITY :: usize where "MAX_WRITE_QUEUE_CAPACITY = 65536"
definition MAX_GROUP_COMMIT_JOBS :: usize where "MAX_GROUP_COMMIT_JOBS = 256"
definition MAX_GROUP_COMMIT_DELAY :: duration where "MAX_GROUP_COMMIT_DELAY = duration_from_millis 20"
definition MAX_MAINTENANCE_INTERVAL_COMMITS :: u64 where "MAX_MAINTENANCE_INTERVAL_COMMITS = 1000000"

record GroupCommitOptions =
  gco_max_jobs :: usize
  gco_max_delay :: duration

record WalMaintenanceOptions =
  wmo_enabled :: bool
  wmo_checkpoint_interval_commits :: u64
  wmo_wal_soft_limit_frames :: u32

record PoolOptions =
  po_read_connections :: usize
  po_write_queue_capacity :: usize
  po_group_commit :: GroupCommitOptions
  po_wal_maintenance :: WalMaintenanceOptions

definition group_commit_options_default :: GroupCommitOptions where
  "group_commit_options_default =
     \<lparr>gco_max_jobs = DEFAULT_GROUP_COMMIT_MAX_JOBS, gco_max_delay = DEFAULT_GROUP_COMMIT_DELAY\<rparr>"

definition wal_maintenance_new :: "u64 \<Rightarrow> u32 \<Rightarrow> WalMaintenanceOptions" where
  "wal_maintenance_new interval limit =
     \<lparr>wmo_enabled = True, wmo_checkpoint_interval_commits = interval, wmo_wal_soft_limit_frames = limit\<rparr>"

definition wal_maintenance_disabled :: WalMaintenanceOptions where
  "wal_maintenance_disabled =
     \<lparr>wmo_enabled = False, wmo_checkpoint_interval_commits = DEFAULT_MAINTENANCE_INTERVAL_COMMITS,
      wmo_wal_soft_limit_frames = DEFAULT_WAL_SOFT_LIMIT_FRAMES\<rparr>"

definition wal_maintenance_default :: WalMaintenanceOptions where
  "wal_maintenance_default = wal_maintenance_new DEFAULT_MAINTENANCE_INTERVAL_COMMITS DEFAULT_WAL_SOFT_LIMIT_FRAMES"

definition pool_options_new :: "usize \<Rightarrow> usize \<Rightarrow> PoolOptions" where
  "pool_options_new read_connections write_queue_capacity =
     \<lparr>po_read_connections = read_connections, po_write_queue_capacity = write_queue_capacity,
      po_group_commit = \<lparr>gco_max_jobs = DEFAULT_GROUP_COMMIT_MAX_JOBS, gco_max_delay = DEFAULT_GROUP_COMMIT_DELAY\<rparr>,
      po_wal_maintenance =
        \<lparr>wmo_enabled = True, wmo_checkpoint_interval_commits = DEFAULT_MAINTENANCE_INTERVAL_COMMITS,
         wmo_wal_soft_limit_frames = DEFAULT_WAL_SOFT_LIMIT_FRAMES\<rparr>\<rparr>"

definition pool_options_default :: PoolOptions where
  "pool_options_default = pool_options_new DEFAULT_READ_CONNECTIONS DEFAULT_WRITE_QUEUE_CAPACITY"

section \<open>Validation\<close>

definition invalid_pool :: "string \<Rightarrow> Error" where
  "invalid_pool m = Error InvalidPoolConfiguration m"

definition validate_group_commit_options :: "GroupCommitOptions \<Rightarrow> unit result" where
  "validate_group_commit_options options =
     (if gco_max_jobs options = 0 \<or> gco_max_jobs options > MAX_GROUP_COMMIT_JOBS
      then Inl (invalid_pool ''group commit job limit is outside the supported range'')
      else if gco_max_delay options > MAX_GROUP_COMMIT_DELAY
      then Inl (invalid_pool ''group commit delay exceeds the supported range'')
      else Inr ())"

definition validate_wal_maintenance_options :: "WalMaintenanceOptions \<Rightarrow> unit result" where
  "validate_wal_maintenance_options options =
     (if wmo_checkpoint_interval_commits options = 0
         \<or> wmo_checkpoint_interval_commits options > MAX_MAINTENANCE_INTERVAL_COMMITS
      then Inl (invalid_pool ''WAL maintenance commit interval is outside the supported range'')
      else if wmo_wal_soft_limit_frames options = 0
         \<or> wmo_wal_soft_limit_frames options > MAX_WAL_AUTOCHECKPOINT_FRAMES
      then Inl (invalid_pool ''WAL soft frame limit is outside the supported range'')
      else Inr ())"

definition validate_pool_options :: "ResolvedOpenPlan \<Rightarrow> PoolOptions \<Rightarrow> unit result" where
  "validate_pool_options plan options =
     (if po_read_connections options = 0 \<or> po_read_connections options > MAX_READ_CONNECTIONS
      then Inl (invalid_pool ''read connection count is outside the supported range'')
      else if po_write_queue_capacity options = 0 \<or> po_write_queue_capacity options > MAX_WRITE_QUEUE_CAPACITY
      then Inl (invalid_pool ''write queue capacity is outside the supported range'')
      else
        bind_result (validate_group_commit_options (po_group_commit options)) (\<lambda>_.
        bind_result (validate_wal_maintenance_options (po_wal_maintenance options)) (\<lambda>_.
        if contains (rp_flags plan) READONLY
        then Inl (invalid_pool ''a managed pool requires a writable primary connection'')
        else if contains (rp_flags plan) MEMORY
        then Inl (invalid_pool ''managed pools do not support isolated memory databases'')
        else Inr ())))"

definition pool_cache_bytes_per_connection :: "ResolvedOpenPlan \<Rightarrow> PoolOptions \<Rightarrow> u64 result" where
  "pool_cache_bytes_per_connection plan options =
     (let connection_count = saturating_add (po_read_connections options) 1;
          budget_share = rp_memory_budget_bytes plan div connection_count;
          selected = min (rp_cache_size_bytes plan) budget_share div 1024 * 1024
      in if selected < 1024
         then Inl (invalid_pool ''memory budget cannot provide a one KiB page-cache share per connection'')
         else Inr selected)"

section \<open>Properties\<close>

definition pool_limits_ok :: "ResolvedOpenPlan \<Rightarrow> PoolOptions \<Rightarrow> bool" where
  "pool_limits_ok plan o' \<longleftrightarrow>
     1 \<le> unat (po_read_connections o') \<and> unat (po_read_connections o') \<le> 64 \<and>
     1 \<le> unat (po_write_queue_capacity o') \<and> unat (po_write_queue_capacity o') \<le> 65536 \<and>
     1 \<le> unat (gco_max_jobs (po_group_commit o')) \<and> unat (gco_max_jobs (po_group_commit o')) \<le> 256 \<and>
     gco_max_delay (po_group_commit o') \<le> duration_from_millis 20 \<and>
     1 \<le> unat (wmo_checkpoint_interval_commits (po_wal_maintenance o')) \<and>
     unat (wmo_checkpoint_interval_commits (po_wal_maintenance o')) \<le> 1000000 \<and>
     1 \<le> unat (wmo_wal_soft_limit_frames (po_wal_maintenance o')) \<and>
     unat (wmo_wal_soft_limit_frames (po_wal_maintenance o')) \<le> 2147483647 \<and>
     \<not> contains (rp_flags plan) READONLY \<and> \<not> contains (rp_flags plan) MEMORY"

lemma word_limit:
  fixes x m :: "'a::len word"
  assumes "unat m = k"
  shows "(x = 0 \<or> m < x) \<longleftrightarrow> \<not> (1 \<le> unat x \<and> unat x \<le> k)"
proof -
  have "x = 0 \<longleftrightarrow> unat x = 0" by (rule unsigned_eq_0_iff [symmetric])
  moreover have "m < x \<longleftrightarrow> k < unat x" by (simp add: word_less_nat_alt assms)
  ultimately show ?thesis by auto
qed

lemma pool_maxima:
  "unat MAX_READ_CONNECTIONS = 64" "unat MAX_WRITE_QUEUE_CAPACITY = 65536" "unat MAX_GROUP_COMMIT_JOBS = 256"
  "unat MAX_MAINTENANCE_INTERVAL_COMMITS = 1000000" "unat MAX_WAL_AUTOCHECKPOINT_FRAMES = 2147483647"
  by (simp_all add: MAX_READ_CONNECTIONS_def MAX_WRITE_QUEUE_CAPACITY_def MAX_GROUP_COMMIT_JOBS_def
      MAX_MAINTENANCE_INTERVAL_COMMITS_def MAX_WAL_AUTOCHECKPOINT_FRAMES_def)

lemmas pool_word_limits = word_limit [OF pool_maxima(1)] word_limit [OF pool_maxima(2)]
  word_limit [OF pool_maxima(3)] word_limit [OF pool_maxima(4)] word_limit [OF pool_maxima(5)]

lemma validate_pool_iff: "validate_pool_options plan o' = Inr () \<longleftrightarrow> pool_limits_ok plan o'"
  unfolding validate_pool_options_def validate_group_commit_options_def validate_wal_maintenance_options_def
    pool_word_limits pool_limits_ok_def MAX_GROUP_COMMIT_DELAY_def
  by (auto simp: not_less)

lemma validate_pool_error: "validate_pool_options plan o' = Inl e \<Longrightarrow> err_code e = InvalidPoolConfiguration"
  by (auto simp: validate_pool_options_def validate_group_commit_options_def validate_wal_maintenance_options_def
      invalid_pool_def bind_result_eq_Inl split: if_splits)

definition cache_share :: "ResolvedOpenPlan \<Rightarrow> PoolOptions \<Rightarrow> nat" where
  "cache_share plan o' =
     min (unat (rp_cache_size_bytes plan)) (unat (rp_memory_budget_bytes plan) div (unat (po_read_connections o') + 1))
       div 1024 * 1024"

lemma unat_round_down: "unat (x div 1024 * 1024 :: u64) = unat x div 1024 * 1024"
proof -
  have "unat x div 1024 * 1024 \<le> unat x" by simp
  then have "unat x div 1024 * 1024 < 2 ^ 64" by (rule order.strict_trans1) (rule order.strict_trans2 [OF unsigned_less], simp)
  then show ?thesis by (simp add: unat_word_ariths unat_div)
qed

lemma unat_min: "unat (min a b :: 'a::len word) = min (unat a) (unat b)"
  by (simp add: min_def word_le_nat_alt)

lemma pool_cache_eq:
  assumes "unat (po_read_connections o') \<le> 64"
  shows "pool_cache_bytes_per_connection plan o' =
    (if 1024 \<le> cache_share plan o' then Inr (of_nat (cache_share plan o'))
     else Inl (invalid_pool ''memory budget cannot provide a one KiB page-cache share per connection''))"
proof -
  let ?s = "min (rp_cache_size_bytes plan) (rp_memory_budget_bytes plan div saturating_add (po_read_connections o') 1) div 1024 * 1024"
  have count: "unat (saturating_add (po_read_connections o') 1) = unat (po_read_connections o') + 1"
    using assms by (simp add: unat_saturating_add)
  have s: "unat ?s = cache_share plan o'"
    by (simp only: unat_round_down unat_min unat_div count cache_share_def)
  have "?s = of_nat (cache_share plan o')" unfolding s [symmetric] by simp
  moreover have "?s < 1024 \<longleftrightarrow> \<not> 1024 \<le> cache_share plan o'"
    by (simp add: word_less_nat_alt s not_le)
  ultimately show ?thesis unfolding pool_cache_bytes_per_connection_def Let_def by simp
qed

text \<open>
  Claim C39. A pool opens only within its limits and its budget. \<^const>\<open>validate_pool_options\<close> accepts
  exactly the option records within the documented ranges on a writable on-disk plan, and fails with
  \<^verbatim>\<open>InvalidPoolConfiguration\<close> otherwise; for accepted options the page-cache share of a connection, when there is one, is a
  positive multiple of one KiB, at most the configured cache size, and the shares of the writer and
  all readers together stay within the memory budget; the share is refused exactly when
  less than one KiB is available for it.
\<close>

theorem pool_configuration_decided:
  "(validate_pool_options plan o' = Inr ()) = pool_limits_ok plan o' \<and>
   (\<forall>e. validate_pool_options plan o' = Inl e \<longrightarrow> err_code e = InvalidPoolConfiguration) \<and>
   (validate_pool_options plan o' = Inr () \<longrightarrow>
      (case pool_cache_bytes_per_connection plan o' of
         Inr n \<Rightarrow> 1024 \<le> unat n \<and> unat n mod 1024 = 0 \<and> unat n \<le> unat (rp_cache_size_bytes plan) \<and>
           unat n * (unat (po_read_connections o') + 1) \<le> unat (rp_memory_budget_bytes plan)
       | Inl e \<Rightarrow> err_code e = InvalidPoolConfiguration \<and>
           (unat (rp_cache_size_bytes plan) < 1024 \<or>
            unat (rp_memory_budget_bytes plan) div (unat (po_read_connections o') + 1) < 1024)))"
proof (intro conjI impI allI)
  assume "validate_pool_options plan o' = Inr ()"
  then have readers: "unat (po_read_connections o') \<le> 64"
    unfolding validate_pool_iff pool_limits_ok_def by simp
  let ?b = "unat (rp_memory_budget_bytes plan)" and ?r = "unat (po_read_connections o') + 1"
  let ?m = "min (unat (rp_cache_size_bytes plan)) (?b div ?r)"
  have share: "cache_share plan o' = ?m div 1024 * 1024" by (simp add: cache_share_def)
  have le: "cache_share plan o' \<le> ?m" unfolding share by (rule div_times_less_eq_dividend)
  have "cache_share plan o' \<le> unat (rp_cache_size_bytes plan)" using le by simp
  then have "cache_share plan o' < 2 ^ 64" by (rule order.strict_trans1) (rule order.strict_trans2 [OF unsigned_less], simp)
  then have unat: "unat (of_nat (cache_share plan o') :: u64) = cache_share plan o'" by (simp add: unat_of_nat)
  have budget: "cache_share plan o' * ?r \<le> ?b"
  proof -
    have "cache_share plan o' * ?r \<le> ?b div ?r * ?r" using le by (intro mult_le_mono1) simp
    also have "\<dots> \<le> ?b" by (rule div_times_less_eq_dividend)
    finally show ?thesis .
  qed
  have none: "?m < 1024" if "\<not> 1024 \<le> cache_share plan o'"
    using that unfolding share by (cases "?m < 1024") (auto simp: div_le_mono dest: div_le_mono [of 1024 _ 1024])
  show "case pool_cache_bytes_per_connection plan o' of
         Inr n \<Rightarrow> 1024 \<le> unat n \<and> unat n mod 1024 = 0 \<and> unat n \<le> unat (rp_cache_size_bytes plan) \<and>
           unat n * (unat (po_read_connections o') + 1) \<le> unat (rp_memory_budget_bytes plan)
       | Inl e \<Rightarrow> err_code e = InvalidPoolConfiguration \<and>
           (unat (rp_cache_size_bytes plan) < 1024 \<or>
            unat (rp_memory_budget_bytes plan) div (unat (po_read_connections o') + 1) < 1024)"
  proof (cases "1024 \<le> cache_share plan o'")
    case True
    have "cache_share plan o' mod 1024 = 0" by (simp add: share)
    then show ?thesis
      unfolding pool_cache_eq [OF readers] using True le budget by (simp add: unat)
  next
    case False
    then show ?thesis
      unfolding pool_cache_eq [OF readers] using none by (auto simp: invalid_pool_def min_less_iff_disj)
  qed
qed (auto simp: validate_pool_iff dest: validate_pool_error)

theorem pool_configuration_decided_witness:
  "\<exists>plan. validate_pool_options plan pool_options_default = Inr () \<and>
     (\<exists>n. pool_cache_bytes_per_connection plan pool_options_default = Inr n \<and> unat n * 3 \<le> 67108864)"
proof -
  define plan where "plan = \<lparr>rp_path = ''app.db'', rp_flags = READWRITE, rp_security = Plaintext,
     rp_busy_timeout = 0, rp_cache_size_bytes = DEFAULT_CACHE_SIZE_BYTES,
     rp_memory_budget_bytes = DEFAULT_MEMORY_BUDGET_BYTES, rp_vfs = None, rp_key = None\<rparr>"
  have ok: "validate_pool_options plan pool_options_default = Inr ()"
    unfolding validate_pool_iff
    by (simp add: plan_def pool_limits_ok_def pool_options_default_def pool_options_new_def contains_bits flag_bits
        DEFAULT_READ_CONNECTIONS_def DEFAULT_WRITE_QUEUE_CAPACITY_def DEFAULT_GROUP_COMMIT_MAX_JOBS_def
        DEFAULT_GROUP_COMMIT_DELAY_def DEFAULT_MAINTENANCE_INTERVAL_COMMITS_def DEFAULT_WAL_SOFT_LIMIT_FRAMES_def
        duration_from_millis_def)
  have sizes: "unat (po_read_connections pool_options_default) = 2" "unat (rp_memory_budget_bytes plan) = 67108864"
    "unat (rp_cache_size_bytes plan) = 16777216"
    by (simp_all add: plan_def pool_options_default_def pool_options_new_def DEFAULT_READ_CONNECTIONS_def
        DEFAULT_MEMORY_BUDGET_BYTES_def DEFAULT_CACHE_SIZE_BYTES_def)
  have "case pool_cache_bytes_per_connection plan pool_options_default of
      Inr n \<Rightarrow> unat n * 3 \<le> 67108864 | Inl e \<Rightarrow> False"
    using pool_configuration_decided [of plan pool_options_default] ok
    by (simp add: sizes split: sum.splits)
  then show ?thesis using ok by (auto split: sum.splits)
qed

end
