(* ===== verification/Writer.thy ===== *)
theory Writer
  imports Group_Commit Pool_Config
begin

text \<open>
  The writer thread of \<^verbatim>\<open>csgdb/src/pool.rs\<close>: automatic WAL maintenance (\<^verbatim>\<open>WriterRuntime\<close>), the body
  of the \<^verbatim>\<open>writer_main\<close> loop, and submission of jobs. A job carries the identity of the response
  channel that waits for it, so that who is answered, and how often, can be stated.
\<close>

section \<open>Maintenance\<close>

record WriterRuntime =
  wr_maintenance :: WalMaintenanceOptions
  wr_commits_since_maintenance :: u64
  wr_wal_pressure :: bool

definition writer_runtime_new :: "WalMaintenanceOptions \<Rightarrow> WriterRuntime" where
  "writer_runtime_new maintenance =
     \<lparr>wr_maintenance = maintenance, wr_commits_since_maintenance = 0, wr_wal_pressure = False\<rparr>"

definition disable_automatic_maintenance :: "WriterRuntime \<Rightarrow> WriterRuntime" where
  "disable_automatic_maintenance rt =
     rt\<lparr>wr_maintenance := (wr_maintenance rt)\<lparr>wmo_enabled := False\<rparr>,
        wr_commits_since_maintenance := 0, wr_wal_pressure := False\<rparr>"

definition set_automatic_maintenance :: "WalMaintenanceOptions \<Rightarrow> WriterRuntime \<Rightarrow> WriterRuntime" where
  "set_automatic_maintenance options rt =
     rt\<lparr>wr_maintenance := options, wr_commits_since_maintenance := 0, wr_wal_pressure := False\<rparr>"

definition unwrap_or :: "'a \<Rightarrow> 'a option \<Rightarrow> 'a" where
  "unwrap_or d x = (case x of Some v \<Rightarrow> v | None \<Rightarrow> d)"

definition record_checkpoint ::
  "CheckpointResult \<Rightarrow> bool \<Rightarrow> WriterRuntime \<times> PoolMetrics \<Rightarrow> WriterRuntime \<times> PoolMetrics" where
  "record_checkpoint r automatic st =
     (case st of (rt, m) \<Rightarrow>
       let m = m\<lparr>checkpoint_runs := checkpoint_runs m + 1\<rparr>;
           m = (if automatic then m\<lparr>automatic_checkpoint_runs := automatic_checkpoint_runs m + 1\<rparr> else m);
           m = (if \<not> is_complete r then m\<lparr>incomplete_checkpoints := incomplete_checkpoints m + 1\<rparr> else m);
           wal_frames = unwrap_or 0 (cr_wal_frames r);
           remaining = unwrap_or 0 (remaining_frames r);
           m = m\<lparr>last_observed_wal_frames := wal_frames, last_remaining_wal_frames := remaining\<rparr>;
           pressure = (remaining > wmo_wal_soft_limit_frames (wr_maintenance rt));
           m = (if pressure \<and> \<not> wr_wal_pressure rt then m\<lparr>wal_pressure_events := wal_pressure_events m + 1\<rparr> else m)
       in (rt\<lparr>wr_wal_pressure := pressure\<rparr>, m\<lparr>wal_pressure_active := pressure\<rparr>))"

definition after_write ::
  "'db Engine \<Rightarrow> WriterRuntime \<times> PoolMetrics \<times> 'db \<Rightarrow> WriterRuntime \<times> PoolMetrics \<times> 'db" where
  "after_write eng st =
     (case st of (rt, m, db) \<Rightarrow>
       if \<not> wmo_enabled (wr_maintenance rt) then (rt, m, db)
       else
         let rt = rt\<lparr>wr_commits_since_maintenance := saturating_add (wr_commits_since_maintenance rt) 1\<rparr> in
         if \<not> wr_wal_pressure rt \<and> wr_commits_since_maintenance rt < wmo_checkpoint_interval_commits (wr_maintenance rt)
         then (rt, m, db)
         else
           let rt = rt\<lparr>wr_commits_since_maintenance := 0\<rparr> in
           (case checkpoint eng Passive db of
              (Inr r, db') \<Rightarrow> (case record_checkpoint r True (rt, m) of (rt, m) \<Rightarrow> (rt, m, db'))
            | (Inl _, db') \<Rightarrow> (rt, m\<lparr>maintenance_failures := maintenance_failures m + 1\<rparr>, db')))"

section \<open>The loop body\<close>

text \<open>
  An exclusive job: what the boxed closure does with the connection and the runtime, and the
  response it sends. A closure that panics is answered by \<^verbatim>\<open>catch_unwind\<close> with
  \<^verbatim>\<open>WriteTaskPanicked\<close>; the panic is the outcome \<^const>\<open>None\<close> of the caller's operation.
\<close>

datatype 'a Answer = ExclusiveAnswer "'a result" | GroupAnswer "nat list result"

record ('db, 'a, 'r) ExclusiveWrite =
  xw_run :: "WriterRuntime \<Rightarrow> PoolMetrics \<Rightarrow> 'db \<Rightarrow> 'a result \<times> WriterRuntime \<times> PoolMetrics \<times> 'db"
  xw_response :: 'r

definition task_panicked :: Error where
  "task_panicked = Error WriteTaskPanicked ''a database writer callback panicked''"

definition catch_operation ::
  "(WriterRuntime \<Rightarrow> PoolMetrics \<Rightarrow> 'db \<Rightarrow> 'a result option \<times> WriterRuntime \<times> PoolMetrics \<times> 'db)
     \<Rightarrow> WriterRuntime \<Rightarrow> PoolMetrics \<Rightarrow> 'db \<Rightarrow> 'a result \<times> WriterRuntime \<times> PoolMetrics \<times> 'db" where
  "catch_operation operation rt m db =
     (case operation rt m db of (r, rest) \<Rightarrow> (case r of Some x \<Rightarrow> x | None \<Rightarrow> Inl task_panicked, rest))"

record ('db, 'a, 'r) writer_state =
  ws_runtime :: WriterRuntime
  ws_metrics :: PoolMetrics
  ws_db :: 'db
  ws_answers :: "('r \<times> 'a Answer) list"

definition run_after_write :: "'db Engine \<Rightarrow> ('db, 'a, 'r) writer_state \<Rightarrow> ('db, 'a, 'r) writer_state" where
  "run_after_write eng w =
     (case after_write eng (ws_runtime w, ws_metrics w, ws_db w) of
        (rt, m, db) \<Rightarrow> w\<lparr>ws_runtime := rt, ws_metrics := m, ws_db := db\<rparr>)"

definition set_active :: "bool \<Rightarrow> ('db, 'a, 'r) writer_state \<Rightarrow> ('db, 'a, 'r) writer_state" where
  "set_active b w = w\<lparr>ws_metrics := (ws_metrics w)\<lparr>writer_active := b\<rparr>\<rparr>"

fun writer_body ::
  "'db Engine \<Rightarrow> (('db, 'a, 'r) ExclusiveWrite, 'r GroupableWrite) DequeuedWrite
     \<Rightarrow> ('db, 'a, 'r) writer_state \<Rightarrow> ('db, 'a, 'r) writer_state" where
  "writer_body eng (DExclusive operation counts_as_write) w =
     (let w = set_active True w in
      case xw_run operation (ws_runtime w) (ws_metrics w) (ws_db w) of
        (response, rt, m, db) \<Rightarrow>
          let w = w\<lparr>ws_runtime := rt, ws_metrics := m, ws_db := db\<rparr>;
              w = (if counts_as_write then run_after_write eng w else w);
              w = w\<lparr>ws_metrics := complete_jobs 1 (ws_metrics w)\<rparr>;
              w = set_active False w
          in w\<lparr>ws_answers := ws_answers w @ [(xw_response operation, ExclusiveAnswer response)]\<rparr>)"
| "writer_body eng (DGroup jobs) w =
     (let w = set_active True w in
      case execute_group_commit eng jobs (ws_metrics w) (ws_db w) of
        (completion, m, db) \<Rightarrow>
          let w = w\<lparr>ws_metrics := m, ws_db := db\<rparr>;
              w = (if gc_committed completion then run_after_write eng w else w);
              w = set_active False w
          in w\<lparr>ws_answers := ws_answers w @ map (\<lambda>(r, x). (r, GroupAnswer x)) (gc_responses completion)\<rparr>)"

text \<open>
  \<^verbatim>\<open>writer_main\<close>, given what the successive calls of \<^verbatim>\<open>pop\<close> return: the list of dequeued jobs, whose
  end is the \<^verbatim>\<open>None\<close> that ends the loop and closes the connection.
\<close>

fun writer_loop ::
  "'db Engine \<Rightarrow> (('db, 'a, 'r) ExclusiveWrite, 'r GroupableWrite) DequeuedWrite list
     \<Rightarrow> ('db, 'a, 'r) writer_state \<Rightarrow> unit result \<times> ('db, 'a, 'r) writer_state" where
  "writer_loop eng [] w = (close eng (ws_db w), w)"
| "writer_loop eng (job # jobs) w = writer_loop eng jobs (writer_body eng job w)"

definition writer_main ::
  "'db Engine \<Rightarrow> PoolOptions \<Rightarrow> PoolMetrics \<Rightarrow> 'db
     \<Rightarrow> (('db, 'a, 'r) ExclusiveWrite, 'r GroupableWrite) DequeuedWrite list
     \<Rightarrow> unit result \<times> ('db, 'a, 'r) writer_state" where
  "writer_main eng options metrics db jobs =
     writer_loop eng jobs
       \<lparr>ws_runtime = writer_runtime_new (po_wal_maintenance options), ws_metrics = metrics, ws_db = db, ws_answers = []\<rparr>"

text \<open>
  The loop over a queue that has been closed: every \<^verbatim>\<open>pop\<close> on it returns at once, so that the
  loop, with the queue as its state, is a terminating function.
\<close>

lemma collect_closed: "\<exists>gs rest. collect m e acc jobs False = (PopReturn (Some (DGroup (acc @ gs))), rest) \<and>
    jobs = map Groupable gs @ rest \<and> length rest \<le> length jobs"
proof (induction m e acc jobs False rule: collect.induct)
  case (1 m e acc g jobs)
  show ?case
  proof (cases "length acc < m")
    case True
    then obtain gs rest where "collect m e (acc @ [g]) jobs False = (PopReturn (Some (DGroup ((acc @ [g]) @ gs))), rest)"
      "jobs = map Groupable gs @ rest" "length rest \<le> length jobs" using 1 by blast
    then show ?thesis using True by (intro exI [of _ "g # gs"] exI [of _ rest]) simp
  qed (auto intro: exI [of _ "[]"])
qed (auto intro: exI [of _ "[]"])

lemma pop_begin_closed_returns:
  assumes "jobs \<noteq> []"
  shows "\<exists>d q. pop_begin m e \<lparr>wq_jobs = jobs, wq_accepting = False\<rparr> = (PopReturn (Some d), q)"
proof (cases jobs)
  case (Cons j js)
  show ?thesis
  proof (cases j)
    case (Groupable g)
    then show ?thesis using collect_closed [of m e "[g]" js] by (auto simp: pop_begin_def Cons)
  qed (simp add: pop_begin_def Cons)
qed (use assms in simp)

lemma pop_begin_closed:
  assumes "\<not> wq_accepting q" "pop_begin m e q = (PopReturn (Some d), q')"
  shows "length (wq_jobs q') < length (wq_jobs q) \<and> wq_jobs q = jobs_of d @ wq_jobs q'"
proof (cases "wq_jobs q")
  case Nil
  then show ?thesis using assms by (simp add: pop_begin_def)
next
  case (Cons j js)
  show ?thesis
  proof (cases j)
    case (Exclusive x c)
    then show ?thesis using assms Cons by (auto simp: pop_begin_def)
  next
    case (Groupable g)
    obtain gs rest where "collect m e [g] js False = (PopReturn (Some (DGroup ([g] @ gs))), rest)"
      "js = map Groupable gs @ rest" "length rest \<le> length js" using collect_closed [of m e "[g]" js] by blast
    then show ?thesis using assms Cons Groupable by (auto simp: pop_begin_def)
  qed
qed

lemmas pop_begin_closed_shorter = pop_begin_closed [THEN conjunct1] pop_begin_closed [THEN conjunct2]

lemma drain_shorter:
  "(PopReturn (Some d), q) = pop_begin m e \<lparr>wq_jobs = jobs, wq_accepting = False\<rparr> \<Longrightarrow> length (wq_jobs q) < length jobs"
  using pop_begin_closed_shorter(1) [of "\<lparr>wq_jobs = jobs, wq_accepting = False\<rparr>" m e d q] by simp

function writer_drain ::
  "'db Engine \<Rightarrow> nat \<Rightarrow> (('db, 'a, 'r) ExclusiveWrite, 'r GroupableWrite) WriteJob list
     \<Rightarrow> ('db, 'a, 'r) writer_state \<Rightarrow> unit result \<times> ('db, 'a, 'r) writer_state" where
  "writer_drain eng max_jobs jobs w =
     (case pop_begin max_jobs True \<lparr>wq_jobs = jobs, wq_accepting = False\<rparr> of
        (PopReturn (Some job), q) \<Rightarrow> writer_drain eng max_jobs (wq_jobs q) (writer_body eng job w)
      | _ \<Rightarrow> (close eng (ws_db w), w))"
  by pat_completeness auto

termination
  by (relation "measure (\<lambda>(eng, m, jobs, w). length jobs)") (auto intro: drain_shorter)

declare writer_drain.simps [simp del]

section \<open>Every job is answered\<close>

fun job_channel :: "(('db, 'a, 'r) ExclusiveWrite, 'r GroupableWrite) WriteJob \<Rightarrow> 'r" where
  "job_channel (Exclusive x _) = xw_response x"
| "job_channel (Groupable g) = gw_response g"

lemma run_after_write_answers [simp]: "ws_answers (run_after_write eng w) = ws_answers w"
  by (simp add: run_after_write_def split: prod.splits)

lemma set_active_answers [simp]: "ws_answers (set_active b w) = ws_answers w" "ws_db (set_active b w) = ws_db w"
  by (simp_all add: set_active_def)

lemma execute_group_commit_channels:
  assumes "execute_group_commit eng jobs m d = (g, m', d')"
  shows "map fst (gc_responses g) = map gw_response jobs"
proof -
  have fin: "map fst (gc_responses g) = map fst rs" if "finish_group eng rs f d2 = (g, d')" for rs f d2
    using that by (auto simp: finish_group_def split_beta split: option.splits prod.splits sum.splits)
  have loop: "map fst rs = map gw_response jobs" if "group_loop eng jobs None [] t = (rs, f, d2)" for t rs f d2
    using group_loop_responses [OF that] by auto
  show ?thesis
    using assms
    by (auto simp: execute_group_commit_def Let_def comp_def fin loop split: prod.splits sum.splits)
qed

lemma writer_body_answers:
  "map fst (ws_answers (writer_body eng job w)) = map fst (ws_answers w) @ map job_channel (jobs_of job)"
proof (cases job)
  case (DExclusive x c)
  then show ?thesis by (simp add: Let_def split: prod.splits)
next
  case (DGroup gs)
  obtain g m d where g: "execute_group_commit eng gs (ws_metrics (set_active True w)) (ws_db w) = (g, m, d)"
    using prod_cases3 by blast
  then show ?thesis
    using execute_group_commit_channels [OF g] DGroup by (simp add: Let_def comp_def split_beta)
qed

lemma writer_loop_answers:
  "map fst (ws_answers (snd (writer_loop eng jobs w))) =
     map fst (ws_answers w) @ map job_channel (concat (map jobs_of jobs))"
  by (induction jobs arbitrary: w) (simp_all add: writer_body_answers del: writer_body.simps)

lemma writer_drain_eq:
  "\<exists>ds. writer_drain eng m jobs w = writer_loop eng ds w \<and> concat (map jobs_of ds) = jobs"
proof (induction eng m jobs w rule: writer_drain.induct)
  case (1 eng m jobs w)
  let ?q = "\<lparr>wq_jobs = jobs, wq_accepting = False\<rparr>"
  show ?case
  proof (cases "jobs = []")
    case True
    then show ?thesis
      by (subst writer_drain.simps) (auto simp: pop_begin_def intro: exI [of _ "[]"])
  next
    case False
    then obtain d q where p: "pop_begin m True ?q = (PopReturn (Some d), q)"
      using pop_begin_closed_returns by blast
    have jobs: "jobs = jobs_of d @ wq_jobs q" using pop_begin_closed_shorter(2) [OF _ p] by simp
    obtain ds where "writer_drain eng m (wq_jobs q) (writer_body eng d w) = writer_loop eng ds (writer_body eng d w)"
      "concat (map jobs_of ds) = wq_jobs q"
      using 1 [OF p [symmetric] refl refl] by blast
    then show ?thesis
      using jobs p by (subst writer_drain.simps) (auto intro!: exI [of _ "d # ds"])
  qed
qed


definition note_job :: "(mem_db, nat, nat) ExclusiveWrite" where
  "note_job = \<lparr>xw_run = catch_operation (\<lambda>rt m db. (None, rt, m, db)), xw_response = 9\<rparr>"

definition note_start :: "((mem_db, nat, nat) ExclusiveWrite, nat GroupableWrite) queue_system" where
  "note_start = \<lparr>qs_queue = write_queue_new, qs_writer = WIdle, qs_pushers = [], qs_accepted = [], qs_delivered = []\<rparr>"

definition note_run :: "((mem_db, nat, nat) ExclusiveWrite, nat GroupableWrite) queue_system list" where
  "note_run =
     (let a = after_push (Exclusive note_job True) Wait (push_begin 2 (Exclusive note_job True) Wait (qs_queue note_start)) note_start;
          b = after_pop (pop_begin 4 True (qs_queue a)) a;
          c = b\<lparr>qs_queue := close_queue (qs_queue b)\<rparr>
      in [a, b, c, after_pop (pop_begin 4 True (qs_queue c)) c])"

lemma four_steps: "r a b \<Longrightarrow> r b c \<Longrightarrow> r c d \<Longrightarrow> r d e \<Longrightarrow> r\<^sup>*\<^sup>* a e" for r
  by (rule converse_rtranclp_into_rtranclp [of r a b], assumption,
      rule converse_rtranclp_into_rtranclp [of r b c], assumption,
      rule converse_rtranclp_into_rtranclp [of r c d], assumption, rule r_into_rtranclp [of r d e])

lemma note_run_steps: "(queue_step 2 4)\<^sup>*\<^sup>* note_start (last note_run)"
proof -
  have 1: "queue_step 2 4 note_start (note_run ! 0)"
    unfolding note_run_def Let_def nth_Cons_0 by (rule submit)
  have 2: "queue_step 2 4 (note_run ! 0) (note_run ! 1)"
    unfolding note_run_def Let_def One_nat_def nth_Cons_0 nth_Cons_Suc
    by (rule pop) (simp add: note_start_def after_push_def push_begin_def push_finish_def write_queue_new_def)
  have 3: "queue_step 2 4 (note_run ! 1) (note_run ! 2)"
    unfolding note_run_def Let_def One_nat_def numeral_2_eq_2 nth_Cons_0 nth_Cons_Suc by (rule shut)
  have 4: "queue_step 2 4 (note_run ! 2) (note_run ! 3)"
    unfolding note_run_def Let_def numeral_2_eq_2 numeral_3_eq_3 nth_Cons_0 nth_Cons_Suc
    by (rule pop) (simp add: note_start_def after_push_def after_pop_def push_begin_def push_finish_def
        write_queue_new_def pop_begin_def)
  have last: "last note_run = note_run ! 3" by (simp add: note_run_def Let_def)
  show ?thesis
    unfolding last
    by (rule four_steps [of "queue_step 2 4"]) fact+
qed


text \<open>
  Claim C38. The writer thread ends. On a closed queue the loop of \<^verbatim>\<open>writer_main\<close> is a terminating function
  for every engine, group limit and backlog: it runs every waiting job in order, answers each of them once, and
  returns the result of closing the connection.
\<close>

theorem closed_queue_drains:
  "map fst (ws_answers (snd (writer_drain eng max_jobs jobs w))) = map fst (ws_answers w) @ map job_channel jobs \<and>
   fst (writer_drain eng max_jobs jobs w) = close eng (ws_db (snd (writer_drain eng max_jobs jobs w)))"
proof -
  obtain ds where ds: "writer_drain eng max_jobs jobs w = writer_loop eng ds w" "concat (map jobs_of ds) = jobs"
    using writer_drain_eq by blast
  have "fst (writer_loop eng ds w) = close eng (ws_db (snd (writer_loop eng ds w)))"
    by (induction ds arbitrary: w) simp_all
  then show ?thesis using ds writer_loop_answers [of eng ds w] by simp
qed

section \<open>The maintenance schedule\<close>

definition calm :: "'db Engine \<Rightarrow> u32 \<Rightarrow> bool" where
  "calm eng limit \<longleftrightarrow> (\<forall>db r db'. checkpoint eng Passive db = (Inr r, db') \<longrightarrow> unwrap_or 0 (remaining_frames r) \<le> limit)"

definition attempts :: "PoolMetrics \<Rightarrow> u64" where
  "attempts m = automatic_checkpoint_runs m + maintenance_failures m"

definition on_schedule :: "WalMaintenanceOptions \<Rightarrow> nat \<Rightarrow> WriterRuntime \<Rightarrow> bool" where
  "on_schedule o' c rt \<longleftrightarrow> wr_maintenance rt = o' \<and> wmo_enabled o' \<and> \<not> wr_wal_pressure rt \<and>
     unat (wr_commits_since_maintenance rt) = c \<and> c < unat (wmo_checkpoint_interval_commits o')"

lemma record_checkpoint_calm:
  assumes "unwrap_or 0 (remaining_frames r) \<le> wmo_wal_soft_limit_frames (wr_maintenance rt)" "\<not> wr_wal_pressure rt"
  shows "record_checkpoint r True (rt, m) = (rt', m') \<Longrightarrow> rt' = rt \<and> attempts m' = attempts m + 1"
  using assms by (auto simp: record_checkpoint_def Let_def attempts_def not_less [symmetric])

lemma after_write_step:
  assumes "on_schedule o' c rt" "calm eng (wmo_wal_soft_limit_frames o')" "after_write eng (rt, m, db) = (rt', m', db')"
  shows "if Suc c = unat (wmo_checkpoint_interval_commits o')
    then on_schedule o' 0 rt' \<and> attempts m' = attempts m + 1
    else on_schedule o' (Suc c) rt' \<and> attempts m' = attempts m"
proof -
  let ?k = "wmo_checkpoint_interval_commits o'"
  have rt: "wr_maintenance rt = o'" "wmo_enabled o'" "\<not> wr_wal_pressure rt" "unat (wr_commits_since_maintenance rt) = c"
    "c < unat ?k" using assms(1) by (auto simp: on_schedule_def)
  let ?rt1 = "rt\<lparr>wr_commits_since_maintenance := saturating_add (wr_commits_since_maintenance rt) 1\<rparr>"
  have "c + 1 < 2 ^ 64" using rt(5) unsigned_less [of ?k, where ?'a = nat] by simp
  then have n: "unat (saturating_add (wr_commits_since_maintenance rt) 1) = Suc c"
    using rt(4) by (simp add: unat_saturating_add)
  show ?thesis
  proof (cases "Suc c = unat ?k")
    case False
    then have "saturating_add (wr_commits_since_maintenance rt) 1 < ?k"
      using rt(5) n by (simp add: word_less_nat_alt)
    then have "rt' = ?rt1" "m' = m" using assms(3) rt by (auto simp: after_write_def Let_def)
    then show ?thesis using False rt n by (auto simp: on_schedule_def)
  next
    case True
    then have "\<not> saturating_add (wr_commits_since_maintenance rt) 1 < ?k" using n by (simp add: word_less_nat_alt)
    moreover obtain r d where ck: "checkpoint eng Passive db = (r, d)" by fastforce
    moreover have "on_schedule o' 0 (rt\<lparr>wr_commits_since_maintenance := 0\<rparr>)"
      using rt by (auto simp: on_schedule_def)
    moreover have "unwrap_or 0 (remaining_frames x) \<le> wmo_wal_soft_limit_frames o'" if "r = Inr x" for x
      using assms(2) ck that unfolding calm_def by blast
    ultimately show ?thesis
      using assms(3) rt True record_checkpoint_calm [of _ "rt\<lparr>wr_commits_since_maintenance := 0\<rparr>" m]
      by (cases r) (auto simp: after_write_def Let_def attempts_def [of "m\<lparr>maintenance_failures := _\<rparr>"]
        attempts_def [of m] split: prod.splits)
  qed
qed

lemma after_write_schedule:
  assumes "on_schedule o' c rt" "calm eng (wmo_wal_soft_limit_frames o')"
    and "(after_write eng ^^ n) (rt, m, db) = (rt', m', db')"
  shows "on_schedule o' ((c + n) mod unat (wmo_checkpoint_interval_commits o')) rt' \<and>
    attempts m' = attempts m + of_nat ((c + n) div unat (wmo_checkpoint_interval_commits o'))"
  using assms(3)
proof (induction n arbitrary: rt' m' db')
  case 0
  then show ?case using assms(1) by (auto simp: on_schedule_def)
next
  case (Suc n)
  let ?k = "unat (wmo_checkpoint_interval_commits o')"
  obtain rt1 m1 db1 where s1: "(after_write eng ^^ n) (rt, m, db) = (rt1, m1, db1)" using prod_cases3 by blast
  have step: "after_write eng (rt1, m1, db1) = (rt', m', db')" using Suc.prems s1 by simp
  note IH = Suc.IH [OF s1]
  have kpos: "0 < ?k" using assms(1) by (auto simp: on_schedule_def)
  show ?case
    using after_write_step [OF _ assms(2) step] IH kpos
    by (auto simp: mod_Suc div_Suc algebra_simps split: if_splits)
qed

text \<open>
  Automatic maintenance runs exactly on schedule. With maintenance enabled at interval \<open>k\<close> and
  checkpoints that never leave more frames than the soft limit, \<open>n\<close> committed writes from a fresh
  runtime make exactly \<open>n div k\<close> passive checkpoint attempts, counted as runs or as failures, and leave the commit
  counter at \<open>n mod k\<close>.
\<close>

lemma maintenance_on_schedule:
  assumes "wmo_enabled o'" "wmo_checkpoint_interval_commits o' \<noteq> 0" "calm eng (wmo_wal_soft_limit_frames o')"
    and "(after_write eng ^^ n) (writer_runtime_new o', m, db) = (rt', m', db')"
  shows "automatic_checkpoint_runs m' + maintenance_failures m' =
      automatic_checkpoint_runs m + maintenance_failures m + of_nat (n div unat (wmo_checkpoint_interval_commits o')) \<and>
    unat (wr_commits_since_maintenance rt') = n mod unat (wmo_checkpoint_interval_commits o')"
proof -
  have "0 < unat (wmo_checkpoint_interval_commits o')" using assms(2) by (simp add: unat_gt_0)
  then have "on_schedule o' 0 (writer_runtime_new o')"
    using assms(1) by (simp add: on_schedule_def writer_runtime_new_def)
  from after_write_schedule [OF this assms(3,4)] show ?thesis by (simp add: on_schedule_def attempts_def)
qed

fun onsets :: "u32 \<Rightarrow> bool \<Rightarrow> CheckpointResult list \<Rightarrow> nat" where
  "onsets limit before [] = 0"
| "onsets limit before (r # rs) =
     (let now = (unwrap_or 0 (remaining_frames r) > limit) in
      (if now \<and> \<not> before then 1 else 0) + onsets limit now rs)"

lemma record_checkpoint_pressure:
  assumes "record_checkpoint r automatic (rt, m) = (rt', m')"
  shows "wr_maintenance rt' = wr_maintenance rt"
    "wr_wal_pressure rt' = (unwrap_or 0 (remaining_frames r) > wmo_wal_soft_limit_frames (wr_maintenance rt))"
    "wal_pressure_active m' = wr_wal_pressure rt'"
    "wal_pressure_events m' = wal_pressure_events m + (if wr_wal_pressure rt' \<and> \<not> wr_wal_pressure rt then 1 else 0)"
  using assms by (auto simp: record_checkpoint_def Let_def)

text \<open>
  WAL pressure is reported once per episode. Over any sequence of recorded checkpoints the
  pressure flag of the runtime and of the metrics agree and say whether the last checkpoint left more
  frames than the soft limit, and the event counter grows by the number of times the flag went from off to on.
\<close>

lemma pressure_events_count_onsets:
  assumes "fold (\<lambda>(r, automatic). record_checkpoint r automatic) rs (rt, m) = (rt', m')"
  shows "wal_pressure_events m' = wal_pressure_events m +
      of_nat (onsets (wmo_wal_soft_limit_frames (wr_maintenance rt)) (wr_wal_pressure rt) (map fst rs)) \<and>
    (rs \<noteq> [] \<longrightarrow> wal_pressure_active m' = wr_wal_pressure rt' \<and>
      wr_wal_pressure rt' =
        (unwrap_or 0 (remaining_frames (fst (last rs))) > wmo_wal_soft_limit_frames (wr_maintenance rt)))"
  using assms
proof (induction rs arbitrary: rt m)
  case (Cons x rs)
  obtain r a where x: "x = (r, a)" by (cases x)
  obtain rt1 m1 where s: "record_checkpoint r a (rt, m) = (rt1, m1)" by fastforce
  note step = record_checkpoint_pressure [OF s]
  have rest: "fold (\<lambda>(r, automatic). record_checkpoint r automatic) rs (rt1, m1) = (rt', m')"
    using Cons.prems x s by simp
  show ?case
    using Cons.IH [OF rest] rest step by (cases "rs = []") (auto simp: x Let_def)
qed simp

end
