(* ===== verification/Read_Pool.thy ===== *)
theory Read_Pool
  imports Writer "HOL-Library.Multiset"
begin

text \<open>
  The bounded reader pool and the re-entrancy guards of \<^verbatim>\<open>csgdb/src/pool.rs\<close>: checkout and return
  of connections, the thread-local list of pools whose read callback is running, submission of
  writes, writer-side maintenance commands and shutdown.
\<close>

section \<open>Connections\<close>

record 'c ReadPool =
  rdp_capacity :: nat
  rdp_connections :: "'c list"
  rdp_active :: usize
  rdp_rejected_checkouts :: u64

definition read_pool_new :: "'c list \<Rightarrow> 'c ReadPool" where
  "read_pool_new connections =
     \<lparr>rdp_capacity = length connections, rdp_connections = connections, rdp_active = 0, rdp_rejected_checkouts = 0\<rparr>"

definition read_pool_exhausted :: Error where
  "read_pool_exhausted = Error ReadPoolExhausted ''all read connections are currently checked out''"

text \<open>\<^verbatim>\<open>Vec::pop\<close> takes the last connection; \<^const>\<open>None\<close> means waiting on \<^verbatim>\<open>available\<close>.\<close>

definition take_connection :: "'c ReadPool \<Rightarrow> ('c \<times> 'c ReadPool) option" where
  "take_connection p =
     (if rdp_connections p = [] then None
      else Some (last (rdp_connections p),
        p\<lparr>rdp_connections := butlast (rdp_connections p), rdp_active := rdp_active p + 1\<rparr>))"

definition checkout :: "'c ReadPool \<Rightarrow> ('c \<times> 'c ReadPool) option" where
  "checkout p = take_connection p"

definition try_checkout :: "'c ReadPool \<Rightarrow> 'c result \<times> 'c ReadPool" where
  "try_checkout p =
     (case take_connection p of
        Some (c, p') \<Rightarrow> (Inr c, p')
      | None \<Rightarrow> (Inl read_pool_exhausted, p\<lparr>rdp_rejected_checkouts := rdp_rejected_checkouts p + 1\<rparr>))"

definition lease_drop :: "'c \<Rightarrow> 'c ReadPool \<Rightarrow> 'c ReadPool" where
  "lease_drop c p = p\<lparr>rdp_connections := rdp_connections p @ [c], rdp_active := rdp_active p - 1\<rparr>"

definition counts :: "'c ReadPool \<Rightarrow> nat \<times> usize" where
  "counts p = (length (rdp_connections p), rdp_active p)"

fun close_all :: "('c \<Rightarrow> unit result) \<Rightarrow> 'c list \<Rightarrow> unit result \<Rightarrow> unit result" where
  "close_all close_one [] r = r"
| "close_all close_one (c # cs) r =
     (case close_one c of
        Inl e \<Rightarrow> close_all close_one cs (if is_ok r then Inl e else r)
      | Inr _ \<Rightarrow> close_all close_one cs r)"

definition close_connections :: "('c \<Rightarrow> unit result) \<Rightarrow> 'c ReadPool \<Rightarrow> unit result \<times> 'c ReadPool" where
  "close_connections close_one p =
     (close_all close_one (rdp_connections p) (Inr ()), p\<lparr>rdp_connections := []\<rparr>)"

section \<open>Guards\<close>

definition reentrant_read :: Error where
  "reentrant_read = Error ReentrantRead ''a read callback cannot synchronously check out from the same pool''"

definition reentrant_write :: Error where
  "reentrant_write = Error ReentrantWrite ''a database callback cannot synchronously submit a nested write''"

definition guard_enter :: "nat \<Rightarrow> nat list \<Rightarrow> nat list result" where
  "guard_enter pool_id pools =
     (if pool_id \<in> set pools then Inl reentrant_read else Inr (pools @ [pool_id]))"

text \<open>\<^verbatim>\<open>rposition\<close> and \<^verbatim>\<open>remove\<close>: the last occurrence goes.\<close>

definition guard_drop :: "nat \<Rightarrow> nat list \<Rightarrow> nat list" where
  "guard_drop pool_id pools = rev (remove1 pool_id (rev pools))"

definition in_read_callback :: "nat \<Rightarrow> nat list \<Rightarrow> bool" where
  "in_read_callback pool_id pools = (pool_id \<in> set pools)"

text \<open>
  A read callback runs with the guard held and a lease in hand; both are given back in reverse
  order, whatever the callback returns. The callback may change its connection and, through
  further pools, the thread's guard list, which it restores.
\<close>

definition with_lease ::
  "nat \<Rightarrow> ('c \<Rightarrow> 'a result \<times> 'c) \<Rightarrow> 'c \<Rightarrow> nat list \<Rightarrow> 'c ReadPool \<Rightarrow> 'a result \<times> nat list \<times> 'c ReadPool" where
  "with_lease pool_id operation lease pools p =
     (case operation lease of (r, lease') \<Rightarrow> (r, guard_drop pool_id pools, lease_drop lease' p))"

definition try_read ::
  "nat \<Rightarrow> ('c \<Rightarrow> 'a result \<times> 'c) \<Rightarrow> nat list \<Rightarrow> 'c ReadPool \<Rightarrow> 'a result \<times> nat list \<times> 'c ReadPool" where
  "try_read pool_id operation pools p =
     (case guard_enter pool_id pools of
        Inl e \<Rightarrow> (Inl e, pools, p)
      | Inr pools' \<Rightarrow>
          (case try_checkout p of
             (Inl e, p') \<Rightarrow> (Inl e, guard_drop pool_id pools', p')
           | (Inr lease, p') \<Rightarrow> with_lease pool_id operation lease pools' p'))"

text \<open>\<^verbatim>\<open>read\<close> when a connection is there; \<^const>\<open>None\<close> while it waits.\<close>

definition pool_read ::
  "nat \<Rightarrow> ('c \<Rightarrow> 'a result \<times> 'c) \<Rightarrow> nat list \<Rightarrow> 'c ReadPool \<Rightarrow> ('a result \<times> nat list \<times> 'c ReadPool) option" where
  "pool_read pool_id operation pools p =
     (case guard_enter pool_id pools of
        Inl e \<Rightarrow> Some (Inl e, pools, p)
      | Inr pools' \<Rightarrow>
          (case checkout p of
             None \<Rightarrow> None
           | Some (lease, p') \<Rightarrow> Some (with_lease pool_id operation lease pools' p')))"

section \<open>Submitting writes\<close>

definition submission_allowed :: "bool \<Rightarrow> nat \<Rightarrow> nat list \<Rightarrow> unit result" where
  "submission_allowed in_write_worker pool_id pools =
     (if in_write_worker \<or> in_read_callback pool_id pools then Inl reentrant_write else Inr ())"

definition count_push :: "unit result \<Rightarrow> PoolMetrics \<Rightarrow> PoolMetrics" where
  "count_push r m =
     (case r of
        Inl e \<Rightarrow>
          if err_code e = WriteQueueFull \<or> err_code e = WriteQueueTimeout
          then m\<lparr>write_jobs_rejected := write_jobs_rejected m + 1\<rparr> else m
      | Inr _ \<Rightarrow> m\<lparr>write_jobs_submitted := write_jobs_submitted m + 1\<rparr>)"

text \<open>
  \<^verbatim>\<open>write_internal\<close> and \<^verbatim>\<open>submit_groupable\<close> up to the wait for the response: the re-entrancy check,
  the push under the policy, and the metrics. \<^const>\<open>None\<close> means blocked in the push.
\<close>

definition submit ::
  "nat \<Rightarrow> bool \<Rightarrow> nat \<Rightarrow> nat list \<Rightarrow> ('x, 'g) WriteJob \<Rightarrow> WriteBackpressure
     \<Rightarrow> ('x, 'g) WriteQueueState \<times> PoolMetrics \<Rightarrow> (unit result \<times> ('x, 'g) WriteQueueState \<times> PoolMetrics) option" where
  "submit capacity in_write_worker pool_id pools job policy st =
     (case st of (q, m) \<Rightarrow>
        (case submission_allowed in_write_worker pool_id pools of
           Inl e \<Rightarrow> Some (Inl e, q, m)
         | Inr _ \<Rightarrow>
             (case push_begin capacity job policy q of
                (None, _) \<Rightarrow> None
              | (Some r, q') \<Rightarrow> Some (r, q', count_push r m))))"

type_synonym ('db, 'a, 'r) pool_operation =
  "WriterRuntime \<Rightarrow> PoolMetrics \<Rightarrow> 'db \<Rightarrow> 'a result option \<times> WriterRuntime \<times> PoolMetrics \<times> 'db"

type_synonym ('db, 'a, 'r) pool_queue =
  "(('db, 'a, 'r) ExclusiveWrite, 'r GroupableWrite) WriteQueueState"

definition write_internal ::
  "nat \<Rightarrow> bool \<Rightarrow> nat \<Rightarrow> nat list \<Rightarrow> WriteBackpressure \<Rightarrow> bool \<Rightarrow> ('db, 'a, 'r) pool_operation \<Rightarrow> 'r
     \<Rightarrow> ('db, 'a, 'r) pool_queue \<times> PoolMetrics \<Rightarrow> (unit result \<times> ('db, 'a, 'r) pool_queue \<times> PoolMetrics) option" where
  "write_internal capacity worker pool_id pools policy counts_as_write operation channel =
     submit capacity worker pool_id pools
       (Exclusive \<lparr>xw_run = catch_operation operation, xw_response = channel\<rparr> counts_as_write) policy"

text \<open>A caller's write callback sees the connection only, not the runtime.\<close>

definition write_with_policy ::
  "nat \<Rightarrow> bool \<Rightarrow> nat \<Rightarrow> nat list \<Rightarrow> WriteBackpressure \<Rightarrow> ('db \<Rightarrow> 'a result option \<times> 'db) \<Rightarrow> 'r
     \<Rightarrow> ('db, 'a, 'r) pool_queue \<times> PoolMetrics \<Rightarrow> (unit result \<times> ('db, 'a, 'r) pool_queue \<times> PoolMetrics) option" where
  "write_with_policy capacity worker pool_id pools policy operation channel =
     write_internal capacity worker pool_id pools policy True
       (\<lambda>rt m db. case operation db of (r, db') \<Rightarrow> (r, rt, m, db')) channel"

definition pool_write ::
  "nat \<Rightarrow> bool \<Rightarrow> nat \<Rightarrow> nat list \<Rightarrow> ('db \<Rightarrow> 'a result option \<times> 'db) \<Rightarrow> 'r
     \<Rightarrow> ('db, 'a, 'r) pool_queue \<times> PoolMetrics \<Rightarrow> (unit result \<times> ('db, 'a, 'r) pool_queue \<times> PoolMetrics) option" where
  "pool_write capacity worker pool_id pools operation channel =
     write_with_policy capacity worker pool_id pools Wait operation channel"

definition try_write ::
  "nat \<Rightarrow> bool \<Rightarrow> nat \<Rightarrow> nat list \<Rightarrow> ('db \<Rightarrow> 'a result option \<times> 'db) \<Rightarrow> 'r
     \<Rightarrow> ('db, 'a, 'r) pool_queue \<times> PoolMetrics \<Rightarrow> (unit result \<times> ('db, 'a, 'r) pool_queue \<times> PoolMetrics) option" where
  "try_write capacity worker pool_id pools operation channel =
     write_with_policy capacity worker pool_id pools Reject operation channel"

definition submit_groupable ::
  "nat \<Rightarrow> bool \<Rightarrow> nat \<Rightarrow> nat list \<Rightarrow> BatchStatement list \<Rightarrow> WriteBackpressure \<Rightarrow> 'r
     \<Rightarrow> ('db, 'a, 'r) pool_queue \<times> PoolMetrics \<Rightarrow> (unit result \<times> ('db, 'a, 'r) pool_queue \<times> PoolMetrics) option" where
  "submit_groupable capacity worker pool_id pools statements policy channel =
     submit capacity worker pool_id pools (Groupable \<lparr>gw_statements = statements, gw_response = channel\<rparr>) policy"

text \<open>\<^verbatim>\<open>execute\<close> submits one statement and returns the first change count of the answer.\<close>

definition first_change :: "nat list result \<Rightarrow> nat result" where
  "first_change answer =
     bind_result answer (\<lambda>changes. Inr (case changes of [] \<Rightarrow> 0 | n # _ \<Rightarrow> n))"

section \<open>Maintenance commands on the writer\<close>

definition checkpoint_command ::
  "'db Engine \<Rightarrow> string option \<Rightarrow> CheckpointMode \<Rightarrow> WriterRuntime \<Rightarrow> PoolMetrics \<Rightarrow> 'db
     \<Rightarrow> CheckpointResult result \<times> WriterRuntime \<times> PoolMetrics \<times> 'db" where
  "checkpoint_command eng database_name mode rt m db =
     (case checkpoint_database eng database_name mode db of
        (Inl e, db') \<Rightarrow> (Inl e, rt, m, db')
      | (Inr r, db') \<Rightarrow> (case record_checkpoint r False (rt, m) of (rt, m) \<Rightarrow> (Inr r, rt, m, db')))"

definition autocheckpoint_command ::
  "'db Engine \<Rightarrow> u32 \<Rightarrow> WriterRuntime \<Rightarrow> PoolMetrics \<Rightarrow> 'db
     \<Rightarrow> unit result \<times> WriterRuntime \<times> PoolMetrics \<times> 'db" where
  "autocheckpoint_command eng frames rt m db =
     (case set_wal_autocheckpoint eng frames db of
        (Inl e, db') \<Rightarrow> (Inl e, rt, m, db')
      | (Inr _, db') \<Rightarrow>
          (Inr (), disable_automatic_maintenance rt,
           m\<lparr>automatic_maintenance_enabled := False, wal_pressure_active := False\<rparr>, db'))"

definition maintenance_command ::
  "'db Engine \<Rightarrow> WalMaintenanceOptions \<Rightarrow> WriterRuntime \<Rightarrow> PoolMetrics \<Rightarrow> 'db
     \<Rightarrow> unit result \<times> WriterRuntime \<times> PoolMetrics \<times> 'db" where
  "maintenance_command eng options rt m db =
     (case set_wal_autocheckpoint eng 0 db of
        (Inl e, db') \<Rightarrow> (Inl e, rt, m, db')
      | (Inr _, db') \<Rightarrow>
          (Inr (), set_automatic_maintenance options rt,
           m\<lparr>automatic_maintenance_enabled := wmo_enabled options, wal_pressure_active := False\<rparr>, db'))"

section \<open>Shutdown\<close>

text \<open>How the writer thread is found: none left, the current thread, panicked, or ended with a result.\<close>

datatype JoinOutcome = NoThread | SameThread | Panicked | Joined "unit result"

definition writer_stopped :: Error where
  "writer_stopped = Error Storage ''database writer thread stopped unexpectedly''"

definition shutdown ::
  "('c \<Rightarrow> unit result) \<Rightarrow> JoinOutcome \<Rightarrow> ('x, 'g) WriteQueueState \<times> 'c ReadPool
     \<Rightarrow> unit result \<times> ('x, 'g) WriteQueueState \<times> 'c ReadPool" where
  "shutdown close_one writer_thread st =
     (case st of (q, p) \<Rightarrow>
        let q = close_queue q in
        if writer_thread = Panicked then (Inl writer_stopped, q, p)
        else
          let writer_result = (case writer_thread of Joined r \<Rightarrow> r | _ \<Rightarrow> Inr ()) in
          (case close_connections close_one p of
             (reader_result, p') \<Rightarrow> (bind_result writer_result (\<lambda>_. reader_result), q, p')))"

definition manager_in_use :: Error where
  "manager_in_use = Error ConnectionManagerInUse ''database pool cannot close while shared handles remain''"

definition pool_close ::
  "nat \<Rightarrow> ('c \<Rightarrow> unit result) \<Rightarrow> JoinOutcome \<Rightarrow> ('x, 'g) WriteQueueState \<times> 'c ReadPool
     \<Rightarrow> unit result \<times> ('x, 'g) WriteQueueState \<times> 'c ReadPool" where
  "pool_close handles close_one writer_thread st =
     (if handles = 1 then shutdown close_one writer_thread st else (Inl manager_in_use, st))"

section \<open>All interleavings of readers\<close>

record 'c lending =
  ld_pool :: "'c ReadPool"
  ld_leased :: "'c list"

inductive lending_step :: "'c lending \<Rightarrow> 'c lending \<Rightarrow> bool" where
  lend: "checkout (ld_pool s) = Some (c, p) \<Longrightarrow>
     lending_step s \<lparr>ld_pool = p, ld_leased = ld_leased s @ [c]\<rparr>"
| try_lend: "try_checkout (ld_pool s) = (Inr c, p) \<Longrightarrow>
     lending_step s \<lparr>ld_pool = p, ld_leased = ld_leased s @ [c]\<rparr>"
| refuse: "try_checkout (ld_pool s) = (Inl e, p) \<Longrightarrow>
     lending_step s \<lparr>ld_pool = p, ld_leased = ld_leased s\<rparr>"
| give_back: "ld_leased s = before @ c # behind \<Longrightarrow>
     lending_step s \<lparr>ld_pool = lease_drop c (ld_pool s), ld_leased = before @ behind\<rparr>"

definition lending_start :: "'c list \<Rightarrow> 'c lending \<Rightarrow> bool" where
  "lending_start cs s \<longleftrightarrow> s = \<lparr>ld_pool = read_pool_new cs, ld_leased = []\<rparr>"

definition lending_inv :: "'c list \<Rightarrow> 'c lending \<Rightarrow> bool" where
  "lending_inv cs s \<longleftrightarrow>
     mset (rdp_connections (ld_pool s)) + mset (ld_leased s) = mset cs \<and>
     rdp_active (ld_pool s) = of_nat (length (ld_leased s)) \<and> rdp_capacity (ld_pool s) = length cs"

lemma take_connection_Some:
  assumes "take_connection p = Some (c, p')"
  shows "rdp_connections p = rdp_connections p' @ [c]" "rdp_active p' = rdp_active p + 1" "rdp_capacity p' = rdp_capacity p"
  using assms by (auto simp: take_connection_def split: if_splits)

lemma take_connection_inv:
  assumes "take_connection (ld_pool s) = Some (c, p)" "lending_inv cs s"
  shows "lending_inv cs \<lparr>ld_pool = p, ld_leased = ld_leased s @ [c]\<rparr>"
  using assms(2) take_connection_Some [OF assms(1)] by (simp add: lending_inv_def)

lemma try_checkout_Inr: "try_checkout p = (Inr c, p') \<longleftrightarrow> take_connection p = Some (c, p')"
  by (auto simp: try_checkout_def split: option.splits)

lemma lending_step_inv: "lending_step s t \<Longrightarrow> lending_inv cs s \<Longrightarrow> lending_inv cs t"
proof (induction rule: lending_step.induct)
  case (lend s c p)
  then show ?case by (simp add: take_connection_inv checkout_def)
next
  case (try_lend s c p)
  then show ?case by (simp add: take_connection_inv try_checkout_Inr)
next
  case (refuse s e p)
  then show ?case by (auto simp: lending_inv_def try_checkout_def split: option.splits prod.splits)
next
  case (give_back s before c behind)
  then show ?case by (simp add: lending_inv_def lease_drop_def)
qed

lemma lending_start_inv: "lending_start cs s \<Longrightarrow> lending_inv cs s"
  by (simp add: lending_start_def lending_inv_def read_pool_new_def)

interpretation lending: invariant_machine "lending_start cs" lending_step "lending_inv cs" for cs
  by unfold_locales (auto intro: lending_step_inv lending_start_inv)



lemma guard_drop_enter: "guard_enter i pools = Inr pools' \<Longrightarrow> guard_drop i pools' = pools"
  by (auto simp: guard_enter_def guard_drop_def split: if_splits)



end
