(* ===== verification/Facade.thy ===== *)
theory Facade
  imports Storage_Open Read_Pool
begin

text \<open>
  The two ways into the library: \<^verbatim>\<open>Database\<close> with its builder (\<^verbatim>\<open>csgdb/src/lib.rs\<close>) and \<^verbatim>\<open>DatabasePool\<close> with its
  builder and its opening sequence (\<^verbatim>\<open>csgdb/src/pool.rs\<close>). Both resolve the open policy first and then open connections.
  Opening changes two external states: the key store \<open>'s\<close> behind the key provider, and the engine's world \<open>'w\<close>.
\<close>

section \<open>Connections of the storage adapter\<close>

type_synonym ('w, 'c) opening_result = "(('c \<times> SecurityMode) result \<times> 'w) option"

definition connection_open :: "('w, 'c) OpenEngine \<Rightarrow> ResolvedOpenPlan \<Rightarrow> 'w \<Rightarrow> ('w, 'c) opening_result" where
  "connection_open eng plan = open_with_access eng plan ReadWriteAccess SharedOwner (rp_cache_size_bytes plan)"

definition connection_open_single_owner ::
  "('w, 'c) OpenEngine \<Rightarrow> ResolvedOpenPlan \<Rightarrow> u64 \<Rightarrow> 'w \<Rightarrow> ('w, 'c) opening_result" where
  "connection_open_single_owner eng plan cache_size_bytes =
     open_with_access eng plan ReadWriteAccess SingleOwner cache_size_bytes"

definition connection_open_readonly :: "('w, 'c) OpenEngine \<Rightarrow> ResolvedOpenPlan \<Rightarrow> 'w \<Rightarrow> ('w, 'c) opening_result" where
  "connection_open_readonly eng plan = open_with_access eng plan ReadOnlyAccess SharedOwner (rp_cache_size_bytes plan)"

definition connection_open_readonly_single_owner ::
  "('w, 'c) OpenEngine \<Rightarrow> ResolvedOpenPlan \<Rightarrow> u64 \<Rightarrow> 'w \<Rightarrow> ('w, 'c) opening_result" where
  "connection_open_readonly_single_owner eng plan cache_size_bytes =
     open_with_access eng plan ReadOnlyAccess SingleOwner cache_size_bytes"

definition open_resolved :: "('w, 'c) OpenEngine \<Rightarrow> ResolvedOpenPlan \<Rightarrow> bool \<Rightarrow> 'w \<Rightarrow> ('w, 'c) opening_result" where
  "open_resolved eng plan readonly = (if readonly then connection_open_readonly eng plan else connection_open eng plan)"

definition open_resolved_single_owner ::
  "('w, 'c) OpenEngine \<Rightarrow> ResolvedOpenPlan \<Rightarrow> bool \<Rightarrow> u64 \<Rightarrow> 'w \<Rightarrow> ('w, 'c) opening_result" where
  "open_resolved_single_owner eng plan readonly cache_size_bytes =
     (if readonly then connection_open_readonly_single_owner eng plan cache_size_bytes
      else connection_open_single_owner eng plan cache_size_bytes)"

section \<open>The database builder\<close>

record 's DatabaseBuilder =
  bd_path :: string
  bd_options :: "'s OpenOptions"

definition builder_new :: "string \<Rightarrow> 's DatabaseBuilder" where
  "builder_new path = \<lparr>bd_path = path, bd_options = open_options_default\<rparr>"

definition builder_key :: "'s KeySource \<Rightarrow> 's DatabaseBuilder \<Rightarrow> 's DatabaseBuilder" where
  "builder_key key b = b\<lparr>bd_options := (bd_options b)\<lparr>oo_key := key\<rparr>\<rparr>"

definition builder_key_provider :: "'s KeyProvider \<Rightarrow> 's DatabaseBuilder \<Rightarrow> 's DatabaseBuilder" where
  "builder_key_provider provider b = b\<lparr>bd_options := (bd_options b)\<lparr>oo_auto_key_provider := Some provider\<rparr>\<rparr>"

definition builder_plaintext :: "'s DatabaseBuilder \<Rightarrow> 's DatabaseBuilder" where
  "builder_plaintext b =
     b\<lparr>bd_options := (bd_options b)\<lparr>oo_flags := sup (sup (sup READWRITE CREATE) PLAINTEXT) FULLMUTEX\<rparr>\<rparr>"

definition builder_flags :: "OpenFlags \<Rightarrow> 's DatabaseBuilder \<Rightarrow> 's DatabaseBuilder" where
  "builder_flags flags b = b\<lparr>bd_options := (bd_options b)\<lparr>oo_flags := flags\<rparr>\<rparr>"

definition builder_vfs :: "string \<Rightarrow> 's DatabaseBuilder \<Rightarrow> 's DatabaseBuilder" where
  "builder_vfs name b = b\<lparr>bd_options := (bd_options b)\<lparr>oo_vfs := Some name\<rparr>\<rparr>"

definition builder_options :: "'s OpenOptions \<Rightarrow> 's DatabaseBuilder \<Rightarrow> 's DatabaseBuilder" where
  "builder_options options b = b\<lparr>bd_options := options\<rparr>"

definition builder_plan :: "'s DatabaseBuilder \<Rightarrow> 's \<Rightarrow> ResolvedOpenPlan result \<times> 's" where
  "builder_plan b s =
     (case prepare_open (bd_path b) (bd_options b) of Inl e \<Rightarrow> (Inl e, s) | Inr plan \<Rightarrow> resolve_key plan s)"

text \<open>Planning, then opening; \<^const>\<open>None\<close> is a panic of the flag computation.\<close>

type_synonym ('s, 'w, 'a) opening_step = "'s \<times> 'w \<Rightarrow> ('a result \<times> 's \<times> 'w) option"

definition with_plan ::
  "'s DatabaseBuilder \<Rightarrow> (ResolvedOpenPlan \<Rightarrow> 'w \<Rightarrow> ('a result \<times> 'w) option) \<Rightarrow> ('s, 'w, 'a) opening_step" where
  "with_plan b operation st =
     (case st of (s, w) \<Rightarrow>
      case builder_plan b s of
        (Inl e, s) \<Rightarrow> Some (Inl e, s, w)
      | (Inr plan, s) \<Rightarrow> map_option (\<lambda>(r, w). (r, s, w)) (operation plan w))"

definition builder_open :: "('w, 'c) OpenEngine \<Rightarrow> 's DatabaseBuilder \<Rightarrow> ('s, 'w, 'c \<times> SecurityMode) opening_step" where
  "builder_open eng b = with_plan b (\<lambda>plan. open_resolved eng plan False)"

definition builder_open_single_owner ::
  "('w, 'c) OpenEngine \<Rightarrow> 's DatabaseBuilder \<Rightarrow> ('s, 'w, 'c \<times> SecurityMode) opening_step" where
  "builder_open_single_owner eng b =
     with_plan b (\<lambda>plan. open_resolved_single_owner eng plan False (rp_cache_size_bytes plan))"

section \<open>Opening a database\<close>

definition database_open :: "('w, 'c) OpenEngine \<Rightarrow> string \<Rightarrow> ('s, 'w, 'c \<times> SecurityMode) opening_step" where
  "database_open eng path = builder_open eng (builder_new path)"

definition database_open_with_key ::
  "('w, 'c) OpenEngine \<Rightarrow> string \<Rightarrow> 's KeySource \<Rightarrow> ('s, 'w, 'c \<times> SecurityMode) opening_step" where
  "database_open_with_key eng path key = builder_open eng (builder_key key (builder_new path))"

definition database_open_with_passphrase ::
  "('w, 'c) OpenEngine \<Rightarrow> string \<Rightarrow> u8 list \<Rightarrow> ('s, 'w, 'c \<times> SecurityMode) opening_step" where
  "database_open_with_passphrase eng path passphrase =
     database_open_with_key eng path (Passphrase (SecretString passphrase))"

definition database_open_plaintext ::
  "('w, 'c) OpenEngine \<Rightarrow> string \<Rightarrow> ('s, 'w, 'c \<times> SecurityMode) opening_step" where
  "database_open_plaintext eng path = builder_open eng (builder_plaintext (builder_new path))"


section \<open>The pool builder\<close>

record 's DatabasePoolBuilder =
  pb_database :: "'s DatabaseBuilder"
  pb_options :: PoolOptions

definition pool_builder_new :: "string \<Rightarrow> 's DatabasePoolBuilder" where
  "pool_builder_new path = \<lparr>pb_database = builder_new path, pb_options = pool_options_default\<rparr>"

definition pool_builder_key :: "'s KeySource \<Rightarrow> 's DatabasePoolBuilder \<Rightarrow> 's DatabasePoolBuilder" where
  "pool_builder_key key b = b\<lparr>pb_database := builder_key key (pb_database b)\<rparr>"

definition pool_builder_key_provider :: "'s KeyProvider \<Rightarrow> 's DatabasePoolBuilder \<Rightarrow> 's DatabasePoolBuilder" where
  "pool_builder_key_provider provider b = b\<lparr>pb_database := builder_key_provider provider (pb_database b)\<rparr>"

definition pool_builder_plaintext :: "'s DatabasePoolBuilder \<Rightarrow> 's DatabasePoolBuilder" where
  "pool_builder_plaintext b = b\<lparr>pb_database := builder_plaintext (pb_database b)\<rparr>"

definition pool_builder_flags :: "OpenFlags \<Rightarrow> 's DatabasePoolBuilder \<Rightarrow> 's DatabasePoolBuilder" where
  "pool_builder_flags flags b = b\<lparr>pb_database := builder_flags flags (pb_database b)\<rparr>"

definition pool_builder_open_options :: "'s OpenOptions \<Rightarrow> 's DatabasePoolBuilder \<Rightarrow> 's DatabasePoolBuilder" where
  "pool_builder_open_options options b = b\<lparr>pb_database := builder_options options (pb_database b)\<rparr>"

definition pool_builder_pool_options :: "PoolOptions \<Rightarrow> 's DatabasePoolBuilder \<Rightarrow> 's DatabasePoolBuilder" where
  "pool_builder_pool_options options b = b\<lparr>pb_options := options\<rparr>"

definition pool_builder_read_connections :: "usize \<Rightarrow> 's DatabasePoolBuilder \<Rightarrow> 's DatabasePoolBuilder" where
  "pool_builder_read_connections n b = b\<lparr>pb_options := (pb_options b)\<lparr>po_read_connections := n\<rparr>\<rparr>"

definition pool_builder_write_queue_capacity :: "usize \<Rightarrow> 's DatabasePoolBuilder \<Rightarrow> 's DatabasePoolBuilder" where
  "pool_builder_write_queue_capacity n b = b\<lparr>pb_options := (pb_options b)\<lparr>po_write_queue_capacity := n\<rparr>\<rparr>"

definition pool_builder_group_commit :: "GroupCommitOptions \<Rightarrow> 's DatabasePoolBuilder \<Rightarrow> 's DatabasePoolBuilder" where
  "pool_builder_group_commit options b = b\<lparr>pb_options := (pb_options b)\<lparr>po_group_commit := options\<rparr>\<rparr>"

definition pool_builder_wal_maintenance :: "WalMaintenanceOptions \<Rightarrow> 's DatabasePoolBuilder \<Rightarrow> 's DatabasePoolBuilder" where
  "pool_builder_wal_maintenance options b = b\<lparr>pb_options := (pb_options b)\<lparr>po_wal_maintenance := options\<rparr>\<rparr>"

section \<open>Opening a pool\<close>

text \<open>\<^verbatim>\<open>set_wal_autocheckpoint\<close> on one connection of the engine's world.\<close>

definition writer_autocheckpoint :: "('w, 'c) OpenEngine \<Rightarrow> 'c \<Rightarrow> u32 \<Rightarrow> ('w, Error, unit) effect" where
  "writer_autocheckpoint eng c frames w =
     (if unat frames > 2147483647
      then (Inl (Error InvalidCheckpointThreshold ''WAL auto-checkpoint threshold exceeds the supported range''), w)
      else (case o_wal_autocheckpoint eng c (uint frames) w of
              (rc, w') \<Rightarrow> (if rc = SQLITE_OK then Inr ()
                          else Inl (map_storage_error (SqliteFailure (o_failure_code eng rc) rc)), w')))"

text \<open>A vector of connections that goes out of scope drops its elements in order.\<close>

definition drop_all :: "('w, 'c) OpenEngine \<Rightarrow> ('c \<times> SecurityMode) list \<Rightarrow> 'w \<Rightarrow> 'w" where
  "drop_all eng cs w = fold (\<lambda>c. o_drop eng (fst c)) cs w"

fun open_readers ::
  "('w, 'c) OpenEngine \<Rightarrow> ResolvedOpenPlan \<Rightarrow> u64 \<Rightarrow> nat \<Rightarrow> ('c \<times> SecurityMode) list \<Rightarrow> 'w
     \<Rightarrow> (('c \<times> SecurityMode) list result \<times> 'w) option" where
  "open_readers eng plan cache 0 readers w = Some (Inr readers, w)"
| "open_readers eng plan cache (Suc n) readers w =
     (case open_resolved_single_owner eng plan True cache w of
        None \<Rightarrow> None
      | Some (Inl e, w) \<Rightarrow> Some (Inl e, drop_all eng readers w)
      | Some (Inr c, w) \<Rightarrow> open_readers eng plan cache n (readers @ [c]) w)"

text \<open>
  The pool's shared state. The writer connection belongs to the writer thread, which the pool starts with these
  metrics and options.
\<close>

record ('c, 'x, 'g) PoolInner =
  pi_readers :: "('c \<times> SecurityMode) ReadPool"
  pi_write_queue :: "('x, 'g) WriteQueueState"
  pi_write_queue_capacity :: usize
  pi_metrics :: PoolMetrics
  pi_writer :: "'c \<times> SecurityMode"
  pi_security :: SecurityMode
  pi_cache_bytes_per_connection :: u64

definition writer_not_started :: Error where
  "writer_not_started = Error StorageBackendUnavailable ''database writer thread could not be started''"

text \<open>
  \<open>spawned\<close> says whether the operating system started the thread. What has been opened is dropped on each failing
  path: the readers first and then the writer, except that a thread that cannot be started drops its closure, and
  with it the writer, before the readers go.
\<close>

definition pool_start ::
  "('w, 'c) OpenEngine \<Rightarrow> bool \<Rightarrow> ResolvedOpenPlan \<Rightarrow> PoolOptions \<Rightarrow> u64 \<Rightarrow> 'c \<times> SecurityMode \<Rightarrow> 'w
     \<Rightarrow> (('c, 'x, 'g) PoolInner result \<times> 'w) option" where
  "pool_start eng spawned plan options cache writer w =
     (case (if wmo_enabled (po_wal_maintenance options) then writer_autocheckpoint eng (fst writer) 0 else ret_st ()) w of
        (Inl e, w) \<Rightarrow> Some (Inl e, o_drop eng (fst writer) w)
      | (Inr _, w) \<Rightarrow>
     (case open_readers eng plan cache (unat (po_read_connections options)) [] w of
        None \<Rightarrow> None
      | Some (Inl e, w) \<Rightarrow> Some (Inl e, o_drop eng (fst writer) w)
      | Some (Inr readers, w) \<Rightarrow>
          if \<not> spawned then Some (Inl writer_not_started, drop_all eng readers (o_drop eng (fst writer) w))
          else Some (Inr \<lparr>pi_readers = read_pool_new readers, pi_write_queue = write_queue_new,
            pi_write_queue_capacity = po_write_queue_capacity options,
            pi_metrics = pool_metrics_default\<lparr>automatic_maintenance_enabled := wmo_enabled (po_wal_maintenance options)\<rparr>,
            pi_writer = writer, pi_security = rp_security plan, pi_cache_bytes_per_connection = cache\<rparr>, w)))"

definition pool_open_resolved ::
  "('w, 'c) OpenEngine \<Rightarrow> bool \<Rightarrow> ResolvedOpenPlan \<Rightarrow> PoolOptions \<Rightarrow> 'w \<Rightarrow> (('c, 'x, 'g) PoolInner result \<times> 'w) option" where
  "pool_open_resolved eng spawned plan options w =
     (case bind_result (validate_pool_options plan options) (\<lambda>_. pool_cache_bytes_per_connection plan options) of
        Inl e \<Rightarrow> Some (Inl e, w)
      | Inr cache \<Rightarrow>
     (case open_resolved_single_owner eng plan False cache w of
        None \<Rightarrow> None
      | Some (Inl e, w) \<Rightarrow> Some (Inl e, w)
      | Some (Inr writer, w) \<Rightarrow> pool_start eng spawned plan options cache writer w))"

definition pool_builder_open ::
  "('w, 'c) OpenEngine \<Rightarrow> bool \<Rightarrow> 's DatabasePoolBuilder \<Rightarrow> ('s, 'w, ('c, 'x, 'g) PoolInner) opening_step" where
  "pool_builder_open eng spawned b = with_plan (pb_database b) (\<lambda>plan. pool_open_resolved eng spawned plan (pb_options b))"

definition pool_open ::
  "('w, 'c) OpenEngine \<Rightarrow> bool \<Rightarrow> string \<Rightarrow> PoolOptions \<Rightarrow> ('s, 'w, ('c, 'x, 'g) PoolInner) opening_step" where
  "pool_open eng spawned path options =
     pool_builder_open eng spawned (pool_builder_pool_options options (pool_builder_new path))"

definition pool_open_with_key ::
  "('w, 'c) OpenEngine \<Rightarrow> bool \<Rightarrow> string \<Rightarrow> 's KeySource \<Rightarrow> PoolOptions \<Rightarrow> ('s, 'w, ('c, 'x, 'g) PoolInner) opening_step" where
  "pool_open_with_key eng spawned path key options =
     pool_builder_open eng spawned (pool_builder_pool_options options (pool_builder_key key (pool_builder_new path)))"

definition pool_open_with_passphrase ::
  "('w, 'c) OpenEngine \<Rightarrow> bool \<Rightarrow> string \<Rightarrow> u8 list \<Rightarrow> PoolOptions \<Rightarrow> ('s, 'w, ('c, 'x, 'g) PoolInner) opening_step" where
  "pool_open_with_passphrase eng spawned path passphrase options =
     pool_builder_open eng spawned (pool_builder_pool_options options
       (pool_builder_key (Passphrase (SecretString passphrase)) (pool_builder_new path)))"

definition pool_open_plaintext ::
  "('w, 'c) OpenEngine \<Rightarrow> bool \<Rightarrow> string \<Rightarrow> PoolOptions \<Rightarrow> ('s, 'w, ('c, 'x, 'g) PoolInner) opening_step" where
  "pool_open_plaintext eng spawned path options =
     pool_builder_open eng spawned (pool_builder_pool_options options (pool_builder_plaintext (pool_builder_new path)))"


section \<open>Histories only grow\<close>

definition extends :: "engine_event list \<Rightarrow> engine_event list \<Rightarrow> bool" where
  "extends h h' \<longleftrightarrow> set h \<subseteq> set h'"

interpretation history: kept_relation extends
  by unfold_locales (auto simp: extends_def)

lemma recorder_extends:
  "keeps extends (o_open (recorder oc) p F v)" "keeps extends (o_pragma_update (recorder oc) c n x)"
  "keeps extends (o_query_row (recorder oc) c q)" "keeps extends (o_busy_timeout (recorder oc) c d)"
  by (auto simp: keeps_def extends_def recorder_simps split: option.splits)

lemma key_extends: "keeps extends (apply_key_bytes (recorder oc) c b)"
  by (auto simp: keeps_def extends_def apply_key_bytes_def recorder_simps split: if_splits)

lemma drop_extends: "extends h (o_drop (recorder oc) c h)"
  by (auto simp: extends_def recorder_def)

lemma keeps_after_drop: "keeps extends m \<Longrightarrow> keeps extends (\<lambda>w. m (o_drop (recorder oc) c w))"
  unfolding keeps_def using drop_extends history.keep_trans by blast

lemma owning_extends: "keeps extends m \<Longrightarrow> keeps extends (owning (recorder oc) c m)"
  unfolding keeps_def owning_def
  using drop_extends history.keep_trans by (fastforce split: prod.splits sum.splits)

lemma with_key_extends: "keeps extends (with_key plan (apply_key (recorder oc) c))"
  by (cases "rp_key plan"; cases "the (rp_key plan)")
    (auto simp: with_key_def apply_key_def apply_raw_key_def intro: key_extends)

lemma profile_extends: "keeps extends (apply_key_with_profile (recorder oc) c plan p)"
  unfolding apply_key_with_profile_def
  by (auto split: prod.splits intro!: history.keeps_bind history.keeps_map_err recorder_extends with_key_extends)

lemma verify_extends: "keeps extends (verify_database (recorder oc) c)"
  unfolding verify_database_def by (intro history.keeps_map_err recorder_extends)

lemma open_extends: "keeps extends (open_engine_connection (recorder oc) plan F)"
  unfolding open_engine_connection_def by (intro history.keeps_map_err recorder_extends)

lemma attempt_extends: "keeps extends (attempt_profile (recorder oc) plan F p)"
  unfolding attempt_profile_def
proof (intro history.keeps_bind open_extends owning_extends profile_extends)
  show "keeps extends (\<lambda>w. case verify_database (recorder oc) c w of (r, w') \<Rightarrow> (Inr (c, r), w'))" for c
    using verify_extends [of oc c] by (fastforce simp: keeps_def split: prod.splits)
qed

lemma retry_extends:
  assumes "\<And>e. keeps extends (retry e)"
  shows "keeps extends (bind_st (attempt_profile (recorder oc) plan F p) (\<lambda>(c, v).
    case v of Inr _ \<Rightarrow> ret_st c | Inl e \<Rightarrow> (\<lambda>w. retry e (o_drop (recorder oc) c w))))"
  by (rule history.keeps_bind [OF attempt_extends])
    (auto split: prod.splits sum.splits intro: keeps_after_drop assms)

lemma open_encrypted_extends: "keeps extends (open_encrypted (recorder oc) plan F legacy)"
  unfolding open_encrypted_alt
  by (intro retry_extends) (cases legacy; auto simp del: effect_simps intro!: retry_extends)

lemma configure_extends: "keeps extends (configure_connection (recorder oc) c plan access n)"
  unfolding configure_connection_def Let_def
  by (auto simp del: effect_simps intro!: history.keeps_bind history.keeps_map_err recorder_extends)

lemma open_with_access_extends:
  assumes "open_with_access (recorder oc) plan access owner n h = Some (r, t)"
  shows "extends h t"
proof -
  have start: "keeps extends (if rp_security plan = Encrypted then open_encrypted (recorder oc) plan F l
      else open_plaintext_connection (recorder oc) plan F)" for F l
    by (auto simp: open_plaintext_connection_def simp del: effect_simps
        intro!: open_encrypted_extends open_extends history.keeps_bind owning_extends verify_extends)
  have cache: "keeps extends (\<lambda>w. (Inr x, o_cache_capacity (recorder oc) c k w))" for x c k
    by (auto simp: keeps_def extends_def recorder_def)
  obtain F l where "bind_st (if rp_security plan = Encrypted then open_encrypted (recorder oc) plan F l
      else open_plaintext_connection (recorder oc) plan F)
    (\<lambda>inner. bind_st (owning (recorder oc) inner
       (bind_st (map_err_st map_storage_error (o_busy_timeout (recorder oc) inner (rp_busy_timeout plan))) (\<lambda>_.
        configure_connection (recorder oc) inner plan access n)))
       (\<lambda>_ w. (Inr (inner, rp_security plan),
          o_cache_capacity (recorder oc) inner DEFAULT_PREPARED_STATEMENT_CACHE_CAPACITY w))) h = (r, t)"
    using assms by (auto simp: open_with_access_def Let_def split: option.splits)
  moreover have "keeps extends (bind_st (if rp_security plan = Encrypted then open_encrypted (recorder oc) plan F l
      else open_plaintext_connection (recorder oc) plan F)
    (\<lambda>inner. bind_st (owning (recorder oc) inner
       (bind_st (map_err_st map_storage_error (o_busy_timeout (recorder oc) inner (rp_busy_timeout plan))) (\<lambda>_.
        configure_connection (recorder oc) inner plan access n)))
       (\<lambda>_ w. (Inr (inner, rp_security plan),
          o_cache_capacity (recorder oc) inner DEFAULT_PREPARED_STATEMENT_CACHE_CAPACITY w))))" for F l
    by (intro history.keeps_bind start owning_extends history.keeps_map_err recorder_extends configure_extends cache)
  ultimately show ?thesis unfolding keeps_def by blast
qed


section \<open>The connections of a pool\<close>

text \<open>Exactly these connections are open, each opened with its flags, keyed and verified.\<close>

definition crew :: "ResolvedOpenPlan \<Rightarrow> (nat \<times> SqlOpenFlag set) list \<Rightarrow> engine_event list \<Rightarrow> bool" where
  "crew plan cs h \<longleftrightarrow> distinct (map fst cs) \<and> good plan (set (map fst cs)) h \<and>
     list_all (\<lambda>(c, F). opened_as plan F c h \<and> trusted plan c h) cs"

definition manned :: "SqlOpenFlag set \<Rightarrow> (nat \<times> SecurityMode) list \<Rightarrow> (nat \<times> SqlOpenFlag set) list" where
  "manned F cs = map (\<lambda>c. (fst c, F)) cs"

lemma manned_simps [simp]: "manned F [] = []" "manned F (c # cs) = (fst c, F) # manned F cs"
  "manned F (cs @ ds) = manned F cs @ manned F ds" "map fst (manned F cs) = map fst cs"
  by (simp_all add: manned_def comp_def)

lemma crew_Nil [simp]: "crew plan [] h \<longleftrightarrow> good plan {} h"
  by (simp add: crew_def)

lemma evidence_extends:
  assumes "extends h t"
  shows "opened_as plan F c h \<Longrightarrow> opened_as plan F c t" "trusted plan c h \<Longrightarrow> trusted plan c t"
  using assms by (auto simp: extends_def opened_as_def trusted_def verified_def)

lemma crew_extends:
  assumes "list_all (\<lambda>(c, F). opened_as plan F c h \<and> trusted plan c h) cs" "extends h t"
  shows "list_all (\<lambda>(c, F). opened_as plan F c t \<and> trusted plan c t) cs"
  using assms evidence_extends [OF assms(2)] by (fastforce simp: list_all_iff)

lemma open_with_access_returns:
  assumes "connection_flags plan access owner = Some f"
  shows "\<exists>r t. open_with_access eng plan access owner n w = Some (r, t)"
proof -
  have "\<exists>p. open_with_access eng plan access owner n w = Some p" using assms by (simp add: open_with_access_def Let_def)
  then show ?thesis by auto
qed

lemma crew_open:
  assumes "connection_flags plan access owner = Some f" "crew plan cs h"
    "open_with_access (recorder oc) plan access owner n h = Some (r, t)"
  shows "case r of
      Inl e \<Rightarrow> crew plan cs t
    | Inr x \<Rightarrow> crew plan (cs @ [(fst x, sqlite_open_flags f)]) t \<and> snd x = rp_security plan"
proof -
  have good: "good plan (set (map fst cs)) h" using assms(2) by (simp add: crew_def)
  have old: "list_all (\<lambda>(c, F). opened_as plan F c t \<and> trusted plan c t) cs"
    using crew_extends [OF _ open_with_access_extends [OF assms(3)]] assms(2) by (simp add: crew_def)
  note o = open_with_access_triple [OF assms(1,3) good]
  show ?thesis
  proof (cases r)
    case (Inl e)
    then show ?thesis using o old assms(2) by (simp add: crew_def)
  next
    case (Inr x)
    then have "settled plan (set (map fst cs)) (sqlite_open_flags f) (fst x, snd x) t" using o by simp
    from settledD [OF this] show ?thesis using Inr old assms(2) by (simp add: crew_def)
  qed
qed

lemma crew_drop:
  assumes "crew plan (cs @ (c, F) # ds) h"
  shows "crew plan (cs @ ds) (o_drop (recorder oc) c h)"
proof -
  have "set (map fst (cs @ (c, F) # ds)) - {c} = set (map fst (cs @ ds))"
    using assms by (auto simp: crew_def)
  then have "good plan (set (map fst (cs @ ds))) (o_drop (recorder oc) c h)"
    using assms by (auto simp: crew_def good_def recorder_def)
  moreover have "list_all (\<lambda>(c, F). opened_as plan F c (o_drop (recorder oc) c' h) \<and> trusted plan c (o_drop (recorder oc) c' h)) (cs @ ds)"
    for c' using crew_extends [OF _ drop_extends, of plan h "cs @ ds"] assms by (simp add: crew_def)
  ultimately show ?thesis using assms by (simp add: crew_def)
qed

lemma crew_drop_all:
  "crew plan (cs @ manned F rs) h \<Longrightarrow> crew plan cs (drop_all (recorder oc) rs h)"
proof (induction rs arbitrary: h)
  case Nil
  then show ?case by (simp add: drop_all_def)
next
  case (Cons c rs)
  have "crew plan (cs @ manned F rs) (o_drop (recorder oc) (fst c) h)"
    using crew_drop [of plan cs "fst c" F "manned F rs" h] Cons.prems by simp
  from Cons.IH [OF this] show ?case by (simp add: drop_all_def)
qed

lemma crew_autocheckpoint:
  assumes "crew plan cs h" "c \<in> set (map fst cs)" "writer_autocheckpoint (recorder oc) c n h = (r, t)"
  shows "crew plan cs t"
proof (cases "unat n > 2147483647")
  case True
  then show ?thesis using assms by (simp add: writer_autocheckpoint_def)
next
  case False
  then obtain rc where t: "t = h @ [EvAutocheckpoint c (uint n) rc]"
    using assms(3) by (auto simp: writer_autocheckpoint_def recorder_simps)
  have "rp_security plan = Plaintext \<or> c \<in> keyed h"
    using assms(1,2) by (cases "rp_security plan") (fastforce simp: crew_def list_all_iff trusted_def keyed_def)+
  then have "good plan (set (map fst cs)) t" using assms(1) by (auto simp: crew_def good_def t)
  moreover have "extends h t" by (auto simp: extends_def t)
  ultimately show ?thesis using assms(1) crew_extends by (auto simp: crew_def)
qed

lemma crew_readers:
  assumes "connection_flags plan ReadOnlyAccess SingleOwner = Some f" "crew plan (w # manned (sqlite_open_flags f) rs) h"
    "\<forall>x \<in> set rs. snd x = rp_security plan"
  shows "\<exists>r t. open_readers (recorder oc) plan cache n rs h = Some (r, t) \<and>
    (case r of
       Inl e \<Rightarrow> crew plan [w] t
     | Inr rs' \<Rightarrow> crew plan (w # manned (sqlite_open_flags f) rs') t \<and> length rs' = length rs + n \<and>
         (\<forall>x \<in> set rs'. snd x = rp_security plan))"
  using assms(2,3)
proof (induction n arbitrary: rs h)
  case 0
  then show ?case by simp
next
  case (Suc n)
  let ?F = "sqlite_open_flags f"
  obtain r t where o: "open_with_access (recorder oc) plan ReadOnlyAccess SingleOwner cache h = Some (r, t)"
    using open_with_access_returns [OF assms(1), of "recorder oc" cache h] by blast
  note step = crew_open [OF assms(1) Suc.prems(1) o]
  have eq: "open_resolved_single_owner (recorder oc) plan True cache h = Some (r, t)"
    using o by (simp add: open_resolved_single_owner_def connection_open_readonly_single_owner_def)
  show ?case
  proof (cases r)
    case (Inl e)
    have "crew plan ([w] @ manned ?F rs) t" using step Inl by simp
    from crew_drop_all [OF this] show ?thesis by (simp add: eq Inl)
  next
    case (Inr x)
    have "crew plan (w # manned ?F (rs @ [x])) t" using step Inr by simp
    moreover have "\<forall>y \<in> set (rs @ [x]). snd y = rp_security plan" using Suc.prems(2) step Inr by simp
    ultimately show ?thesis using Suc.IH [of "rs @ [x]" t] by (simp add: eq Inr cong: sum.case_cong)
  qed
qed


lemma crew_pool_start:
  assumes fr: "connection_flags plan ReadOnlyAccess SingleOwner = Some fr"
    and crew: "crew plan [(fst w, Fw)] h"
  shows "\<exists>r t. pool_start (recorder oc) spawned plan options cache w h = Some (r, t) \<and>
    (case r of
       Inl e \<Rightarrow> crew plan [] t
     | Inr p \<Rightarrow> pi_writer p = w \<and> pi_security p = rp_security plan \<and>
         crew plan ((fst w, Fw) # manned (sqlite_open_flags fr) (rdp_connections (pi_readers p))) t \<and>
         length (rdp_connections (pi_readers p)) = unat (po_read_connections options))"
proof -
  obtain r1 h1 where ac: "(if wmo_enabled (po_wal_maintenance options) then writer_autocheckpoint (recorder oc) (fst w) 0
      else ret_st ()) h = (r1, h1)" by fastforce
  have c1: "crew plan [(fst w, Fw)] h1"
    using ac crew crew_autocheckpoint [OF crew, of "fst w" oc 0 r1 h1] by (auto split: if_splits)
  have "crew plan ((fst w, Fw) # manned (sqlite_open_flags fr) []) h1" using c1 by simp
  from crew_readers [OF fr this, of oc cache "unat (po_read_connections options)"]
  obtain r2 h2 where rd: "open_readers (recorder oc) plan cache (unat (po_read_connections options)) [] h1 = Some (r2, h2)"
    and c2: "case r2 of Inl e \<Rightarrow> crew plan [(fst w, Fw)] h2
      | Inr rs \<Rightarrow> crew plan ((fst w, Fw) # manned (sqlite_open_flags fr) rs) h2 \<and>
          length rs = length ([] :: (nat \<times> SecurityMode) list) + unat (po_read_connections options) \<and>
          (\<forall>x \<in> set rs. snd x = rp_security plan)"
    unfolding list.set by (elim meta_impE exE conjE) (simp_all only: ball_empty)
  note drop_writer = crew_drop [of plan "[]" "fst w" Fw, simplified append_Nil]
  show ?thesis
  proof (cases r1)
    case (Inl e)
    then show ?thesis using ac drop_writer [OF c1] by (simp add: pool_start_def)
  next
    case (Inr u)
    show ?thesis
    proof (cases r2)
      case (Inl e)
      then show ?thesis using ac rd Inr c2 drop_writer [of "[]" h2 oc] by (simp add: pool_start_def)
    next
      case r2: (Inr rs)
      then have "crew plan (manned (sqlite_open_flags fr) rs) (o_drop (recorder oc) (fst w) h2)"
        using drop_writer c2 by simp
      then have "crew plan [] (drop_all (recorder oc) rs (o_drop (recorder oc) (fst w) h2))"
        using crew_drop_all [of plan "[]"] by simp
      then show ?thesis using ac rd Inr r2 c2 by (cases spawned) (simp_all add: pool_start_def read_pool_new_def)
    qed
  qed
qed

definition staffed :: "ResolvedOpenPlan \<Rightarrow> PoolOptions \<Rightarrow> engine_event list \<Rightarrow> (nat, 'x, 'g) PoolInner \<Rightarrow> bool" where
  "staffed plan options h p \<longleftrightarrow>
     (let w = fst (pi_writer p); rs = map fst (rdp_connections (pi_readers p)) in
      live h = insert w (set rs) \<and> distinct (w # rs) \<and> length rs = unat (po_read_connections options) \<and>
      (\<forall>c \<in> insert w (set rs). trusted plan c h) \<and> pi_security p = rp_security plan \<and>
      opened_as plan {x. engine_flags_spec (rp_flags plan) ReadWriteAccess SingleOwner x} w h \<and>
      (\<forall>c \<in> set rs. opened_as plan {x. engine_flags_spec (rp_flags plan) ReadOnlyAccess SingleOwner x} c h))"



definition calm_outcomes :: outcomes where
  "calm_outcomes = \<lparr>oc_open = (\<lambda>_. None), oc_call = (\<lambda>_ _ _. None), oc_key = (\<lambda>_. 0), oc_autocheckpoint = (\<lambda>_. 0),
     oc_failure = (\<lambda>_. FOther), oc_len = (\<lambda>_. None)\<rparr>"

definition plain_plan :: ResolvedOpenPlan where
  "plain_plan = \<lparr>rp_path = ''app.db'', rp_flags = sup READWRITE PLAINTEXT, rp_security = Plaintext,
     rp_busy_timeout = 5000, rp_cache_size_bytes = 65536, rp_memory_budget_bytes = 1048576,
     rp_vfs = None, rp_key = None\<rparr>"

definition small_pool :: PoolOptions where
  "small_pool = pool_options_new 2 8"

lemma plain_plan_known: "from_bits (bits (rp_flags plain_plan)) \<noteq> None"
  unfolding known_bits_iff by (auto simp: plain_plan_def bit_or_iff flag_bits)

lemma plain_plan_flags:
  "\<exists>f. connection_flags plain_plan access SingleOwner = Some f"
  using connection_flags_spec [OF plain_plan_known] by blast

lemma small_pool_cache:
  "bind_result (validate_pool_options plain_plan small_pool) (\<lambda>_. pool_cache_bytes_per_connection plain_plan small_pool) = Inr 65536"
  by (simp add: validate_pool_options_def plain_plan_def small_pool_def pool_options_new_def contains_bits bit_or_iff flag_bits
      MAX_READ_CONNECTIONS_def MAX_WRITE_QUEUE_CAPACITY_def validate_group_commit_options_def MAX_GROUP_COMMIT_JOBS_def
      DEFAULT_GROUP_COMMIT_MAX_JOBS_def MAX_GROUP_COMMIT_DELAY_def DEFAULT_GROUP_COMMIT_DELAY_def duration_from_millis_def
      validate_wal_maintenance_options_def DEFAULT_MAINTENANCE_INTERVAL_COMMITS_def MAX_MAINTENANCE_INTERVAL_COMMITS_def
      DEFAULT_WAL_SOFT_LIMIT_FRAMES_def MAX_WAL_AUTOCHECKPOINT_FRAMES_def pool_cache_bytes_per_connection_def Let_def
      saturating_add_def)

lemma calm_open:
  assumes "connection_flags plain_plan access SingleOwner = Some f"
  shows "\<exists>t. open_with_access (recorder calm_outcomes) plain_plan access SingleOwner n h = Some (Inr (opened h, Plaintext), t)"
  using assms
  by (cases access) (simp_all add: open_with_access_def open_plaintext_connection_def open_engine_connection_def bind_st_def map_err_st_def
      recorder_def call_outcome_def calm_outcomes_def owning_def verify_database_def configure_connection_def plain_plan_def
      contains_bits bit_or_iff flag_bits Let_def)


lemma calm_readers: "\<exists>rs' t. open_readers (recorder calm_outcomes) plain_plan n k rs h = Some (Inr rs', t)"
proof (induction k arbitrary: rs h)
  case 0
  then show ?case by simp
next
  case (Suc k)
  obtain f where "connection_flags plain_plan ReadOnlyAccess SingleOwner = Some f" using plain_plan_flags by blast
  then obtain x t where "open_resolved_single_owner (recorder calm_outcomes) plain_plan True n h = Some (Inr x, t)"
    using calm_open [of ReadOnlyAccess f n h] by (auto simp: open_resolved_single_owner_def connection_open_readonly_single_owner_def)
  then show ?case using Suc.IH by simp
qed

lemma calm_pool_opens:
  "\<exists>p h. pool_open_resolved (recorder calm_outcomes) True plain_plan small_pool [] = Some (Inr p, h)"
proof -
  obtain f where "connection_flags plain_plan ReadWriteAccess SingleOwner = Some f" using plain_plan_flags by blast
  then obtain w t where w: "open_resolved_single_owner (recorder calm_outcomes) plain_plan False 65536 [] = Some (Inr w, t)"
    using calm_open [of ReadWriteAccess f 65536 "[]"] by (auto simp: open_resolved_single_owner_def connection_open_single_owner_def)
  have ac: "\<exists>u. writer_autocheckpoint (recorder calm_outcomes) (fst w) 0 t = (Inr (), u)"
    by (simp add: writer_autocheckpoint_def recorder_def calm_outcomes_def SQLITE_OK_def)
  then obtain u where u: "writer_autocheckpoint (recorder calm_outcomes) (fst w) 0 t = (Inr (), u)" by blast
  obtain rs v where "open_readers (recorder calm_outcomes) plain_plan 65536 (unat (po_read_connections small_pool)) [] u = Some (Inr rs, v)"
    using calm_readers by blast
  moreover have "wmo_enabled (po_wal_maintenance small_pool)" by (simp add: small_pool_def pool_options_new_def)
  ultimately show ?thesis using u by (simp add: pool_open_resolved_def small_pool_cache w pool_start_def)
qed



section \<open>Opening a database\<close>

lemma with_flag_defaults_known:
  assumes "from_bits (bits f) \<noteq> None"
  shows "from_bits (bits (with_flag_defaults f)) \<noteq> None"
  using assms unfolding known_bits_iff
  by (auto simp: with_flag_defaults_def Let_def bit_or_iff flag_bits)

lemma builder_plan_Inr:
  assumes "builder_plan b s = (Inr plan, s')"
  shows "rp_flags plan = with_flag_defaults (oo_flags (bd_options b))"
    "rp_security plan = (if contains (oo_flags (bd_options b)) PLAINTEXT then Plaintext else Encrypted)"
    "rp_path plan = bd_path b" "rp_security plan = Plaintext \<longrightarrow> s' = s" "has_key plan \<longleftrightarrow> rp_security plan = Encrypted"
proof -
  obtain p where p: "prepare_open (bd_path b) (bd_options b) = Inr p" "resolve_key p s = (Inr plan, s')"
    using assms by (auto simp: builder_plan_def split: sum.splits)
  note r = resolve_key_eq_Inr [OF p(2)]
  show "rp_flags plan = with_flag_defaults (oo_flags (bd_options b))"
    "rp_security plan = (if contains (oo_flags (bd_options b)) PLAINTEXT then Plaintext else Encrypted)"
    "rp_path plan = bd_path b" "rp_security plan = Plaintext \<longrightarrow> s' = s" "has_key plan \<longleftrightarrow> rp_security plan = Encrypted"
    using r p(1) unfolding prepare_open_eq_Inr by auto
qed


lemma open_planned:
  assumes "builder_plan b s = (Inr plan, s')" "from_bits (bits (oo_flags (bd_options b))) \<noteq> None"
  shows "\<exists>r h. open_with_access (recorder oc) plan access owner n [] = Some (r, h) \<and> disciplined plan h \<and>
    (case r of Inl e \<Rightarrow> live h = {}
     | Inr x \<Rightarrow> live h = {fst x} \<and> trusted plan (fst x) h \<and> snd x = rp_security plan \<and>
         opened_as plan {x. engine_flags_spec (rp_flags plan) access owner x} (fst x) h)"
proof -
  have "from_bits (bits (rp_flags plan)) \<noteq> None"
    unfolding builder_plan_Inr(1) [OF assms(1)] by (rule with_flag_defaults_known [OF assms(2)])
  then obtain f where f: "connection_flags plan access owner = Some f"
    "sqlite_open_flags f = {x. engine_flags_spec (rp_flags plan) access owner x}"
    using connection_flags_spec by blast
  obtain r h where o: "open_with_access (recorder oc) plan access owner n [] = Some (r, h)"
    using open_with_access_returns [OF f(1), of "recorder oc" n "[]"] by blast
  have "crew plan [] []" by (simp add: good_def)
  from crew_open [OF f(1) this o] show ?thesis
    using o by (intro exI [of _ r] exI [of _ h]) (cases r; simp add: crew_def good_def f(2))
qed



definition passphrase_builder :: "unit DatabaseBuilder" where
  "passphrase_builder = builder_key (Passphrase (SecretString [104, 105])) (builder_new ''app.db'')"

lemma passphrase_builder_flags: "oo_flags (bd_options passphrase_builder) = sup (sup (sup READWRITE CREATE) ENCRYPTED) FULLMUTEX"
  by (simp add: passphrase_builder_def builder_key_def builder_new_def open_options_default_def)

lemma passphrase_builder_opens:
  "\<exists>x h. builder_open (recorder calm_outcomes) passphrase_builder ((), []) = Some (Inr x, (), h)"
  by (simp add: builder_open_def with_plan_def builder_plan_def passphrase_builder_def builder_key_def builder_new_def
      prepare_open_def identity_from_path_def normalize_admissible open_options_default_def flags_admissible_def flag_simps
      validate_vfs_def with_flag_defaults_def resolve_key_def resolve_encrypted_key_def Let_def
      open_resolved_def connection_open_def open_with_access_def connection_flags_def calm_outcomes_def
      open_encrypted_def attempt_profile_def open_engine_connection_def bind_st_def map_err_st_def
      recorder_def call_outcome_def owning_def apply_key_with_profile_def profile_parameters_def
      with_key_def apply_key_def apply_key_bytes_def verify_database_def configure_connection_def SQLITE_OK_def)


end
