(* ===== verification/Ffi.thy ===== *)
theory Ffi
  imports Facade
begin

text \<open>
  The C interface \<^verbatim>\<open>csgdb-ffi/src/lib.rs\<close>. Handles, connections and statements are objects in a store; pointers are
  addresses, \<^const>\<open>None\<close> the null pointer. A connection is shared by its handle and by its statements and counted like \<^verbatim>\<open>Arc\<close>
  does. A call returns \<^const>\<open>None\<close> when it follows a pointer to an object that is not there, which the caller contract and
  the laws of the next theory exclude. C strings are their bytes before the terminator. The engine's C functions are the record
  \<open>FfiEngine\<close>; the operations of a database go through the storage adapter.
\<close>

section \<open>Codes\<close>

definition CSGDB_OK :: int where "CSGDB_OK = 0"
definition CSGDB_INVALID_ARGUMENT :: int where "CSGDB_INVALID_ARGUMENT = 1"
definition CSGDB_INVALID_OPEN_FLAGS :: int where "CSGDB_INVALID_OPEN_FLAGS = 2"
definition CSGDB_INVALID_KEY :: int where "CSGDB_INVALID_KEY = 3"
definition CSGDB_KEY_REQUIRED :: int where "CSGDB_KEY_REQUIRED = 4"
definition CSGDB_KEYSTORE_UNAVAILABLE :: int where "CSGDB_KEYSTORE_UNAVAILABLE = 5"
definition CSGDB_BUSY :: int where "CSGDB_BUSY = 6"
definition CSGDB_READONLY :: int where "CSGDB_READONLY = 7"
definition CSGDB_CONSTRAINT :: int where "CSGDB_CONSTRAINT = 8"
definition CSGDB_CORRUPT :: int where "CSGDB_CORRUPT = 9"
definition CSGDB_STORAGE :: int where "CSGDB_STORAGE = 10"
definition CSGDB_MISUSE :: int where "CSGDB_MISUSE = 11"
definition CSGDB_RANGE :: int where "CSGDB_RANGE = 12"
definition CSGDB_INTERRUPT :: int where "CSGDB_INTERRUPT = 13"
definition CSGDB_NULL :: int where "CSGDB_NULL = 5"
definition CSGDB_ROW :: int where "CSGDB_ROW = 100"
definition CSGDB_DONE :: int where "CSGDB_DONE = 101"
definition CSGDB_PREPARE_PERSISTENT :: u32 where "CSGDB_PREPARE_PERSISTENT = 1"
definition ABI_VERSION :: u32 where "ABI_VERSION = 1"

lemmas code_defs = CSGDB_OK_def CSGDB_INVALID_ARGUMENT_def CSGDB_INVALID_OPEN_FLAGS_def CSGDB_INVALID_KEY_def
  CSGDB_KEY_REQUIRED_def CSGDB_KEYSTORE_UNAVAILABLE_def CSGDB_BUSY_def CSGDB_READONLY_def CSGDB_CONSTRAINT_def
  CSGDB_CORRUPT_def CSGDB_STORAGE_def CSGDB_MISUSE_def CSGDB_RANGE_def CSGDB_INTERRUPT_def CSGDB_ROW_def CSGDB_DONE_def

definition error_code :: "Error \<Rightarrow> int" where
  "error_code e =
     (case err_code e of
        InvalidOpenFlags \<Rightarrow> CSGDB_INVALID_OPEN_FLAGS
      | PlaintextRequiresOptIn \<Rightarrow> CSGDB_INVALID_OPEN_FLAGS
      | InvalidKeyLength \<Rightarrow> CSGDB_INVALID_KEY
      | InvalidDatabaseKey \<Rightarrow> CSGDB_INVALID_KEY
      | KeyRequired \<Rightarrow> CSGDB_KEY_REQUIRED
      | KeyStoreUnavailable \<Rightarrow> CSGDB_KEYSTORE_UNAVAILABLE
      | DatabaseBusy \<Rightarrow> CSGDB_BUSY
      | DatabaseReadOnly \<Rightarrow> CSGDB_READONLY
      | ConstraintViolation \<Rightarrow> CSGDB_CONSTRAINT
      | DatabaseCorrupt \<Rightarrow> CSGDB_CORRUPT
      | QueryInterrupted \<Rightarrow> CSGDB_INTERRUPT
      | InvalidParameterIndex \<Rightarrow> CSGDB_RANGE
      | InvalidColumnIndex \<Rightarrow> CSGDB_RANGE
      | InvalidStatementState \<Rightarrow> CSGDB_MISUSE
      | InvalidPath \<Rightarrow> CSGDB_INVALID_ARGUMENT
      | InvalidVfs \<Rightarrow> CSGDB_INVALID_ARGUMENT
      | InvalidFaultRule \<Rightarrow> CSGDB_INVALID_ARGUMENT
      | InvalidSql \<Rightarrow> CSGDB_INVALID_ARGUMENT
      | ParameterCountMismatch \<Rightarrow> CSGDB_INVALID_ARGUMENT
      | InvalidColumnType \<Rightarrow> CSGDB_INVALID_ARGUMENT
      | InvalidQuery \<Rightarrow> CSGDB_INVALID_ARGUMENT
      | InvalidUtf8 \<Rightarrow> CSGDB_INVALID_ARGUMENT
      | InvalidBusyTimeout \<Rightarrow> CSGDB_INVALID_ARGUMENT
      | InvalidCheckpointThreshold \<Rightarrow> CSGDB_INVALID_ARGUMENT
      | InvalidDatabaseName \<Rightarrow> CSGDB_INVALID_ARGUMENT
      | _ \<Rightarrow> CSGDB_STORAGE)"

definition map_sqlite_code :: "int \<Rightarrow> int" where
  "map_sqlite_code result =
     (let code' = result AND 0xff in
      if code' = 0 then CSGDB_OK
      else if code' = 5 \<or> code' = 6 then CSGDB_BUSY
      else if code' = 8 then CSGDB_READONLY
      else if code' = 19 then CSGDB_CONSTRAINT
      else if code' = 11 \<or> code' = 26 then CSGDB_CORRUPT
      else if code' = 21 then CSGDB_MISUSE
      else if code' = 25 then CSGDB_RANGE
      else if code' = 9 then CSGDB_INTERRUPT
      else CSGDB_STORAGE)"

definition error_message :: "int \<Rightarrow> string" where
  "error_message code' =
     (if code' = CSGDB_OK then ''not an error''
      else if code' = CSGDB_INVALID_ARGUMENT then ''invalid argument''
      else if code' = CSGDB_INVALID_OPEN_FLAGS then ''invalid open flags''
      else if code' = CSGDB_INVALID_KEY then ''invalid database key''
      else if code' = CSGDB_KEY_REQUIRED then ''database key required''
      else if code' = CSGDB_KEYSTORE_UNAVAILABLE then ''key store unavailable''
      else if code' = CSGDB_BUSY then ''database is busy or locked''
      else if code' = CSGDB_READONLY then ''database is read-only''
      else if code' = CSGDB_CONSTRAINT then ''database constraint failed''
      else if code' = CSGDB_CORRUPT then ''database is corrupt or authentication failed''
      else if code' = CSGDB_MISUSE then ''statement is not in a valid state for this operation''
      else if code' = CSGDB_RANGE then ''parameter or column index is out of range''
      else if code' = CSGDB_INTERRUPT then ''database operation interrupted''
      else ''database operation failed'')"

section \<open>Objects\<close>

datatype StatementState = SReady | SRow | SDone | SFailed

record 'c SharedDatabase =
  sd_connection :: "'c \<times> SecurityMode"
  sd_last_code :: int
  sd_poisoned :: bool
  sd_refs :: nat

record CsgdbHandle =
  ch_database :: "nat option"
  ch_open_code :: int

record 'r CsgdbStatement =
  cs_database :: nat
  cs_raw :: "'r option"
  cs_state :: StatementState
  cs_parameter_count :: int
  cs_column_count :: int

record ('w, 'c, 'r) ffi_state =
  fi_handles :: "nat \<Rightarrow> CsgdbHandle option"
  fi_shared :: "nat \<Rightarrow> 'c SharedDatabase option"
  fi_statements :: "nat \<Rightarrow> 'r CsgdbStatement option"
  fi_next :: nat
  fi_world :: 'w

text \<open>A call returns its result and the new state.\<close>

type_synonym ('w, 'c, 'r, 'a) ffi_call = "('w, 'c, 'r) ffi_state \<Rightarrow> ('a \<times> ('w, 'c, 'r) ffi_state) option"
type_synonym ('w, 'c, 'r, 'a) ffi_body = "('w, 'c, 'r) ffi_state \<Rightarrow> 'a \<times> ('w, 'c, 'r) ffi_state"

datatype BindValue = BindNull | BindInt int | BindInt64 i64 | BindDouble f64 | BindText "u8 list" | BindBlob "u8 list"

record ('w, 'c, 'r) FfiEngine =
  fe_open :: "('w, 'c) OpenEngine"
  fe_sql :: "'c \<Rightarrow> 'w Engine"
  fe_changes :: "'c \<Rightarrow> 'w \<Rightarrow> u64"
  fe_total_changes :: "'c \<Rightarrow> 'w \<Rightarrow> u64"
  fe_last_insert_rowid :: "'c \<Rightarrow> 'w \<Rightarrow> i64"
  fe_autocommit :: "'c \<Rightarrow> 'w \<Rightarrow> bool"
  fe_readonly :: "'c \<Rightarrow> string \<Rightarrow> 'w \<Rightarrow> SqlError + bool"
  fe_release_memory :: "'c \<Rightarrow> ('w, SqlError, unit) effect"
  fe_interrupt :: "'c \<Rightarrow> 'w \<Rightarrow> 'w"
  fe_close :: "'c \<Rightarrow> ('w, SqlError, unit) effect"
  fe_prepare :: "'c \<Rightarrow> u8 list \<Rightarrow> int \<Rightarrow> u32 \<Rightarrow> 'w \<Rightarrow> (int \<times> 'r option \<times> nat option) \<times> 'w"
  fe_parameter_count :: "'r \<Rightarrow> 'w \<Rightarrow> int"
  fe_column_count :: "'r \<Rightarrow> 'w \<Rightarrow> int"
  fe_parameter_index :: "'r \<Rightarrow> u8 list \<Rightarrow> 'w \<Rightarrow> int"
  fe_parameter_name :: "'r \<Rightarrow> int \<Rightarrow> 'w \<Rightarrow> u8 list option"
  fe_column_name :: "'r \<Rightarrow> int \<Rightarrow> 'w \<Rightarrow> u8 list option"
  fe_bind :: "'r \<Rightarrow> int \<Rightarrow> BindValue \<Rightarrow> 'w \<Rightarrow> int \<times> 'w"
  fe_step :: "'r \<Rightarrow> 'w \<Rightarrow> int \<times> 'w"
  fe_reset :: "'r \<Rightarrow> 'w \<Rightarrow> int \<times> 'w"
  fe_clear_bindings :: "'r \<Rightarrow> 'w \<Rightarrow> int \<times> 'w"
  fe_finalize :: "'r option \<Rightarrow> 'w \<Rightarrow> int \<times> 'w"
  fe_column_type :: "'r \<Rightarrow> int \<Rightarrow> 'w \<Rightarrow> int \<times> 'w"
  fe_column_int :: "'r \<Rightarrow> int \<Rightarrow> 'w \<Rightarrow> int \<times> 'w"
  fe_column_int64 :: "'r \<Rightarrow> int \<Rightarrow> 'w \<Rightarrow> i64 \<times> 'w"
  fe_column_double :: "'r \<Rightarrow> int \<Rightarrow> 'w \<Rightarrow> f64 \<times> 'w"
  fe_column_text :: "'r \<Rightarrow> int \<Rightarrow> 'w \<Rightarrow> u8 list option \<times> 'w"
  fe_column_blob :: "'r \<Rightarrow> int \<Rightarrow> 'w \<Rightarrow> u8 list option \<times> 'w"
  fe_column_bytes :: "'r \<Rightarrow> int \<Rightarrow> 'w \<Rightarrow> int \<times> 'w"

section \<open>The status of a connection\<close>

definition update_shared ::
  "nat \<Rightarrow> ('c SharedDatabase \<Rightarrow> 'c SharedDatabase) \<Rightarrow> ('w, 'c, 'r) ffi_state \<Rightarrow> ('w, 'c, 'r) ffi_state" where
  "update_shared d f st = st\<lparr>fi_shared := (fi_shared st)(d := map_option f (fi_shared st d))\<rparr>"

definition last_code :: "nat \<Rightarrow> ('w, 'c, 'r) ffi_state \<Rightarrow> int" where
  "last_code d st = (case fi_shared st d of Some sd \<Rightarrow> sd_last_code sd | None \<Rightarrow> CSGDB_OK)"

definition set_code :: "nat \<Rightarrow> int \<Rightarrow> ('w, 'c, 'r, int) ffi_body" where
  "set_code d code' st = (code', update_shared d (\<lambda>sd. sd\<lparr>sd_last_code := code'\<rparr>) st)"

definition set_error :: "nat \<Rightarrow> Error \<Rightarrow> ('w, 'c, 'r, int) ffi_body" where
  "set_error d e = set_code d (error_code e)"

definition set_ok :: "nat \<Rightarrow> ('w, 'c, 'r) ffi_state \<Rightarrow> ('w, 'c, 'r) ffi_state" where
  "set_ok d st = (if last_code d st \<noteq> CSGDB_OK then snd (set_code d CSGDB_OK st) else st)"

definition set_sqlite_result :: "nat \<Rightarrow> int \<Rightarrow> ('w, 'c, 'r, int) ffi_body" where
  "set_sqlite_result d result st =
     (if result = SQLITE_OK then (CSGDB_OK, set_ok d st) else set_code d (map_sqlite_code result) st)"

definition current_code :: "CsgdbHandle \<Rightarrow> ('w, 'c, 'r) ffi_state \<Rightarrow> int" where
  "current_code h st = (case ch_database h of None \<Rightarrow> ch_open_code h | Some d \<Rightarrow> last_code d st)"

definition c_string :: "u8 list option \<Rightarrow> int + string" where
  "c_string v =
     (case v of
        None \<Rightarrow> Inl CSGDB_INVALID_ARGUMENT
      | Some bytes \<Rightarrow> (case from_utf8 bytes of None \<Rightarrow> Inl CSGDB_INVALID_ARGUMENT | Some s \<Rightarrow> Inr s))"

text \<open>\<^verbatim>\<open>as_ref\<close> on a handle or statement pointer; the connection behind it must be there.\<close>

definition with_handle ::
  "'a \<Rightarrow> nat option \<Rightarrow> (CsgdbHandle \<Rightarrow> ('w, 'c, 'r, 'a) ffi_body) \<Rightarrow> ('w, 'c, 'r, 'a) ffi_call" where
  "with_handle null p f st =
     (case p of
        None \<Rightarrow> Some (null, st)
      | Some a \<Rightarrow>
          (case fi_handles st a of
             None \<Rightarrow> None
           | Some h \<Rightarrow>
               (case ch_database h of
                  None \<Rightarrow> Some (f h st)
                | Some d \<Rightarrow> if fi_shared st d = None then None else Some (f h st))))"

definition with_statement ::
  "'a \<Rightarrow> nat option \<Rightarrow> (nat \<Rightarrow> 'r CsgdbStatement \<Rightarrow> ('w, 'c, 'r, 'a) ffi_body) \<Rightarrow> ('w, 'c, 'r, 'a) ffi_call" where
  "with_statement null p f st =
     (case p of
        None \<Rightarrow> Some (null, st)
      | Some a \<Rightarrow>
          (case fi_statements st a of
             None \<Rightarrow> None
           | Some s \<Rightarrow> if fi_shared st (cs_database s) = None then None else Some (f a s st)))"

text \<open>The connection mutex: the body runs with the connection unless the mutex is poisoned.\<close>

definition with_lock :: "nat \<Rightarrow> ('w, 'c, 'r, 'a) ffi_body \<Rightarrow> ('c \<Rightarrow> ('w, 'c, 'r, 'a) ffi_body) \<Rightarrow> ('w, 'c, 'r, 'a) ffi_body" where
  "with_lock d poisoned f st =
     (case fi_shared st d of
        Some sd \<Rightarrow> if sd_poisoned sd then poisoned st else f (fst (sd_connection sd)) st
      | None \<Rightarrow> poisoned st)"

definition finish :: "nat \<Rightarrow> 'b result \<times> 'w \<Rightarrow> ('w, 'c, 'r, int) ffi_body" where
  "finish d rw st =
     (case rw of
        (Inr _, w) \<Rightarrow> (CSGDB_OK, set_ok d (st\<lparr>fi_world := w\<rparr>))
      | (Inl e, w) \<Rightarrow> set_error d e (st\<lparr>fi_world := w\<rparr>))"


section \<open>Opening\<close>

record csgdb_key_source =
  ks_struct_size :: u32
  ks_kind :: u32
  ks_data :: "u8 list option"
  ks_provider_id :: "u8 list option"

record csgdb_open_options =
  co_struct_size :: u32
  co_abi_version :: u32
  co_flags :: u32
  co_busy_timeout_ms :: u32
  co_cache_size_bytes :: u64
  co_memory_budget_bytes :: u64
  co_vfs :: "u8 list option"
  co_device_profile :: "u8 list option"
  co_key :: csgdb_key_source

text \<open>The sizes of the two C structures on a 64-bit target. The key data is the slice of \<^verbatim>\<open>data_len\<close> bytes.\<close>

definition SIZEOF_KEY_SOURCE :: u32 where "SIZEOF_KEY_SOURCE = 32"
definition SIZEOF_OPEN_OPTIONS :: u32 where "SIZEOF_OPEN_OPTIONS = 80"

definition default_open_flags :: u32 where
  "default_open_flags = bits READWRITE OR bits CREATE OR bits ENCRYPTED OR bits FULLMUTEX"

definition key_source_default :: csgdb_key_source where
  "key_source_default = \<lparr>ks_struct_size = SIZEOF_KEY_SOURCE, ks_kind = 0, ks_data = None, ks_provider_id = None\<rparr>"

definition open_options_c_default :: csgdb_open_options where
  "open_options_c_default =
     \<lparr>co_struct_size = SIZEOF_OPEN_OPTIONS, co_abi_version = ABI_VERSION, co_flags = default_open_flags,
      co_busy_timeout_ms = DEFAULT_BUSY_TIMEOUT_MS, co_cache_size_bytes = DEFAULT_CACHE_SIZE_BYTES,
      co_memory_budget_bytes = DEFAULT_MEMORY_BUDGET_BYTES, co_vfs = None, co_device_profile = None,
      co_key = key_source_default\<rparr>"

definition csgdb_open_options_init :: "bool \<Rightarrow> int \<times> csgdb_open_options option" where
  "csgdb_open_options_init out_is_null =
     (if out_is_null then (CSGDB_INVALID_ARGUMENT, None) else (CSGDB_OK, Some open_options_c_default))"

definition parse_key_source :: "csgdb_key_source \<Rightarrow> unit KeySource result" where
  "parse_key_source source =
     (if ks_struct_size source < SIZEOF_KEY_SOURCE
      then Inl (Error InvalidKeyLength ''key source structure is too small'')
      else if ks_kind source = 0 then Inr Auto
      else if ks_kind source = 1 then
        (case ks_data source of
           None \<Rightarrow> Inl (Error InvalidKeyLength ''raw key pointer is null'')
         | Some bytes \<Rightarrow> map_ok Raw (secret_key_from_slice bytes))
      else if ks_kind source = 2 then
        (case ks_data source of
           None \<Rightarrow> Inl (Error InvalidKeyLength ''passphrase pointer is null'')
         | Some bytes \<Rightarrow> Inr (Passphrase (SecretString bytes)))
      else if ks_kind source = 3 then Inl (Error KeyStoreUnavailable ''named key providers are not registered'')
      else Inl (Error InvalidKeyLength ''unknown key source kind''))"

text \<open>
  An opening function answers with its code and with what it wrote to the output pointer: nothing because the pointer
  is null, a null handle, or a handle.
\<close>

datatype out_handle = NotWritten | WroteNull | WroteHandle nat

definition shared_new :: "'c \<times> SecurityMode \<Rightarrow> 'c SharedDatabase" where
  "shared_new connection = \<lparr>sd_connection = connection, sd_last_code = CSGDB_OK, sd_poisoned = False, sd_refs = 1\<rparr>"

definition handle_new ::
  "('c \<times> SecurityMode) option \<Rightarrow> int \<Rightarrow> ('w, 'c, 'r) ffi_state \<Rightarrow> nat \<times> ('w, 'c, 'r) ffi_state" where
  "handle_new database code' st =
     (let a = fi_next st in
      case database of
        None \<Rightarrow> (a, st\<lparr>fi_handles := (fi_handles st)(a := Some \<lparr>ch_database = None, ch_open_code = code'\<rparr>), fi_next := Suc a\<rparr>)
      | Some connection \<Rightarrow>
          (a, st\<lparr>fi_handles := (fi_handles st)(a := Some \<lparr>ch_database = Some (Suc a), ch_open_code = code'\<rparr>),
                fi_shared := (fi_shared st)(Suc a := Some (shared_new connection)), fi_next := Suc (Suc a)\<rparr>))"

definition open_from ::
  "u8 list option \<Rightarrow> bool \<Rightarrow> (string \<Rightarrow> (unit, 'w, 'c \<times> SecurityMode) opening_step)
     \<Rightarrow> ('w, 'c, 'r, int \<times> out_handle) ffi_call" where
  "open_from path out_is_null operation st =
     (if out_is_null then Some ((CSGDB_INVALID_ARGUMENT, NotWritten), st)
      else case c_string path of
        Inl code' \<Rightarrow> Some ((code', WroteNull), st)
      | Inr path \<Rightarrow>
          (case operation path ((), fi_world st) of
             None \<Rightarrow> None
           | Some (r, _, w) \<Rightarrow>
               let (database, code') = (case r of Inr x \<Rightarrow> (Some x, CSGDB_OK) | Inl e \<Rightarrow> (None, error_code e)) in
               (case handle_new database code' (st\<lparr>fi_world := w\<rparr>) of
                  (a, st) \<Rightarrow> Some ((code', WroteHandle a), st))))"

definition csgdb_open ::
  "('w, 'c, 'r) FfiEngine \<Rightarrow> u8 list option \<Rightarrow> bool \<Rightarrow> ('w, 'c, 'r, int \<times> out_handle) ffi_call" where
  "csgdb_open eng path out_is_null = open_from path out_is_null (database_open (fe_open eng))"

definition csgdb_open_v2 ::
  "('w, 'c, 'r) FfiEngine \<Rightarrow> u8 list option \<Rightarrow> bool \<Rightarrow> u32 \<Rightarrow> u8 list option \<Rightarrow> ('w, 'c, 'r, int \<times> out_handle) ffi_call" where
  "csgdb_open_v2 eng path out_is_null flags vfs st =
     (if out_is_null then Some ((CSGDB_INVALID_ARGUMENT, NotWritten), st)
      else case (case vfs of None \<Rightarrow> Inr None | Some _ \<Rightarrow> map_ok Some (c_string vfs)) of
        Inl code' \<Rightarrow> Some ((code', WroteNull), st)
      | Inr vfs \<Rightarrow>
          open_from path out_is_null (\<lambda>path (s, w).
            case from_bits flags of
              None \<Rightarrow> Some (Inl (Error InvalidOpenFlags ''open flags contain unknown bits''), s, w)
            | Some flags \<Rightarrow>
                let builder = builder_flags flags (builder_new path) in
                (case vfs of
                   Some name \<Rightarrow> builder_open (fe_open eng) (builder_vfs name builder) (s, w)
                 | None \<Rightarrow> builder_open (fe_open eng) builder (s, w))) st)"

definition csgdb_open_with_key ::
  "('w, 'c, 'r) FfiEngine \<Rightarrow> u8 list option \<Rightarrow> u8 list option \<Rightarrow> bool \<Rightarrow> ('w, 'c, 'r, int \<times> out_handle) ffi_call" where
  "csgdb_open_with_key eng path key out_is_null st =
     (if out_is_null then Some ((CSGDB_INVALID_ARGUMENT, NotWritten), st)
      else case key of
        None \<Rightarrow> Some ((CSGDB_INVALID_ARGUMENT, WroteNull), st)
      | Some bytes \<Rightarrow>
          (case secret_key_from_slice bytes of
             Inl e \<Rightarrow> Some ((error_code e, WroteNull), st)
           | Inr key \<Rightarrow> open_from path out_is_null (\<lambda>path. database_open_with_key (fe_open eng) path (Raw key)) st))"

definition csgdb_open_v3 ::
  "('w, 'c, 'r) FfiEngine \<Rightarrow> u8 list option \<Rightarrow> bool \<Rightarrow> csgdb_open_options option
     \<Rightarrow> ('w, 'c, 'r, int \<times> out_handle) ffi_call" where
  "csgdb_open_v3 eng path out_is_null options st =
     (if out_is_null then Some ((CSGDB_INVALID_ARGUMENT, NotWritten), st)
      else case options of
        None \<Rightarrow> Some ((CSGDB_INVALID_ARGUMENT, WroteNull), st)
      | Some options \<Rightarrow>
          if co_struct_size options < SIZEOF_OPEN_OPTIONS \<or> co_abi_version options \<noteq> ABI_VERSION
             \<or> co_device_profile options \<noteq> None
          then Some ((CSGDB_INVALID_ARGUMENT, WroteNull), st)
          else case from_bits (co_flags options) of
            None \<Rightarrow> Some ((CSGDB_INVALID_OPEN_FLAGS, WroteNull), st)
          | Some flags \<Rightarrow>
              (case (case co_vfs options of None \<Rightarrow> Inr None | Some _ \<Rightarrow> map_ok Some (c_string (co_vfs options))) of
                 Inl code' \<Rightarrow> Some ((code', WroteNull), st)
               | Inr vfs \<Rightarrow>
                   (case parse_key_source (co_key options) of
                      Inl e \<Rightarrow> Some ((error_code e, WroteNull), st)
                    | Inr key \<Rightarrow>
                        let open_options = \<lparr>oo_flags = flags,
                              oo_busy_timeout = duration_from_millis (unat (co_busy_timeout_ms options)),
                              oo_cache_size_bytes = co_cache_size_bytes options,
                              oo_memory_budget_bytes = co_memory_budget_bytes options, oo_vfs = vfs,
                              oo_key = key, oo_auto_key_provider = None\<rparr> in
                        open_from path out_is_null
                          (\<lambda>path. builder_open (fe_open eng) (builder_options open_options (builder_new path))) st)))"

section \<open>Calls on a connection\<close>

definition csgdb_exec ::
  "('w, 'c, 'r) FfiEngine \<Rightarrow> nat option \<Rightarrow> u8 list option \<Rightarrow> ('w, 'c, 'r, int) ffi_call" where
  "csgdb_exec eng database sql =
     with_handle CSGDB_INVALID_ARGUMENT database (\<lambda>h st.
       case c_string sql of
         Inl code' \<Rightarrow> (code', st)
       | Inr sql \<Rightarrow>
           (case ch_database h of
              None \<Rightarrow> (current_code h st, st)
            | Some d \<Rightarrow>
                with_lock d (\<lambda>st. (CSGDB_STORAGE, st)) (\<lambda>c st.
                  finish d (execute_batch (fe_sql eng c) sql (fi_world st)) st) st))"

definition with_database_value ::
  "'a \<Rightarrow> ('c \<Rightarrow> 'w \<Rightarrow> 'a) \<Rightarrow> CsgdbHandle \<Rightarrow> ('w, 'c, 'r, 'a) ffi_body" where
  "with_database_value dflt operation h st =
     (case ch_database h of
        None \<Rightarrow> (dflt, st)
      | Some d \<Rightarrow>
          with_lock d (\<lambda>st. (dflt, snd (set_code d CSGDB_STORAGE st)))
            (\<lambda>c st. (operation c (fi_world st), set_ok d st)) st)"

definition u64_to_i64 :: "u64 \<Rightarrow> int" where
  "u64_to_i64 n = (if uint n < 2 ^ 63 then uint n else 2 ^ 63 - 1)"

definition csgdb_changes64 :: "('w, 'c, 'r) FfiEngine \<Rightarrow> nat option \<Rightarrow> ('w, 'c, 'r, int) ffi_call" where
  "csgdb_changes64 eng database =
     with_handle 0 database (with_database_value 0 (\<lambda>c w. u64_to_i64 (fe_changes eng c w)))"

definition csgdb_total_changes64 :: "('w, 'c, 'r) FfiEngine \<Rightarrow> nat option \<Rightarrow> ('w, 'c, 'r, int) ffi_call" where
  "csgdb_total_changes64 eng database =
     with_handle 0 database (with_database_value 0 (\<lambda>c w. u64_to_i64 (fe_total_changes eng c w)))"

definition csgdb_last_insert_rowid :: "('w, 'c, 'r) FfiEngine \<Rightarrow> nat option \<Rightarrow> ('w, 'c, 'r, i64) ffi_call" where
  "csgdb_last_insert_rowid eng database =
     with_handle 0 database (with_database_value 0 (fe_last_insert_rowid eng))"

definition csgdb_get_autocommit :: "('w, 'c, 'r) FfiEngine \<Rightarrow> nat option \<Rightarrow> ('w, 'c, 'r, int) ffi_call" where
  "csgdb_get_autocommit eng database =
     with_handle 0 database (with_database_value 0 (\<lambda>c w. if fe_autocommit eng c w then 1 else 0))"

text \<open>A bad database name is recorded on the connection, if there is one.\<close>

definition note_code :: "CsgdbHandle \<Rightarrow> int \<Rightarrow> ('w, 'c, 'r) ffi_state \<Rightarrow> ('w, 'c, 'r) ffi_state" where
  "note_code h code' st = (case ch_database h of Some d \<Rightarrow> snd (set_code d code' st) | None \<Rightarrow> st)"

definition is_readonly :: "('w, 'c, 'r) FfiEngine \<Rightarrow> 'c \<Rightarrow> string \<Rightarrow> 'w \<Rightarrow> bool result" where
  "is_readonly eng c name w = map_err map_storage_error (fe_readonly eng c name w)"

definition csgdb_db_readonly ::
  "('w, 'c, 'r) FfiEngine \<Rightarrow> nat option \<Rightarrow> u8 list option \<Rightarrow> ('w, 'c, 'r, int) ffi_call" where
  "csgdb_db_readonly eng database database_name =
     with_handle (- 1) database (\<lambda>h st.
       case c_string database_name of
         Inl code' \<Rightarrow> (- 1, note_code h code' st)
       | Inr name \<Rightarrow>
           (case ch_database h of
              None \<Rightarrow> (- 1, st)
            | Some d \<Rightarrow>
                with_lock d (\<lambda>st. (- 1, snd (set_code d CSGDB_STORAGE st))) (\<lambda>c st.
                  case is_readonly eng c name (fi_world st) of
                    Inr readonly \<Rightarrow> (if readonly then 1 else 0, set_ok d st)
                  | Inl e \<Rightarrow> (- 1, snd (set_error d e st))) st))"

definition optional_name :: "u8 list option \<Rightarrow> int + string option" where
  "optional_name v = (case v of None \<Rightarrow> Inr None | Some _ \<Rightarrow> map_ok Some (c_string v))"

definition csgdb_txn_state ::
  "('w, 'c, 'r) FfiEngine \<Rightarrow> nat option \<Rightarrow> u8 list option \<Rightarrow> ('w, 'c, 'r, int) ffi_call" where
  "csgdb_txn_state eng database database_name =
     with_handle (- 1) database (\<lambda>h st.
       case optional_name database_name of
         Inl code' \<Rightarrow> (- 1, note_code h code' st)
       | Inr name \<Rightarrow>
           (case ch_database h of
              None \<Rightarrow> (- 1, st)
            | Some d \<Rightarrow>
                with_lock d (\<lambda>st. (- 1, snd (set_code d CSGDB_STORAGE st))) (\<lambda>c st.
                  case transaction_state (fe_sql eng c) name (fi_world st) of
                    (Inr state, w) \<Rightarrow>
                      (case state of TxnNone \<Rightarrow> 0 | TxnRead \<Rightarrow> 1 | TxnWrite \<Rightarrow> 2, set_ok d (st\<lparr>fi_world := w\<rparr>))
                  | (Inl e, w) \<Rightarrow> (- 1, snd (set_error d e (st\<lparr>fi_world := w\<rparr>)))) st))"

text \<open>The calls that answer with a status: the argument check, the connection, the lock, the operation.\<close>

definition status_call ::
  "bool \<Rightarrow> ('c \<Rightarrow> 'w \<Rightarrow> 'b result \<times> 'w) \<Rightarrow> CsgdbHandle \<Rightarrow> ('w, 'c, 'r, int) ffi_body" where
  "status_call valid operation h st =
     (if \<not> valid then (CSGDB_INVALID_ARGUMENT, note_code h CSGDB_INVALID_ARGUMENT st)
      else case ch_database h of
        None \<Rightarrow> (current_code h st, st)
      | Some d \<Rightarrow> with_lock d (set_code d CSGDB_STORAGE) (\<lambda>c st. finish d (operation c (fi_world st)) st) st)"

definition csgdb_busy_timeout ::
  "('w, 'c, 'r) FfiEngine \<Rightarrow> nat option \<Rightarrow> int \<Rightarrow> ('w, 'c, 'r, int) ffi_call" where
  "csgdb_busy_timeout eng database timeout_ms =
     with_handle CSGDB_INVALID_ARGUMENT database
       (status_call (0 \<le> timeout_ms) (\<lambda>c. set_busy_timeout (fe_sql eng c) (duration_from_millis (nat timeout_ms))))"

definition csgdb_wal_autocheckpoint ::
  "('w, 'c, 'r) FfiEngine \<Rightarrow> nat option \<Rightarrow> int \<Rightarrow> ('w, 'c, 'r, int) ffi_call" where
  "csgdb_wal_autocheckpoint eng database frames =
     with_handle CSGDB_INVALID_ARGUMENT database
       (status_call (0 \<le> frames) (\<lambda>c. set_wal_autocheckpoint (fe_sql eng c) (word_of_int frames)))"

definition csgdb_release_memory :: "('w, 'c, 'r) FfiEngine \<Rightarrow> nat option \<Rightarrow> ('w, 'c, 'r, int) ffi_call" where
  "csgdb_release_memory eng database =
     with_handle CSGDB_INVALID_ARGUMENT database
       (status_call True (\<lambda>c. map_err_st map_storage_error (fe_release_memory eng c)))"

definition checkpoint_mode :: "int \<Rightarrow> CheckpointMode option" where
  "checkpoint_mode mode =
     (if mode = 0 then Some Passive else if mode = 1 then Some Full else if mode = 2 then Some Restart
      else if mode = 3 then Some Truncate else None)"

definition optional_frame_count :: "u32 option \<Rightarrow> int" where
  "optional_frame_count frames = (case frames of Some n \<Rightarrow> if uint n < 2 ^ 31 then uint n else - 1 | None \<Rightarrow> - 1)"

text \<open>The two outputs of a checkpoint are what is written through the pointers that are not null.\<close>

definition csgdb_wal_checkpoint_v2 ::
  "('w, 'c, 'r) FfiEngine \<Rightarrow> nat option \<Rightarrow> u8 list option \<Rightarrow> int \<Rightarrow> ('w, 'c, 'r, int \<times> int \<times> int) ffi_call" where
  "csgdb_wal_checkpoint_v2 eng database database_name mode =
     with_handle (CSGDB_INVALID_ARGUMENT, - 1, - 1) database (\<lambda>h st.
       case optional_name database_name of
         Inl code' \<Rightarrow> ((code', - 1, - 1), note_code h code' st)
       | Inr name \<Rightarrow>
           (case checkpoint_mode mode of
              None \<Rightarrow> ((CSGDB_INVALID_ARGUMENT, - 1, - 1), note_code h CSGDB_INVALID_ARGUMENT st)
            | Some mode \<Rightarrow>
                (case ch_database h of
                   None \<Rightarrow> ((current_code h st, - 1, - 1), st)
                 | Some d \<Rightarrow>
                     with_lock d (\<lambda>st. ((CSGDB_STORAGE, - 1, - 1), snd (set_code d CSGDB_STORAGE st))) (\<lambda>c st.
                       case checkpoint_database (fe_sql eng c) name mode (fi_world st) of
                         (Inr r, w) \<Rightarrow>
                           let st = st\<lparr>fi_world := w\<rparr>;
                               outs = (optional_frame_count (cr_wal_frames r), optional_frame_count (cr_checkpointed_frames r)) in
                           (if cr_busy r then ((CSGDB_BUSY, outs), snd (set_code d CSGDB_BUSY st))
                            else ((CSGDB_OK, outs), set_ok d st))
                       | (Inl e, w) \<Rightarrow>
                           (case set_error d e (st\<lparr>fi_world := w\<rparr>) of (code', st) \<Rightarrow> ((code', - 1, - 1), st))) st)))"

definition csgdb_interrupt :: "('w, 'c, 'r) FfiEngine \<Rightarrow> nat option \<Rightarrow> ('w, 'c, 'r, unit) ffi_call" where
  "csgdb_interrupt eng database =
     with_handle () database (\<lambda>h st.
       case ch_database h of
         None \<Rightarrow> ((), st)
       | Some d \<Rightarrow>
           (case fi_shared st d of
              Some sd \<Rightarrow> ((), st\<lparr>fi_world := fe_interrupt eng (fst (sd_connection sd)) (fi_world st)\<rparr>)
            | None \<Rightarrow> ((), st)))"

definition csgdb_errcode :: "nat option \<Rightarrow> ('w, 'c, 'r, int) ffi_call" where
  "csgdb_errcode database = with_handle CSGDB_INVALID_ARGUMENT database (\<lambda>h st. (current_code h st, st))"

definition csgdb_errmsg :: "nat option \<Rightarrow> ('w, 'c, 'r, string) ffi_call" where
  "csgdb_errmsg database st = map_option (\<lambda>(code', st). (error_message code', st)) (csgdb_errcode database st)"


section \<open>Statements\<close>

text \<open>
  Preparing answers with the code, the statement handle written (if any), and the tail offset written through the tail
  pointer. The inputs that are null pointers are flagged.
\<close>

definition statement_new ::
  "('w, 'c, 'r) FfiEngine \<Rightarrow> nat \<Rightarrow> 'r \<Rightarrow> ('w, 'c, 'r) ffi_state \<Rightarrow> nat \<times> ('w, 'c, 'r) ffi_state" where
  "statement_new eng d raw st =
     (let a = fi_next st;
          s = \<lparr>cs_database = d, cs_raw = Some raw, cs_state = SReady,
               cs_parameter_count = fe_parameter_count eng raw (fi_world st),
               cs_column_count = fe_column_count eng raw (fi_world st)\<rparr>;
          st = update_shared d (\<lambda>sd. sd\<lparr>sd_refs := Suc (sd_refs sd)\<rparr>) st in
      (a, st\<lparr>fi_statements := (fi_statements st)(a := Some s), fi_next := Suc a\<rparr>))"

definition prepare_statement ::
  "('w, 'c, 'r) FfiEngine \<Rightarrow> nat option \<Rightarrow> u8 list option \<Rightarrow> int \<Rightarrow> u32 \<Rightarrow> bool
     \<Rightarrow> ('w, 'c, 'r, int \<times> nat option \<times> nat option) ffi_call" where
  "prepare_statement eng database sql sql_len flags out_is_null st =
     (if out_is_null then Some ((CSGDB_INVALID_ARGUMENT, None, None), st)
      else with_handle (CSGDB_INVALID_ARGUMENT, None, None) database (\<lambda>h st.
        case ch_database h of
          None \<Rightarrow> ((current_code h st, None, None), st)
        | Some d \<Rightarrow>
            (case sql of
               None \<Rightarrow> ((CSGDB_INVALID_ARGUMENT, None, None), snd (set_code d CSGDB_INVALID_ARGUMENT st))
             | Some bytes \<Rightarrow>
                 if sql_len < - 1 \<or> flags AND NOT CSGDB_PREPARE_PERSISTENT \<noteq> 0
                 then ((CSGDB_INVALID_ARGUMENT, None, None), snd (set_code d CSGDB_INVALID_ARGUMENT st))
                 else with_lock d (\<lambda>st. ((CSGDB_STORAGE, None, None), snd (set_code d CSGDB_STORAGE st))) (\<lambda>c st.
                   case fe_prepare eng c bytes sql_len flags (fi_world st) of
                     ((result, raw, tail), w) \<Rightarrow>
                       if result \<noteq> SQLITE_OK
                       then (let w = (case raw of Some _ \<Rightarrow> snd (fe_finalize eng raw w) | None \<Rightarrow> w) in
                             case set_code d (map_sqlite_code result) (st\<lparr>fi_world := w\<rparr>) of
                               (code', st) \<Rightarrow> ((code', None, tail), st))
                       else (case raw of
                               None \<Rightarrow> ((CSGDB_OK, None, tail), set_ok d (st\<lparr>fi_world := w\<rparr>))
                             | Some r \<Rightarrow>
                                 (case statement_new eng d r (st\<lparr>fi_world := w\<rparr>) of
                                    (a, st) \<Rightarrow> ((CSGDB_OK, Some a, tail), set_ok d st)))) st)) st)"

definition csgdb_prepare_v2 ::
  "('w, 'c, 'r) FfiEngine \<Rightarrow> nat option \<Rightarrow> u8 list option \<Rightarrow> int \<Rightarrow> bool
     \<Rightarrow> ('w, 'c, 'r, int \<times> nat option \<times> nat option) ffi_call" where
  "csgdb_prepare_v2 eng database sql sql_len = prepare_statement eng database sql sql_len 0"

definition csgdb_prepare_v3 ::
  "('w, 'c, 'r) FfiEngine \<Rightarrow> nat option \<Rightarrow> u8 list option \<Rightarrow> int \<Rightarrow> u32 \<Rightarrow> bool
     \<Rightarrow> ('w, 'c, 'r, int \<times> nat option \<times> nat option) ffi_call" where
  "csgdb_prepare_v3 eng database sql sql_len flags = prepare_statement eng database sql sql_len flags"

text \<open>Calls of the engine on the raw statement, and the guards in front of them.\<close>

definition raw_call :: "('w \<Rightarrow> 'a \<times> 'w) \<Rightarrow> ('w, 'c, 'r, 'a) ffi_body" where
  "raw_call operation st = (case operation (fi_world st) of (x, w) \<Rightarrow> (x, st\<lparr>fi_world := w\<rparr>))"

definition checked_raw ::
  "'r CsgdbStatement \<Rightarrow> ('r \<Rightarrow> 'w \<Rightarrow> int \<times> 'w) \<Rightarrow> ('w, 'c, 'r, int) ffi_body" where
  "checked_raw s operation st =
     (if cs_state s \<noteq> SReady then set_code (cs_database s) CSGDB_MISUSE st
      else case cs_raw s of
        None \<Rightarrow> set_code (cs_database s) CSGDB_MISUSE st
      | Some raw \<Rightarrow> (case raw_call (operation raw) st of (result, st) \<Rightarrow> set_sqlite_result (cs_database s) result st))"

definition bind_value ::
  "'r CsgdbStatement \<Rightarrow> int \<Rightarrow> ('r \<Rightarrow> 'w \<Rightarrow> int \<times> 'w) \<Rightarrow> ('w, 'c, 'r, int) ffi_body" where
  "bind_value s index operation st =
     (if index \<le> 0 \<or> index > cs_parameter_count s then set_code (cs_database s) CSGDB_RANGE st
      else checked_raw s operation st)"

definition statement_ready_operation ::
  "'r CsgdbStatement \<Rightarrow> ('r \<Rightarrow> 'w \<Rightarrow> int \<times> 'w) \<Rightarrow> ('w, 'c, 'r, int) ffi_body" where
  "statement_ready_operation s operation = checked_raw s operation"

definition with_statement_metadata ::
  "'a \<Rightarrow> 'r CsgdbStatement \<Rightarrow> ('r \<Rightarrow> 'w \<Rightarrow> 'a) \<Rightarrow> ('w, 'c, 'r, 'a) ffi_body" where
  "with_statement_metadata dflt s operation st =
     (case cs_raw s of
        None \<Rightarrow> (dflt, snd (set_code (cs_database s) CSGDB_MISUSE st))
      | Some raw \<Rightarrow> (operation raw (fi_world st), set_ok (cs_database s) st))"

definition with_column_metadata ::
  "'a \<Rightarrow> 'r CsgdbStatement \<Rightarrow> int \<Rightarrow> ('r \<Rightarrow> 'w \<Rightarrow> 'a) \<Rightarrow> ('w, 'c, 'r, 'a) ffi_body" where
  "with_column_metadata dflt s index operation st =
     (case cs_raw s of
        None \<Rightarrow> (dflt, snd (set_code (cs_database s) CSGDB_MISUSE st))
      | Some raw \<Rightarrow>
          if index < 0 \<or> index \<ge> cs_column_count s then (dflt, snd (set_code (cs_database s) CSGDB_RANGE st))
          else (operation raw (fi_world st), set_ok (cs_database s) st))"

definition with_row_column ::
  "'a \<Rightarrow> 'r CsgdbStatement \<Rightarrow> int \<Rightarrow> ('r \<Rightarrow> 'w \<Rightarrow> 'a \<times> 'w) \<Rightarrow> ('w, 'c, 'r, 'a) ffi_body" where
  "with_row_column dflt s index operation st =
     (case cs_raw s of
        None \<Rightarrow> (dflt, snd (set_code (cs_database s) CSGDB_MISUSE st))
      | Some raw \<Rightarrow>
          if cs_state s \<noteq> SRow then (dflt, snd (set_code (cs_database s) CSGDB_MISUSE st))
          else if index < 0 \<or> index \<ge> cs_column_count s then (dflt, snd (set_code (cs_database s) CSGDB_RANGE st))
          else (case raw_call (operation raw) st of (x, st) \<Rightarrow> (x, set_ok (cs_database s) st)))"

definition csgdb_bind_parameter_count :: "nat option \<Rightarrow> ('w, 'c, 'r, int) ffi_call" where
  "csgdb_bind_parameter_count statement =
     with_statement 0 statement (\<lambda>a s st. (cs_parameter_count s, set_ok (cs_database s) st))"

definition csgdb_bind_parameter_index ::
  "('w, 'c, 'r) FfiEngine \<Rightarrow> nat option \<Rightarrow> u8 list option \<Rightarrow> ('w, 'c, 'r, int) ffi_call" where
  "csgdb_bind_parameter_index eng statement name =
     with_statement 0 statement (\<lambda>a s st.
       case name of
         None \<Rightarrow> (0, snd (set_code (cs_database s) CSGDB_INVALID_ARGUMENT st))
       | Some bytes \<Rightarrow> with_statement_metadata 0 s (\<lambda>raw. fe_parameter_index eng raw bytes) st)"

definition csgdb_bind_parameter_name ::
  "('w, 'c, 'r) FfiEngine \<Rightarrow> nat option \<Rightarrow> int \<Rightarrow> ('w, 'c, 'r, u8 list option) ffi_call" where
  "csgdb_bind_parameter_name eng statement index =
     with_statement None statement (\<lambda>a s. with_statement_metadata None s (\<lambda>raw. fe_parameter_name eng raw index))"

definition bind_call ::
  "('w, 'c, 'r) FfiEngine \<Rightarrow> nat option \<Rightarrow> int \<Rightarrow> BindValue \<Rightarrow> ('w, 'c, 'r, int) ffi_call" where
  "bind_call eng statement index v =
     with_statement CSGDB_INVALID_ARGUMENT statement (\<lambda>a s. bind_value s index (\<lambda>raw. fe_bind eng raw index v))"

definition csgdb_bind_null :: "('w, 'c, 'r) FfiEngine \<Rightarrow> nat option \<Rightarrow> int \<Rightarrow> ('w, 'c, 'r, int) ffi_call" where
  "csgdb_bind_null eng statement index = bind_call eng statement index BindNull"

definition csgdb_bind_int :: "('w, 'c, 'r) FfiEngine \<Rightarrow> nat option \<Rightarrow> int \<Rightarrow> int \<Rightarrow> ('w, 'c, 'r, int) ffi_call" where
  "csgdb_bind_int eng statement index v = bind_call eng statement index (BindInt v)"

definition csgdb_bind_int64 :: "('w, 'c, 'r) FfiEngine \<Rightarrow> nat option \<Rightarrow> int \<Rightarrow> i64 \<Rightarrow> ('w, 'c, 'r, int) ffi_call" where
  "csgdb_bind_int64 eng statement index v = bind_call eng statement index (BindInt64 v)"

definition csgdb_bind_double :: "('w, 'c, 'r) FfiEngine \<Rightarrow> nat option \<Rightarrow> int \<Rightarrow> f64 \<Rightarrow> ('w, 'c, 'r, int) ffi_call" where
  "csgdb_bind_double eng statement index v = bind_call eng statement index (BindDouble v)"

text \<open>
  Text comes as the bytes readable at the pointer: up to a terminator for a negative length, else the given number of
  them.
\<close>

definition csgdb_bind_text ::
  "('w, 'c, 'r) FfiEngine \<Rightarrow> nat option \<Rightarrow> int \<Rightarrow> u8 list option \<Rightarrow> int \<Rightarrow> ('w, 'c, 'r, int) ffi_call" where
  "csgdb_bind_text eng statement index v value_len =
     (case v of
        None \<Rightarrow> bind_call eng statement index BindNull
      | Some bytes \<Rightarrow>
          bind_call eng statement index
            (BindText (if value_len < 0 then takeWhile (\<lambda>b. b \<noteq> 0) bytes else take (nat value_len) bytes)))"

definition csgdb_bind_blob ::
  "('w, 'c, 'r) FfiEngine \<Rightarrow> nat option \<Rightarrow> int \<Rightarrow> u8 list option \<Rightarrow> ('w, 'c, 'r, int) ffi_call" where
  "csgdb_bind_blob eng statement index v =
     (case v of None \<Rightarrow> bind_call eng statement index BindNull | Some bytes \<Rightarrow> bind_call eng statement index (BindBlob bytes))"

definition set_state :: "nat \<Rightarrow> StatementState \<Rightarrow> ('w, 'c, 'r) ffi_state \<Rightarrow> ('w, 'c, 'r) ffi_state" where
  "set_state a state st =
     st\<lparr>fi_statements := (fi_statements st)(a := map_option (\<lambda>s. s\<lparr>cs_state := state\<rparr>) (fi_statements st a))\<rparr>"

definition SQLITE_ROW :: int where "SQLITE_ROW = 100"
definition SQLITE_DONE :: int where "SQLITE_DONE = 101"

text \<open>The engine calls below take the raw pointer as it is; a live statement has one.\<close>

definition raw_of :: "'r CsgdbStatement \<Rightarrow> ('r \<Rightarrow> 'w \<Rightarrow> int \<times> 'w) \<Rightarrow> 'w \<Rightarrow> int \<times> 'w" where
  "raw_of s operation w = (case cs_raw s of Some raw \<Rightarrow> operation raw w | None \<Rightarrow> (21, w))"

definition csgdb_step :: "('w, 'c, 'r) FfiEngine \<Rightarrow> nat option \<Rightarrow> ('w, 'c, 'r, int) ffi_call" where
  "csgdb_step eng statement =
     with_statement CSGDB_INVALID_ARGUMENT statement (\<lambda>a s st.
       if cs_state s = SDone \<or> cs_state s = SFailed then set_code (cs_database s) CSGDB_MISUSE st
       else case raw_call (raw_of s (fe_step eng)) st of
         (result, st) \<Rightarrow>
           if result = SQLITE_ROW then (CSGDB_ROW, set_ok (cs_database s) (set_state a SRow st))
           else if result = SQLITE_DONE then (CSGDB_DONE, set_ok (cs_database s) (set_state a SDone st))
           else set_code (cs_database s) (map_sqlite_code result) (set_state a SFailed st))"

definition csgdb_reset :: "('w, 'c, 'r) FfiEngine \<Rightarrow> nat option \<Rightarrow> ('w, 'c, 'r, int) ffi_call" where
  "csgdb_reset eng statement =
     with_statement CSGDB_INVALID_ARGUMENT statement (\<lambda>a s st.
       case raw_call (raw_of s (fe_reset eng)) st of
         (result, st) \<Rightarrow> set_sqlite_result (cs_database s) result (set_state a SReady st))"

definition csgdb_clear_bindings :: "('w, 'c, 'r) FfiEngine \<Rightarrow> nat option \<Rightarrow> ('w, 'c, 'r, int) ffi_call" where
  "csgdb_clear_bindings eng statement =
     with_statement CSGDB_INVALID_ARGUMENT statement (\<lambda>a s. statement_ready_operation s (fe_clear_bindings eng))"

definition csgdb_reset_and_clear_bindings :: "('w, 'c, 'r) FfiEngine \<Rightarrow> nat option \<Rightarrow> ('w, 'c, 'r, int) ffi_call" where
  "csgdb_reset_and_clear_bindings eng statement =
     with_statement CSGDB_INVALID_ARGUMENT statement (\<lambda>a s st.
       case raw_call (raw_of s (fe_reset eng)) st of
         (reset_result, st) \<Rightarrow>
           (case raw_call (raw_of s (fe_clear_bindings eng)) (set_state a SReady st) of
              (clear_result, st) \<Rightarrow>
                if reset_result = SQLITE_OK then set_sqlite_result (cs_database s) clear_result st
                else set_code (cs_database s) (map_sqlite_code reset_result) st))"

definition csgdb_column_count :: "nat option \<Rightarrow> ('w, 'c, 'r, int) ffi_call" where
  "csgdb_column_count statement =
     with_statement 0 statement (\<lambda>a s st. (cs_column_count s, set_ok (cs_database s) st))"

definition csgdb_column_name ::
  "('w, 'c, 'r) FfiEngine \<Rightarrow> nat option \<Rightarrow> int \<Rightarrow> ('w, 'c, 'r, u8 list option) ffi_call" where
  "csgdb_column_name eng statement index =
     with_statement None statement (\<lambda>a s. with_column_metadata None s index (\<lambda>raw. fe_column_name eng raw index))"

definition column_call ::
  "'a \<Rightarrow> ('r \<Rightarrow> int \<Rightarrow> 'w \<Rightarrow> 'a \<times> 'w) \<Rightarrow> nat option \<Rightarrow> int \<Rightarrow> ('w, 'c, 'r, 'a) ffi_call" where
  "column_call dflt operation statement index =
     with_statement dflt statement (\<lambda>a s. with_row_column dflt s index (\<lambda>raw. operation raw index))"

definition csgdb_column_type :: "('w, 'c, 'r) FfiEngine \<Rightarrow> nat option \<Rightarrow> int \<Rightarrow> ('w, 'c, 'r, int) ffi_call" where
  "csgdb_column_type eng = column_call CSGDB_NULL (fe_column_type eng)"

definition csgdb_column_int :: "('w, 'c, 'r) FfiEngine \<Rightarrow> nat option \<Rightarrow> int \<Rightarrow> ('w, 'c, 'r, int) ffi_call" where
  "csgdb_column_int eng = column_call 0 (fe_column_int eng)"

definition csgdb_column_int64 :: "('w, 'c, 'r) FfiEngine \<Rightarrow> nat option \<Rightarrow> int \<Rightarrow> ('w, 'c, 'r, i64) ffi_call" where
  "csgdb_column_int64 eng = column_call 0 (fe_column_int64 eng)"

definition csgdb_column_double ::
  "('w, 'c, 'r) FfiEngine \<Rightarrow> nat option \<Rightarrow> int \<Rightarrow> ('w, 'c, 'r, f64) ffi_call" where
  "csgdb_column_double eng = column_call 0 (fe_column_double eng)"

definition csgdb_column_text :: "('w, 'c, 'r) FfiEngine \<Rightarrow> nat option \<Rightarrow> int \<Rightarrow> ('w, 'c, 'r, u8 list option) ffi_call" where
  "csgdb_column_text eng = column_call None (fe_column_text eng)"

definition csgdb_column_blob :: "('w, 'c, 'r) FfiEngine \<Rightarrow> nat option \<Rightarrow> int \<Rightarrow> ('w, 'c, 'r, u8 list option) ffi_call" where
  "csgdb_column_blob eng = column_call None (fe_column_blob eng)"

definition csgdb_column_bytes :: "('w, 'c, 'r) FfiEngine \<Rightarrow> nat option \<Rightarrow> int \<Rightarrow> ('w, 'c, 'r, int) ffi_call" where
  "csgdb_column_bytes eng = column_call 0 (fe_column_bytes eng)"

text \<open>The answer is the code, the data and the length; the outputs are cleared first.\<close>

definition csgdb_column_blob_view ::
  "('w, 'c, 'r) FfiEngine \<Rightarrow> nat option \<Rightarrow> int \<Rightarrow> bool \<Rightarrow> bool
     \<Rightarrow> ('w, 'c, 'r, int \<times> u8 list option \<times> nat) ffi_call" where
  "csgdb_column_blob_view eng statement index out_data_null out_len_null =
     with_statement (CSGDB_INVALID_ARGUMENT, None, 0) statement (\<lambda>a s st.
       let fail = (\<lambda>code'. ((code', None, 0), snd (set_code (cs_database s) code' st))) in
       if out_data_null \<or> out_len_null then fail CSGDB_INVALID_ARGUMENT
       else case cs_raw s of
         None \<Rightarrow> fail CSGDB_MISUSE
       | Some raw \<Rightarrow>
           if cs_state s \<noteq> SRow then fail CSGDB_MISUSE
           else if index < 0 \<or> index \<ge> cs_column_count s then fail CSGDB_RANGE
           else (case raw_call (fe_column_blob eng raw index) st of
             (data, st) \<Rightarrow>
               (case raw_call (fe_column_bytes eng raw index) st of
                  (byte_len, st) \<Rightarrow>
                    if byte_len < 0 then ((CSGDB_STORAGE, None, 0), snd (set_code (cs_database s) CSGDB_STORAGE st))
                    else ((CSGDB_OK, data, nat byte_len), set_ok (cs_database s) st))))"

section \<open>Releasing\<close>

text \<open>
  Dropping one reference to a connection; the last one drops the connection. Finalizing a statement takes it out of
  the store, finalizes the raw statement and drops the statement's reference.
\<close>

definition drop_reference :: "('w, 'c, 'r) FfiEngine \<Rightarrow> nat \<Rightarrow> ('w, 'c, 'r) ffi_state \<Rightarrow> ('w, 'c, 'r) ffi_state" where
  "drop_reference eng d st =
     (case fi_shared st d of
        None \<Rightarrow> st
      | Some sd \<Rightarrow>
          if sd_refs sd \<le> 1
          then st\<lparr>fi_shared := (fi_shared st)(d := None),
                  fi_world := o_drop (fe_open eng) (fst (sd_connection sd)) (fi_world st)\<rparr>
          else update_shared d (\<lambda>sd. sd\<lparr>sd_refs := sd_refs sd - 1\<rparr>) st)"

definition csgdb_finalize :: "('w, 'c, 'r) FfiEngine \<Rightarrow> nat option \<Rightarrow> ('w, 'c, 'r, int) ffi_call" where
  "csgdb_finalize eng statement =
     with_statement CSGDB_OK statement (\<lambda>a s st.
       case raw_call (fe_finalize eng (cs_raw s)) (st\<lparr>fi_statements := (fi_statements st)(a := None)\<rparr>) of
         (result, st) \<Rightarrow>
           (case set_sqlite_result (cs_database s) result st of
              (code', st) \<Rightarrow> (code', drop_reference eng (cs_database s) st)))"

definition csgdb_close :: "('w, 'c, 'r) FfiEngine \<Rightarrow> nat option \<Rightarrow> ('w, 'c, 'r, int) ffi_call" where
  "csgdb_close eng database st =
     (case database of
        None \<Rightarrow> Some (CSGDB_OK, st)
      | Some a \<Rightarrow>
          with_handle CSGDB_OK (Some a) (\<lambda>h st.
            let st = st\<lparr>fi_handles := (fi_handles st)(a := None)\<rparr> in
            case ch_database h of
              None \<Rightarrow> (ch_open_code h, st)
            | Some d \<Rightarrow>
                (case fi_shared st d of
                   None \<Rightarrow> (CSGDB_OK, st)
                 | Some sd \<Rightarrow>
                     if sd_refs sd = 1 then
                       (if sd_poisoned sd then (CSGDB_STORAGE, drop_reference eng d st)
                        else case map_err_st map_storage_error (fe_close eng (fst (sd_connection sd))) (fi_world st) of
                          (r, w) \<Rightarrow> (case r of Inr _ \<Rightarrow> CSGDB_OK | Inl e \<Rightarrow> error_code e,
                                     st\<lparr>fi_shared := (fi_shared st)(d := None), fi_world := w\<rparr>))
                     else (CSGDB_OK, drop_reference eng d st))) st)"

end
