(* ===== verification/Ffi_Laws.thy ===== *)
theory Ffi_Laws
  imports Ffi
begin

text \<open>
  Laws of the C interface: every sequence of calls on live pointers stays inside the store, a connection lives exactly as long
  as its handle or one of its statements, the protocol of a statement, and the status a call leaves behind.
\<close>

section \<open>Requests\<close>

datatype db_call =
    CExec "u8 list option" | CChanges | CTotalChanges | CRowid | CAutocommit | CReadonly "u8 list option"
  | CTxnState "u8 list option" | CBusyTimeout int | CAutocheckpoint int | CCheckpoint "u8 list option" int
  | CInterrupt | CReleaseMemory | CErrcode

datatype stmt_call =
    CParameterCount | CParameterIndex "u8 list option" | CParameterName int | CBindNull int | CBindInt int int
  | CBindInt64 int i64 | CBindDouble int f64 | CBindText int "u8 list option" int | CBindBlob int "u8 list option"
  | CStep | CReset | CClearBindings | CResetAndClear | CColumnCount | CColumnName int | CColumnType int | CColumnInt int
  | CColumnInt64 int | CColumnDouble int | CColumnText int | CColumnBlob int | CColumnBytes int | CBlobView int bool bool

datatype open_call =
    COpen "u8 list option" | COpenV2 "u8 list option" u32 "u8 list option" | COpenKey "u8 list option" "u8 list option"
  | COpenV3 "u8 list option" "csgdb_open_options option"

datatype request =
    ROpen open_call bool | RDatabase "nat option" db_call | RStatement "nat option" stmt_call
  | RPrepare "nat option" "u8 list option" int u32 bool | RFinalize "nat option" | RClose "nat option"

definition after :: "('a \<times> 's) option \<Rightarrow> 's option" where
  "after r = map_option snd r"

fun run_open :: "('w, 'c, 'r) FfiEngine \<Rightarrow> open_call \<Rightarrow> bool \<Rightarrow> ('w, 'c, 'r, int \<times> out_handle) ffi_call" where
  "run_open eng (COpen path) out = csgdb_open eng path out"
| "run_open eng (COpenV2 path flags vfs) out = csgdb_open_v2 eng path out flags vfs"
| "run_open eng (COpenKey path key) out = csgdb_open_with_key eng path key out"
| "run_open eng (COpenV3 path options) out = csgdb_open_v3 eng path out options"

fun run_db :: "('w, 'c, 'r) FfiEngine \<Rightarrow> nat option \<Rightarrow> db_call \<Rightarrow> ('w, 'c, 'r) ffi_state \<Rightarrow> ('w, 'c, 'r) ffi_state option" where
  "run_db eng p (CExec sql) st = after (csgdb_exec eng p sql st)"
| "run_db eng p CChanges st = after (csgdb_changes64 eng p st)"
| "run_db eng p CTotalChanges st = after (csgdb_total_changes64 eng p st)"
| "run_db eng p CRowid st = after (csgdb_last_insert_rowid eng p st)"
| "run_db eng p CAutocommit st = after (csgdb_get_autocommit eng p st)"
| "run_db eng p (CReadonly name) st = after (csgdb_db_readonly eng p name st)"
| "run_db eng p (CTxnState name) st = after (csgdb_txn_state eng p name st)"
| "run_db eng p (CBusyTimeout n) st = after (csgdb_busy_timeout eng p n st)"
| "run_db eng p (CAutocheckpoint n) st = after (csgdb_wal_autocheckpoint eng p n st)"
| "run_db eng p (CCheckpoint name mode) st = after (csgdb_wal_checkpoint_v2 eng p name mode st)"
| "run_db eng p CInterrupt st = after (csgdb_interrupt eng p st)"
| "run_db eng p CReleaseMemory st = after (csgdb_release_memory eng p st)"
| "run_db eng p CErrcode st = after (csgdb_errcode p st)"

fun run_stmt :: "('w, 'c, 'r) FfiEngine \<Rightarrow> nat option \<Rightarrow> stmt_call \<Rightarrow> ('w, 'c, 'r) ffi_state \<Rightarrow> ('w, 'c, 'r) ffi_state option" where
  "run_stmt eng p CParameterCount st = after (csgdb_bind_parameter_count p st)"
| "run_stmt eng p (CParameterIndex name) st = after (csgdb_bind_parameter_index eng p name st)"
| "run_stmt eng p (CParameterName i) st = after (csgdb_bind_parameter_name eng p i st)"
| "run_stmt eng p (CBindNull i) st = after (csgdb_bind_null eng p i st)"
| "run_stmt eng p (CBindInt i v) st = after (csgdb_bind_int eng p i v st)"
| "run_stmt eng p (CBindInt64 i v) st = after (csgdb_bind_int64 eng p i v st)"
| "run_stmt eng p (CBindDouble i v) st = after (csgdb_bind_double eng p i v st)"
| "run_stmt eng p (CBindText i v n) st = after (csgdb_bind_text eng p i v n st)"
| "run_stmt eng p (CBindBlob i v) st = after (csgdb_bind_blob eng p i v st)"
| "run_stmt eng p CStep st = after (csgdb_step eng p st)"
| "run_stmt eng p CReset st = after (csgdb_reset eng p st)"
| "run_stmt eng p CClearBindings st = after (csgdb_clear_bindings eng p st)"
| "run_stmt eng p CResetAndClear st = after (csgdb_reset_and_clear_bindings eng p st)"
| "run_stmt eng p CColumnCount st = after (csgdb_column_count p st)"
| "run_stmt eng p (CColumnName i) st = after (csgdb_column_name eng p i st)"
| "run_stmt eng p (CColumnType i) st = after (csgdb_column_type eng p i st)"
| "run_stmt eng p (CColumnInt i) st = after (csgdb_column_int eng p i st)"
| "run_stmt eng p (CColumnInt64 i) st = after (csgdb_column_int64 eng p i st)"
| "run_stmt eng p (CColumnDouble i) st = after (csgdb_column_double eng p i st)"
| "run_stmt eng p (CColumnText i) st = after (csgdb_column_text eng p i st)"
| "run_stmt eng p (CColumnBlob i) st = after (csgdb_column_blob eng p i st)"
| "run_stmt eng p (CColumnBytes i) st = after (csgdb_column_bytes eng p i st)"
| "run_stmt eng p (CBlobView i d n) st = after (csgdb_column_blob_view eng p i d n st)"

fun run :: "('w, 'c, 'r) FfiEngine \<Rightarrow> request \<Rightarrow> ('w, 'c, 'r) ffi_state \<Rightarrow> ('w, 'c, 'r) ffi_state option" where
  "run eng (ROpen call out) st = after (run_open eng call out st)"
| "run eng (RDatabase p call) st = run_db eng p call st"
| "run eng (RStatement p call) st = run_stmt eng p call st"
| "run eng (RPrepare p sql n flags out) st = after (prepare_statement eng p sql n flags out st)"
| "run eng (RFinalize p) st = after (csgdb_finalize eng p st)"
| "run eng (RClose p) st = after (csgdb_close eng p st)"

text \<open>The caller contract: a pointer is null or live.\<close>

fun contract :: "request \<Rightarrow> ('w, 'c, 'r) ffi_state \<Rightarrow> bool" where
  "contract (ROpen _ _) st = True"
| "contract (RDatabase p _) st = (\<forall>a. p = Some a \<longrightarrow> fi_handles st a \<noteq> None)"
| "contract (RPrepare p _ _ _ _) st = (\<forall>a. p = Some a \<longrightarrow> fi_handles st a \<noteq> None)"
| "contract (RClose p) st = (\<forall>a. p = Some a \<longrightarrow> fi_handles st a \<noteq> None)"
| "contract (RStatement p _) st = (\<forall>a. p = Some a \<longrightarrow> fi_statements st a \<noteq> None)"
| "contract (RFinalize p) st = (\<forall>a. p = Some a \<longrightarrow> fi_statements st a \<noteq> None)"

definition ffi_start :: "('w, 'c, 'r) ffi_state \<Rightarrow> bool" where
  "ffi_start st \<longleftrightarrow> fi_handles st = (\<lambda>_. None) \<and> fi_shared st = (\<lambda>_. None) \<and> fi_statements st = (\<lambda>_. None)"

inductive ffi_step :: "('w, 'c, 'r) FfiEngine \<Rightarrow> ('w, 'c, 'r) ffi_state \<Rightarrow> ('w, 'c, 'r) ffi_state \<Rightarrow> bool" for eng where
  call: "contract req st \<Longrightarrow> run eng req st = Some st' \<Longrightarrow> ffi_step eng st st'"

section \<open>The shape of the store\<close>

text \<open>Everything but status words, statement states and the engine's world.\<close>

definition shape ::
  "('w, 'c, 'r) ffi_state \<Rightarrow> (nat \<Rightarrow> CsgdbHandle option) \<times> (nat \<Rightarrow> (('c \<times> SecurityMode) \<times> bool \<times> nat) option)
     \<times> (nat \<Rightarrow> (nat \<times> 'r option \<times> int \<times> int) option) \<times> nat" where
  "shape st = (fi_handles st, (\<lambda>d. map_option (\<lambda>sd. (sd_connection sd, sd_poisoned sd, sd_refs sd)) (fi_shared st d)),
     (\<lambda>a. map_option (\<lambda>s. (cs_database s, cs_raw s, cs_parameter_count s, cs_column_count s)) (fi_statements st a)), fi_next st)"

lemma shape_world [simp]: "shape (st\<lparr>fi_world := w\<rparr>) = shape st"
  by (simp add: shape_def)

lemma shape_set_code [simp]: "shape (snd (set_code d c st)) = shape st"
  by (auto simp: shape_def set_code_def update_shared_def option.map_comp comp_def fun_eq_iff)

lemma shape_set_state [simp]: "shape (set_state a x st) = shape st"
  by (auto simp: shape_def set_state_def option.map_comp comp_def fun_eq_iff)

lemma shape_set_ok [simp]: "shape (set_ok d st) = shape st"
  by (simp add: set_ok_def)

lemma shape_set_error [simp]: "shape (snd (set_error d e st)) = shape st"
  by (simp add: set_error_def)

lemma shape_set_errorD: "set_error d e st = (c, st') \<Longrightarrow> shape st' = shape st"
  using shape_set_error [of d e st] by simp

lemma shape_set_codeD: "set_code d c st = (c', st') \<Longrightarrow> shape st' = shape st"
  using shape_set_code [of d c st] by simp

lemma shape_note_code [simp]: "shape (note_code h c st) = shape st"
  by (simp add: note_code_def split: option.splits)

lemma shape_set_sqlite_result [simp]: "shape (snd (set_sqlite_result d n st)) = shape st"
  by (simp add: set_sqlite_result_def)

lemma shape_raw_call [simp]: "shape (snd (raw_call f st)) = shape st"
  by (simp add: raw_call_def split: prod.splits)

lemma shape_raw_callD: "raw_call f st = (x, st') \<Longrightarrow> shape st' = shape st"
  using shape_raw_call [of f st] by simp

lemma shape_finish [simp]: "shape (snd (finish d rw st)) = shape st"
  by (simp add: finish_def split: prod.splits sum.splits)

lemma with_lock_shape:
  "(\<And>st. shape (snd (p st)) = shape st) \<Longrightarrow> (\<And>c st. shape (snd (f c st)) = shape st)
     \<Longrightarrow> shape (snd (with_lock d p f st)) = shape st"
  by (simp add: with_lock_def split: option.splits)

lemma with_handle_shape:
  assumes "\<And>h. shape (snd (f h st)) = shape st" "with_handle n p f st = Some (r, st')"
  shows "shape st' = shape st"
  using assms(2) assms(1) [of "the (fi_handles st (the p))"]
  by (auto simp: with_handle_def split: option.splits if_splits)

lemma with_statement_shape:
  assumes "\<And>a s. shape (snd (f a s st)) = shape st" "with_statement n p f st = Some (r, st')"
  shows "shape st' = shape st"
  using assms(2) assms(1) [of "the p" "the (fi_statements st (the p))"]
  by (auto simp: with_statement_def split: option.splits if_splits)


lemma db_calls_keep_shape:
  assumes "run_db eng p call st = Some st'"
  shows "shape st' = shape st"
proof -
  have body: "shape st' = shape st"
    if "after (with_handle n p f st) = Some st'" "\<And>h. shape (snd (f h st)) = shape st" for n :: 'x and f
    using that with_handle_shape [of f st n p _ st'] by (auto simp: after_def)
  show ?thesis
    using assms
    by (cases call)
      (auto simp: csgdb_exec_def csgdb_changes64_def csgdb_total_changes64_def csgdb_last_insert_rowid_def csgdb_get_autocommit_def
        csgdb_db_readonly_def csgdb_txn_state_def csgdb_busy_timeout_def csgdb_wal_autocheckpoint_def csgdb_release_memory_def
        csgdb_wal_checkpoint_v2_def csgdb_interrupt_def csgdb_errcode_def status_call_def with_database_value_def Let_def
        split: option.splits sum.splits prod.splits if_splits
        elim!: body intro!: with_lock_shape dest!: shape_set_errorD)
qed


lemma row_column_shape: "shape (snd (with_row_column x s i f st)) = shape st"
  by (auto simp: with_row_column_def dest: shape_raw_callD split: option.splits prod.splits)

lemma bind_value_shape: "shape (snd (bind_value s i f st)) = shape st"
  by (auto simp: bind_value_def checked_raw_def dest: shape_raw_callD split: option.splits prod.splits)

lemma stmt_calls_keep_shape:
  assumes "run_stmt eng p call st = Some st'"
  shows "shape st' = shape st"
proof -
  have body: "shape st' = shape st"
    if "after (with_statement n p f st) = Some st'" "\<And>a s. shape (snd (f a s st)) = shape st" for n :: 'x and f
    using that with_statement_shape [of f st n p _ st'] by (auto simp: after_def)
  show ?thesis
    using assms
    by (cases call)
      (auto simp: csgdb_bind_parameter_count_def csgdb_bind_parameter_index_def csgdb_bind_parameter_name_def
        bind_call_def csgdb_bind_null_def csgdb_bind_int_def csgdb_bind_int64_def csgdb_bind_double_def csgdb_bind_text_def
        csgdb_bind_blob_def csgdb_step_def csgdb_reset_def csgdb_clear_bindings_def csgdb_reset_and_clear_bindings_def
        csgdb_column_count_def csgdb_column_name_def column_call_def csgdb_column_type_def csgdb_column_int_def
        csgdb_column_int64_def csgdb_column_double_def csgdb_column_text_def csgdb_column_blob_def csgdb_column_bytes_def
        csgdb_column_blob_view_def statement_ready_operation_def checked_raw_def with_statement_metadata_def
        with_column_metadata_def row_column_shape bind_value_shape Let_def
        split: option.splits prod.splits if_splits
        elim!: body dest!: shape_raw_callD)
qed

section \<open>Ownership\<close>

text \<open>
  The invariant of the store: fresh addresses are free; a connection is there exactly while a handle or a statement refers to it,
  it has at most one handle, and its count is the number of references; every statement has its raw statement.
\<close>

definition holders :: "('w, 'c, 'r) ffi_state \<Rightarrow> nat \<Rightarrow> nat set" where
  "holders st d = {a. \<exists>h. fi_handles st a = Some h \<and> ch_database h = Some d}"

definition users :: "('w, 'c, 'r) ffi_state \<Rightarrow> nat \<Rightarrow> nat set" where
  "users st d = {a. \<exists>s. fi_statements st a = Some s \<and> cs_database s = d}"

definition fresh_free :: "('w, 'c, 'r) ffi_state \<Rightarrow> bool" where
  "fresh_free st \<longleftrightarrow> (\<forall>a \<ge> fi_next st. fi_handles st a = None \<and> fi_shared st a = None \<and> fi_statements st a = None)"

definition counted :: "('w, 'c, 'r) ffi_state \<Rightarrow> nat \<Rightarrow> bool" where
  "counted st d \<longleftrightarrow> finite (holders st d) \<and> finite (users st d) \<and> card (holders st d) \<le> 1 \<and>
     map_option sd_refs (fi_shared st d) =
       (if holders st d = {} \<and> users st d = {} then None else Some (card (holders st d) + card (users st d)))"

definition ffi_inv :: "('w, 'c, 'r) ffi_state \<Rightarrow> bool" where
  "ffi_inv st \<longleftrightarrow> fresh_free st \<and> (\<forall>d. counted st d) \<and> (\<forall>a s. fi_statements st a = Some s \<longrightarrow> cs_raw s \<noteq> None)"

lemma shape_eqD:
  assumes "shape st' = shape st"
  shows "fi_handles st' = fi_handles st" "fi_next st' = fi_next st"
    "map_option (\<lambda>sd. (sd_connection sd, sd_poisoned sd, sd_refs sd)) (fi_shared st' d)
       = map_option (\<lambda>sd. (sd_connection sd, sd_poisoned sd, sd_refs sd)) (fi_shared st d)"
    "map_option (\<lambda>s. (cs_database s, cs_raw s, cs_parameter_count s, cs_column_count s)) (fi_statements st' a)
       = map_option (\<lambda>s. (cs_database s, cs_raw s, cs_parameter_count s, cs_column_count s)) (fi_statements st a)"
  using assms by (auto simp: shape_def fun_eq_iff)

lemma shape_holders: "shape st' = shape st \<Longrightarrow> holders st' d = holders st d"
  unfolding holders_def by (drule shape_eqD(1)) simp

lemma shape_statements:
  assumes "shape st' = shape st" "fi_statements st' a = Some s'"
  obtains s where "fi_statements st a = Some s" "cs_database s' = cs_database s" "cs_raw s' = cs_raw s"
  using shape_eqD(4) [OF assms(1), of a] assms(2) by (cases "fi_statements st a") auto

lemma shape_users_subset: "shape st' = shape st \<Longrightarrow> users st' d \<subseteq> users st d"
  using shape_statements [of st' st] by (fastforce simp: users_def)

lemma shape_users: "shape st' = shape st \<Longrightarrow> users st' d = users st d"
  using shape_users_subset [of st' st d] shape_users_subset [of st st' d] by simp

lemma shape_shared:
  "shape st' = shape st \<Longrightarrow> fi_shared st' d = None \<longleftrightarrow> fi_shared st d = None"
  "shape st' = shape st \<Longrightarrow> fi_shared st' d = Some sd' \<Longrightarrow> fi_shared st d = Some sd \<Longrightarrow> sd_refs sd' = sd_refs sd"
  using shape_eqD(3) [of st' st d] by (auto simp: map_option_case split: option.splits)

lemma counted_cong:
  assumes "counted st d" "holders st' d = holders st d" "users st' d = users st d"
    "map_option sd_refs (fi_shared st' d) = map_option sd_refs (fi_shared st d)"
  shows "counted st' d"
  using assms by (simp add: counted_def)

lemma shape_refs:
  assumes "shape st' = shape st"
  shows "map_option sd_refs (fi_shared st' d) = map_option sd_refs (fi_shared st d)"
  using arg_cong [OF shape_eqD(3) [OF assms, of d], of "map_option (\<lambda>x. snd (snd x))"]
  by (simp add: option.map_comp comp_def)

lemma shape_counted: "shape st' = shape st \<Longrightarrow> counted st d \<Longrightarrow> counted st' d"
  by (rule counted_cong [OF _ shape_holders shape_users shape_refs])

lemma shape_fresh:
  assumes "shape st' = shape st" "fresh_free st"
  shows "fresh_free st'"
proof -
  have "fi_statements st' a = None" if "fi_statements st a = None" for a
    using shape_eqD(4) [OF assms(1), of a] that by simp
  then show ?thesis
    using assms(2) shape_shared(1) [OF assms(1)] unfolding fresh_free_def shape_eqD(1,2) [OF assms(1)] by blast
qed

lemma shape_inv: "shape st' = shape st \<Longrightarrow> ffi_inv st \<Longrightarrow> ffi_inv st'"
  unfolding ffi_inv_def by (metis shape_statements shape_fresh shape_counted)

text \<open>A fresh address is used by nobody.\<close>

lemma fresh_address:
  assumes "ffi_inv st" "fi_next st \<le> a"
  shows "fi_handles st a = None" "fi_shared st a = None" "fi_statements st a = None" "holders st a = {}" "users st a = {}"
    "a \<notin> holders st d" "a \<notin> users st d"
proof -
  show free: "fi_handles st a = None" "fi_shared st a = None" "fi_statements st a = None"
    using assms by (auto simp: ffi_inv_def fresh_free_def)
  have "counted st a" using assms(1) by (simp add: ffi_inv_def)
  then show "holders st a = {}" "users st a = {}" by (simp_all add: counted_def free split: if_splits)
  show "a \<notin> holders st d" "a \<notin> users st d" by (simp_all add: holders_def users_def free)
qed

lemma inv_handle_new:
  assumes inv: "ffi_inv st"
  shows "ffi_inv (snd (handle_new database c st))"
proof -
  let ?st = "snd (handle_new database c st)" and ?a = "fi_next st"
  note free = fresh_address [OF inv order_refl] fresh_address [OF inv le_SucI [OF order_refl]]
  have counted: "counted st d" for d using inv by (simp add: ffi_inv_def)
  have users: "users ?st d = users st d" for d by (simp add: users_def handle_new_def Let_def split: option.splits)
  have "counted ?st d" for d
  proof (cases "database \<noteq> None \<and> d = Suc ?a")
    case True
    then have "holders ?st d = {?a}"
      using free by (auto simp: holders_def handle_new_def Let_def split: if_splits)
    moreover have "fi_shared ?st d = Some (shared_new (the database))" using True by (auto simp: handle_new_def Let_def)
    ultimately show ?thesis using free True by (auto simp: counted_def users shared_new_def)
  next
    case False
    have "holders ?st d = holders st d"
      using free False by (auto simp: holders_def handle_new_def Let_def split: option.splits if_splits)
    moreover have "fi_shared ?st d = fi_shared st d" using False by (auto simp: handle_new_def Let_def split: option.splits)
    ultimately show ?thesis using counted_cong [OF counted, of ?st d] users by simp
  qed
  moreover have "fresh_free ?st" using inv by (auto simp: ffi_inv_def fresh_free_def handle_new_def Let_def split: option.splits)
  moreover have "fi_statements ?st = fi_statements st" by (simp add: handle_new_def Let_def split: option.splits)
  ultimately show ?thesis using inv by (simp add: ffi_inv_def)
qed

lemma inv_statement_new:
  assumes inv: "ffi_inv st" and shared: "fi_shared st d = Some sd"
  shows "ffi_inv (snd (statement_new eng d raw st))"
proof -
  let ?st = "snd (statement_new eng d raw st)" and ?a = "fi_next st"
  note free = fresh_address [OF inv order_refl]
  have counted: "counted st e" for e using inv by (simp add: ffi_inv_def)
  have holders: "holders ?st e = holders st e" for e by (simp add: holders_def statement_new_def update_shared_def Let_def)
  have users: "users ?st e = (if e = d then insert ?a (users st e) else users st e)" for e
    using free by (auto simp: users_def statement_new_def update_shared_def Let_def)
  have "counted ?st e" for e
  proof (cases "e = d")
    case True
    have "fi_shared ?st d = Some (sd\<lparr>sd_refs := Suc (sd_refs sd)\<rparr>)"
      by (simp add: statement_new_def update_shared_def Let_def shared)
    then show ?thesis using counted [of d] free(7) [of d] True by (simp add: counted_def users holders shared split: if_splits)
  next
    case False
    then have "fi_shared ?st e = fi_shared st e" by (simp add: statement_new_def update_shared_def Let_def)
    then show ?thesis using counted_cong [OF counted, of ?st e] users holders False by simp
  qed
  moreover have "fresh_free ?st"
    using inv shared by (auto simp: ffi_inv_def fresh_free_def statement_new_def update_shared_def Let_def)
  moreover have "fi_statements ?st a = Some s \<longrightarrow> cs_raw s \<noteq> None" for a s
    using inv by (auto simp: ffi_inv_def statement_new_def update_shared_def Let_def)
  ultimately show ?thesis by (simp add: ffi_inv_def)
qed


text \<open>One reference to \<open>d\<close> has gone without being counted; dropping it, in whichever way, restores the invariant.\<close>

definition owed :: "('w, 'c, 'r) ffi_state \<Rightarrow> nat \<Rightarrow> bool" where
  "owed st d \<longleftrightarrow> fresh_free st \<and> (\<forall>e. e \<noteq> d \<longrightarrow> counted st e) \<and> (\<forall>a s. fi_statements st a = Some s \<longrightarrow> cs_raw s \<noteq> None) \<and>
     finite (holders st d) \<and> finite (users st d) \<and> card (holders st d) \<le> 1 \<and>
     map_option sd_refs (fi_shared st d) = Some (Suc (card (holders st d) + card (users st d)))"

lemma shape_owed: "shape st' = shape st \<Longrightarrow> owed st d \<Longrightarrow> owed st' d"
  unfolding owed_def
  by (metis shape_statements shape_fresh shape_counted shape_holders shape_users shape_refs)

lemma owed_dropped:
  assumes "owed st d" "holders st d = {}" "users st d = {}"
  shows "ffi_inv (st\<lparr>fi_shared := (fi_shared st)(d := None), fi_world := w\<rparr>)" (is "ffi_inv ?st")
proof -
  have refs: "holders ?st e = holders st e" "users ?st e = users st e" for e by (simp_all add: holders_def users_def)
  have "counted ?st e" for e
    using assms by (cases "e = d") (simp_all add: owed_def counted_def refs)
  then show ?thesis using assms(1) by (simp add: ffi_inv_def owed_def fresh_free_def)
qed

lemma inv_drop_reference:
  assumes owed: "owed st d"
  shows "ffi_inv (drop_reference eng d st)"
    "fi_shared (drop_reference eng d st) d = None \<longleftrightarrow> holders st d = {} \<and> users st d = {}"
proof -
  obtain sd where sd: "fi_shared st d = Some sd" "sd_refs sd = Suc (card (holders st d) + card (users st d))"
    using owed by (auto simp: owed_def)
  have last: "sd_refs sd \<le> 1 \<longleftrightarrow> holders st d = {} \<and> users st d = {}" using owed sd(2) by (simp add: owed_def)
  then show "fi_shared (drop_reference eng d st) d = None \<longleftrightarrow> holders st d = {} \<and> users st d = {}"
    by (simp add: drop_reference_def sd(1) update_shared_def)
  show "ffi_inv (drop_reference eng d st)"
  proof (cases "sd_refs sd \<le> 1")
    case True
    then show ?thesis using owed_dropped [OF owed] last by (simp add: drop_reference_def sd(1))
  next
    case False
    let ?st = "drop_reference eng d st"
    have st: "?st = update_shared d (\<lambda>sd. sd\<lparr>sd_refs := sd_refs sd - 1\<rparr>) st" using False by (simp add: drop_reference_def sd(1))
    have refs: "holders ?st e = holders st e" "users ?st e = users st e" for e by (simp_all add: st holders_def users_def update_shared_def)
    have shared: "fi_shared ?st = (fi_shared st)(d := Some (sd\<lparr>sd_refs := sd_refs sd - 1\<rparr>))"
      by (simp add: st update_shared_def sd(1))
    have "counted ?st e" for e
    proof (cases "e = d")
      case True
      then show ?thesis using owed False last sd(2) unfolding owed_def counted_def by (simp add: refs shared)
    next
      case other: False
      then show ?thesis using owed counted_cong [of st e ?st] unfolding owed_def by (simp add: refs shared)
    qed
    then show ?thesis using owed sd by (auto simp: st ffi_inv_def owed_def fresh_free_def update_shared_def)
  qed
qed

lemma statement_removed:
  assumes inv: "ffi_inv st" and s: "fi_statements st a = Some s"
  shows "owed (st\<lparr>fi_statements := (fi_statements st)(a := None)\<rparr>) (cs_database s)" (is "owed ?st ?d")
    "users (st\<lparr>fi_statements := (fi_statements st)(a := None)\<rparr>) (cs_database s) = users st (cs_database s) - {a}"
proof -
  have holders: "holders ?st e = holders st e" for e by (simp add: holders_def)
  have users: "users ?st e = users st e - {a}" for e by (auto simp: users_def)
  have counted: "counted st e" for e using inv by (simp add: ffi_inv_def)
  have mem: "a \<in> users st ?d" "e \<noteq> ?d \<Longrightarrow> a \<notin> users st e" for e using s by (auto simp: users_def)
  show "users ?st ?d = users st ?d - {a}" by (rule users)
  have "counted ?st e" if "e \<noteq> ?d" for e
    using counted_cong [OF counted, of ?st e] mem(2) [OF that] by (simp add: holders users)
  moreover have "map_option sd_refs (fi_shared ?st ?d) = Some (Suc (card (holders ?st ?d) + card (users ?st ?d)))"
    using counted [of ?d] mem(1) card_gt_0_iff [of "users st ?d"] by (auto simp: counted_def holders users)
  moreover have "finite (holders ?st ?d)" "finite (users ?st ?d)" "card (holders ?st ?d) \<le> 1"
    using counted [of ?d] by (simp_all add: counted_def holders users )
  moreover have "fresh_free ?st" "\<forall>b s. fi_statements ?st b = Some s \<longrightarrow> cs_raw s \<noteq> None"
    using inv by (auto simp: ffi_inv_def fresh_free_def)
  ultimately show "owed ?st ?d" unfolding owed_def by blast
qed

lemma handle_removed:
  assumes inv: "ffi_inv st" and h: "fi_handles st a = Some h" "ch_database h = Some d"
  shows "owed (st\<lparr>fi_handles := (fi_handles st)(a := None)\<rparr>) d" (is "owed ?st d")
    "holders (st\<lparr>fi_handles := (fi_handles st)(a := None)\<rparr>) d = {}"
    "users (st\<lparr>fi_handles := (fi_handles st)(a := None)\<rparr>) d = users st d"
proof -
  have users: "users ?st e = users st e" for e by (simp add: users_def)
  have holders: "holders ?st e = holders st e - {a}" for e by (auto simp: holders_def)
  have counted: "counted st e" for e using inv by (simp add: ffi_inv_def)
  have mem: "a \<in> holders st d" "e \<noteq> d \<Longrightarrow> a \<notin> holders st e" for e using h by (auto simp: holders_def)
  have one: "holders st d = {a}" using counted [of d] mem(1) by (auto simp: counted_def card_le_Suc0_iff_eq)
  show "users ?st d = users st d" "holders ?st d = {}" using one by (auto simp: users holders)
  have "counted ?st e" if "e \<noteq> d" for e
    using counted_cong [OF counted, of ?st e] mem(2) [OF that] by (simp add: holders users)
  moreover have "map_option sd_refs (fi_shared ?st d) = Some (Suc (card (holders ?st d) + card (users ?st d)))"
    using counted [of d] one by (simp add: counted_def holders users)
  moreover have "finite (holders ?st d)" "finite (users ?st d)" "card (holders ?st d) \<le> 1"
    using counted [of d] by (simp_all add: counted_def holders users one)
  moreover have "fresh_free ?st" "\<forall>b s. fi_statements ?st b = Some s \<longrightarrow> cs_raw s \<noteq> None"
    using inv by (auto simp: ffi_inv_def fresh_free_def)
  ultimately show "owed ?st d" unfolding owed_def by blast
qed

lemma bare_handle_removed:
  assumes inv: "ffi_inv st" and h: "fi_handles st a = Some h" "ch_database h = None"
  shows "ffi_inv (st\<lparr>fi_handles := (fi_handles st)(a := None)\<rparr>)" (is "ffi_inv ?st")
proof -
  have "holders ?st e = holders st e" "users ?st e = users st e" for e using h by (auto simp: holders_def users_def)
  then show ?thesis using inv counted_cong [of st _ ?st] by (auto simp: ffi_inv_def fresh_free_def)
qed


section \<open>Every call keeps the invariant\<close>

lemma inv_open_from:
  assumes "open_from path out operation st = Some (r, st')" "ffi_inv st"
  shows "ffi_inv st'"
proof -
  have "ffi_inv (snd (handle_new x c (st\<lparr>fi_world := w\<rparr>)))" for x c w
    by (rule inv_handle_new) (rule shape_inv [OF _ assms(2)], simp)
  then show ?thesis
    using assms by (auto simp: open_from_def Let_def case_prod_beta split: if_splits sum.splits option.splits)
qed

lemma inv_open:
  assumes "run_open eng call out st = Some (r, st')" "ffi_inv st"
  shows "ffi_inv st'"
  using assms
  by (cases call)
    (auto simp: csgdb_open_def csgdb_open_v2_def csgdb_open_with_key_def csgdb_open_v3_def Let_def
      split: if_splits option.splits sum.splits elim: inv_open_from)

lemma inv_prepare:
  assumes "prepare_statement eng p sql n flags out st = Some (r, st')" "ffi_inv st"
  shows "ffi_inv st'"
proof -
  have kept: "ffi_inv t" if "shape t = shape st" for t using shape_inv [OF that assms(2)] .
  have new: "ffi_inv (set_ok d (snd (statement_new eng d raw (st\<lparr>fi_world := w\<rparr>))))"
    if "fi_shared st d = Some sd" for d raw w sd
    by (rule shape_inv [OF shape_set_ok inv_statement_new [OF kept]]) (simp_all add: that)
  show ?thesis
    using assms(1)
    by (auto simp: prepare_statement_def with_handle_def with_lock_def Let_def case_prod_beta new kept
        split: if_splits option.splits)
qed

lemma inv_finalize:
  assumes "csgdb_finalize eng p st = Some (r, st')" "ffi_inv st"
  shows "ffi_inv st'"
proof (cases p)
  case None
  then show ?thesis using assms by (simp add: csgdb_finalize_def with_statement_def)
next
  case (Some a)
  obtain s where s: "fi_statements st a = Some s" using assms(1) Some
    by (auto simp: csgdb_finalize_def with_statement_def split: option.splits)
  let ?st = "st\<lparr>fi_statements := (fi_statements st)(a := None)\<rparr>"
  obtain t where "shape t = shape ?st" "st' = drop_reference eng (cs_database s) t"
    using assms(1) Some s
    by (auto simp: csgdb_finalize_def with_statement_def case_prod_beta split: if_splits
        intro!: that [of "snd (set_sqlite_result (cs_database s) (fst (raw_call (fe_finalize eng (cs_raw s)) ?st)) (snd (raw_call (fe_finalize eng (cs_raw s)) ?st)))"])
  then show ?thesis
    using inv_drop_reference(1) [OF shape_owed [OF _ statement_removed(1) [OF assms(2) s]]] by simp
qed


lemma inv_close:
  assumes "csgdb_close eng p st = Some (r, st')" "ffi_inv st"
  shows "ffi_inv st'"
proof (cases p)
  case None
  then show ?thesis using assms by (simp add: csgdb_close_def)
next
  case (Some a)
  obtain h where h: "fi_handles st a = Some h" using assms(1) Some
    by (auto simp: csgdb_close_def with_handle_def split: option.splits)
  let ?st = "st\<lparr>fi_handles := (fi_handles st)(a := None)\<rparr>"
  show ?thesis
  proof (cases "ch_database h")
    case None
    then show ?thesis using assms(1) Some h bare_handle_removed [OF assms(2) h]
      by (auto simp: csgdb_close_def with_handle_def Let_def)
  next
    case (Some d)
    note removed = handle_removed [OF assms(2) h Some]
    note drop = inv_drop_reference(1) [OF removed(1), of eng]
    have "users ?st d = {}" if "fi_shared st d = Some sd" "sd_refs sd = 1" for sd
      using removed that by (auto simp: owed_def)
    then have gone: "ffi_inv (?st\<lparr>fi_shared := (fi_shared ?st)(d := None), fi_world := w\<rparr>)"
      if "fi_shared st d = Some sd" "sd_refs sd = 1" for sd w
      using owed_dropped [OF removed(1,2)] that by blast
    show ?thesis using assms(1) \<open>p = Some a\<close> h Some drop gone
      by (auto simp: csgdb_close_def with_handle_def Let_def case_prod_beta split: option.splits if_splits)
  qed
qed

theorem run_inv:
  assumes "run eng req st = Some st'" "ffi_inv st"
  shows "ffi_inv st'"
  using assms
  by (cases req)
    (auto simp: after_def elim: inv_open inv_prepare inv_finalize inv_close
      dest: shape_inv [OF db_calls_keep_shape] shape_inv [OF stmt_calls_keep_shape])

lemma start_inv: "ffi_start st \<Longrightarrow> ffi_inv st"
  by (simp add: ffi_start_def ffi_inv_def fresh_free_def counted_def holders_def users_def)

interpretation store: invariant_machine ffi_start "ffi_step eng" ffi_inv
  by unfold_locales (auto elim!: ffi_step.cases intro: start_inv run_inv)

section \<open>Every call returns\<close>

lemma builder_open_returns:
  assumes "from_bits (bits (oo_flags (bd_options b))) \<noteq> None"
  shows "\<exists>r t. builder_open eng b (s, w) = Some (r, t)"
proof -
  obtain r s' where plan: "builder_plan b s = (r, s')" by (cases "builder_plan b s")
  show ?thesis
  proof (cases r)
    case (Inl e)
    then show ?thesis by (simp add: builder_open_def with_plan_def plan)
  next
    case (Inr rp)
    have "from_bits (bits (rp_flags rp)) \<noteq> None"
      unfolding builder_plan_Inr(1) [OF plan [unfolded Inr]] by (rule with_flag_defaults_known [OF assms])
    then obtain f where "connection_flags rp ReadWriteAccess SharedOwner = Some f" using connection_flags_spec by blast
    from open_with_access_returns [OF this, of eng "rp_cache_size_bytes rp" w] show ?thesis
      by (auto simp: builder_open_def with_plan_def plan Inr open_resolved_def connection_open_def)
  qed
qed


lemma open_from_returns:
  assumes "\<And>path. \<exists>r t. operation path ((), fi_world st) = Some (r, t)"
  shows "\<exists>r st'. open_from path out operation st = Some (r, st')"
proof (cases "c_string path")
  case (Inr name)
  obtain r s w where "operation name ((), fi_world st) = Some (r, s, w)" using assms [of name] by (metis surj_pair)
  then show ?thesis by (simp add: open_from_def Inr Let_def case_prod_beta)
qed (simp add: open_from_def)

lemma default_flags_known: "from_bits (bits (oo_flags (bd_options (builder_new path)))) \<noteq> None"
  unfolding known_bits_iff builder_new_def by (auto simp: open_options_default_def bit_or_iff flag_bits)

lemma open_returns: "\<exists>r st'. run_open eng call out st = Some (r, st')"
proof -
  have parsed: "\<exists>y. from_bits (bits f) = Some y" if "from_bits b = Some f" for b f
    using that from_bits_Some [OF that] by simp
  show ?thesis
    by (cases call)
      (auto simp: csgdb_open_def csgdb_open_v2_def csgdb_open_with_key_def csgdb_open_v3_def Let_def
        database_open_def database_open_with_key_def builder_key_def builder_flags_def builder_vfs_def builder_options_def
        default_flags_known [simplified] parsed simp del: split_paired_Ex
        split: option.split sum.split intro!: open_from_returns builder_open_returns)
qed

lemma live_handle:
  assumes "ffi_inv st" "fi_handles st a = Some h" "ch_database h = Some d"
  shows "\<exists>sd. fi_shared st d = Some sd"
proof -
  have "a \<in> holders st d" "counted st d" using assms by (auto simp: holders_def ffi_inv_def)
  then show ?thesis by (cases "fi_shared st d") (auto simp: counted_def split: if_splits)
qed

lemma live_statement:
  assumes "ffi_inv st" "fi_statements st a = Some s"
  shows "\<exists>sd. fi_shared st (cs_database s) = Some sd"
proof -
  have "a \<in> users st (cs_database s)" "counted st (cs_database s)" using assms by (auto simp: users_def ffi_inv_def)
  then show ?thesis by (cases "fi_shared st (cs_database s)") (auto simp: counted_def split: if_splits)
qed

lemma with_handle_returns:
  assumes "ffi_inv st" "\<forall>a. p = Some a \<longrightarrow> fi_handles st a \<noteq> None"
  shows "\<exists>r. with_handle n p f st = Some r"
  using live_handle [OF assms(1)] assms(2) by (fastforce simp: with_handle_def split: option.splits)

lemma with_statement_returns:
  assumes "ffi_inv st" "\<forall>a. p = Some a \<longrightarrow> fi_statements st a \<noteq> None"
  shows "\<exists>r. with_statement n p f st = Some r"
  using live_statement [OF assms(1)] assms(2) by (fastforce simp: with_statement_def split: option.splits)

lemma after_returns: "\<exists>r. x = Some r \<Longrightarrow> \<exists>st'. after x = Some st'"
  by (auto simp: after_def)

lemma db_returns:
  assumes "ffi_inv st" "\<forall>a. p = Some a \<longrightarrow> fi_handles st a \<noteq> None"
  shows "\<exists>st'. run_db eng p call st = Some st'"
  by (cases call)
    (auto simp: csgdb_exec_def csgdb_changes64_def csgdb_total_changes64_def csgdb_last_insert_rowid_def
      csgdb_get_autocommit_def csgdb_db_readonly_def csgdb_txn_state_def csgdb_busy_timeout_def csgdb_wal_autocheckpoint_def
      csgdb_release_memory_def csgdb_wal_checkpoint_v2_def csgdb_interrupt_def csgdb_errcode_def
      simp del: split_paired_Ex intro!: after_returns with_handle_returns [OF assms])

lemmas stmt_call_defs = csgdb_bind_parameter_count_def csgdb_bind_parameter_index_def csgdb_bind_parameter_name_def
  bind_call_def csgdb_bind_null_def csgdb_bind_int_def csgdb_bind_int64_def csgdb_bind_double_def csgdb_bind_text_def
  csgdb_bind_blob_def csgdb_step_def csgdb_reset_def csgdb_clear_bindings_def csgdb_reset_and_clear_bindings_def
  csgdb_column_count_def csgdb_column_name_def column_call_def csgdb_column_type_def csgdb_column_int_def
  csgdb_column_int64_def csgdb_column_double_def csgdb_column_text_def csgdb_column_blob_def csgdb_column_bytes_def
  csgdb_column_blob_view_def

lemma stmt_returns:
  assumes "ffi_inv st" "\<forall>a. p = Some a \<longrightarrow> fi_statements st a \<noteq> None"
  shows "\<exists>st'. run_stmt eng p call st = Some st'"
  by (cases call)
    (auto simp: stmt_call_defs simp del: split_paired_Ex split: option.split
      intro!: after_returns with_statement_returns [OF assms])

lemma run_returns:
  assumes "ffi_inv st" "contract req st"
  shows "\<exists>st'. run eng req st = Some st'"
proof (cases req)
  case (ROpen call out)
  then show ?thesis using open_returns [of eng call out st] by (auto simp: after_def)
next
  case (RClose p)
  then show ?thesis using assms
    by (auto simp: csgdb_close_def simp del: split_paired_Ex intro!: after_returns with_handle_returns split: option.split)
next
  case (RPrepare p sql n flags out)
  then show ?thesis using assms
    by (auto simp: prepare_statement_def simp del: split_paired_Ex intro!: after_returns with_handle_returns)
qed (use assms in \<open>auto simp: csgdb_finalize_def simp del: split_paired_Ex
  intro!: db_returns stmt_returns after_returns with_statement_returns\<close>)


section \<open>What the C interface guarantees\<close>

lemma one_holder: "counted st d \<Longrightarrow> a \<in> holders st d \<Longrightarrow> b \<in> holders st d \<Longrightarrow> a = b"
  by (auto simp: counted_def card_le_Suc0_iff_eq)

lemma counted_refs: "counted st d \<Longrightarrow> fi_shared st d = Some sd \<Longrightarrow> sd_refs sd = card (holders st d) + card (users st d)"
  by (simp add: counted_def split: if_splits)


lemma close_returns:
  assumes inv: "ffi_inv st" and h: "fi_handles st a = Some h" "ch_database h = Some d"
  shows "\<exists>c st' sd. csgdb_close eng (Some a) st = Some (c, st') \<and> fi_shared st d = Some sd \<and>
    fi_handles st' = (fi_handles st)(a := None) \<and> fi_statements st' = fi_statements st \<and>
    (\<forall>e. e \<noteq> d \<longrightarrow> fi_shared st' e = fi_shared st e) \<and>
    (if users st d = {}
     then fi_shared st' d = None \<and> (\<not> sd_poisoned sd \<longrightarrow> fi_world st' = snd (fe_close eng (fst (sd_connection sd)) (fi_world st)))
     else c = CSGDB_OK \<and> fi_world st' = fi_world st \<and> fi_shared st' d = Some (sd\<lparr>sd_refs := card (users st d)\<rparr>))"
proof -
  obtain sd where sd: "fi_shared st d = Some sd" using live_handle [OF inv h] by blast
  note removed = handle_removed [OF inv h]
  have refs: "sd_refs sd = Suc (card (users st d))" "sd_refs sd = 1 \<longleftrightarrow> users st d = {}"
    using removed sd by (auto simp: owed_def)
  then show ?thesis using h sd
    by (simp add: csgdb_close_def with_handle_def Let_def drop_reference_def update_shared_def map_err_st_def case_prod_beta)
qed

lemma finalize_returns:
  assumes inv: "ffi_inv st" and s: "fi_statements st a = Some s"
  shows "\<exists>c st'. csgdb_finalize eng (Some a) st = Some (c, st') \<and>
    fi_handles st' = fi_handles st \<and> fi_statements st' = (fi_statements st)(a := None) \<and>
    (fi_shared st' (cs_database s) = None \<longleftrightarrow> holders st (cs_database s) = {} \<and> users st (cs_database s) = {a})"
proof -
  let ?d = "cs_database s" and ?st = "st\<lparr>fi_statements := (fi_statements st)(a := None)\<rparr>"
  obtain sd where sd: "fi_shared st ?d = Some sd" using live_statement [OF inv s] by blast
  let ?t = "snd (set_sqlite_result ?d (fst (raw_call (fe_finalize eng (cs_raw s)) ?st)) (snd (raw_call (fe_finalize eng (cs_raw s)) ?st)))"
  have shape: "shape ?t = shape ?st" by simp
  note removed = statement_removed [OF inv s]
  have call: "csgdb_finalize eng (Some a) st =
      Some (fst (set_sqlite_result ?d (fst (raw_call (fe_finalize eng (cs_raw s)) ?st)) (snd (raw_call (fe_finalize eng (cs_raw s)) ?st))),
        drop_reference eng ?d ?t)"
    by (simp add: csgdb_finalize_def with_statement_def s sd case_prod_beta)
  have "a \<in> users st ?d" using s by (auto simp: users_def)
  then have "fi_shared (drop_reference eng ?d ?t) ?d = None \<longleftrightarrow> holders st ?d = {} \<and> users st ?d = {a}"
    unfolding inv_drop_reference(2) [OF shape_owed [OF shape removed(1)]] shape_holders [OF shape] shape_users [OF shape] removed(2)
    by (auto simp: holders_def)
  moreover have "fi_handles (drop_reference eng e t) = fi_handles t" "fi_statements (drop_reference eng e t) = fi_statements t"
    for e and t :: "('a, 'b, 'c) ffi_state" by (simp_all add: drop_reference_def update_shared_def split: option.split)
  moreover have "fi_handles ?t = fi_handles ?st" "fi_statements ?t = fi_statements ?st"
    by (simp_all add: set_sqlite_result_def set_ok_def set_code_def update_shared_def raw_call_def case_prod_beta)
  ultimately show ?thesis using call by simp
qed

text \<open>
  Claim C31. Closing is deferred. Closing a handle whose connection has live statements succeeds, does not touch the
  engine and keeps the connection for them; without statements it closes the connection. Finalizing the last statement of a
  connection whose handle is gone drops the connection, and no other finalize does.
\<close>

theorem close_is_deferred:
  assumes "ffi_start start" "(ffi_step eng)\<^sup>*\<^sup>* start st"
  shows "(\<forall>a h d. fi_handles st a = Some h \<and> ch_database h = Some d \<longrightarrow>
      (\<exists>c st' sd. csgdb_close eng (Some a) st = Some (c, st') \<and> fi_shared st d = Some sd \<and>
        fi_handles st' = (fi_handles st)(a := None) \<and> fi_statements st' = fi_statements st \<and>
        (\<forall>e. e \<noteq> d \<longrightarrow> fi_shared st' e = fi_shared st e) \<and>
        (if users st d = {}
         then fi_shared st' d = None \<and> (\<not> sd_poisoned sd \<longrightarrow> fi_world st' = snd (fe_close eng (fst (sd_connection sd)) (fi_world st)))
         else c = CSGDB_OK \<and> fi_world st' = fi_world st \<and> fi_shared st' d = Some (sd\<lparr>sd_refs := card (users st d)\<rparr>)))) \<and>
    (\<forall>a s. fi_statements st a = Some s \<longrightarrow>
      (\<exists>c st'. csgdb_finalize eng (Some a) st = Some (c, st') \<and>
        fi_handles st' = fi_handles st \<and> fi_statements st' = (fi_statements st)(a := None) \<and>
        (fi_shared st' (cs_database s) = None \<longleftrightarrow> holders st (cs_database s) = {} \<and> users st (cs_database s) = {a})))"
  using close_returns [OF store.reachable_inv [OF assms]] finalize_returns [OF store.reachable_inv [OF assms]]
  by (intro conjI allI impI) blast+


section \<open>The protocol of a statement\<close>

text \<open>What a call leaves alone: everything but the status of the statement's connection.\<close>

definition only_status :: "('w, 'c, 'r) ffi_state \<Rightarrow> ('w, 'c, 'r) ffi_state \<Rightarrow> bool" where
  "only_status st st' \<longleftrightarrow> shape st' = shape st \<and> fi_world st' = fi_world st \<and> fi_statements st' = fi_statements st"

lemma only_status_set_code [simp]: "only_status st (snd (set_code d c st))"
  by (simp add: only_status_def) (simp add: set_code_def update_shared_def)

lemma only_status_set_ok [simp]: "only_status st (set_ok d st)"
  using only_status_set_code [of st d CSGDB_OK] by (auto simp: set_ok_def only_status_def)

lemma only_status_refl [simp]: "only_status st st"
  by (simp add: only_status_def)

definition finished :: "'r CsgdbStatement \<Rightarrow> bool" where
  "finished s \<longleftrightarrow> cs_state s = SDone \<or> cs_state s = SFailed"

definition resets :: "stmt_call \<Rightarrow> bool" where
  "resets call \<longleftrightarrow> call = CReset \<or> call = CResetAndClear"

lemma status_body:
  assumes "fi_statements st a = Some s" "fi_shared st (cs_database s) \<noteq> None" "only_status st (snd (f a s st))"
  shows "\<exists>st'. after (with_statement n (Some a) f st) = Some st' \<and> only_status st st'"
  using assms by (cases "f a s st") (simp add: after_def with_statement_def)

lemma finished_guards:
  assumes "finished s"
  shows "only_status st (snd (bind_value s i f st))" "only_status st (snd (checked_raw s f st))"
    "only_status st (snd (with_row_column x s i g st))"
  using assms by (auto simp: finished_def bind_value_def checked_raw_def with_row_column_def split: option.split)

lemma metadata_guards:
  "only_status st (snd (with_statement_metadata x s f st))" "only_status st (snd (with_column_metadata x s i f st))"
  by (simp_all add: with_statement_metadata_def with_column_metadata_def split: option.split)

lemma finished_call:
  assumes "fi_statements st a = Some s" "fi_shared st (cs_database s) \<noteq> None" "finished s" "\<not> resets call"
  shows "\<exists>st'. run_stmt eng (Some a) call st = Some st' \<and> only_status st st'"
proof -
  have "cs_state s \<noteq> SRow" using assms(3) by (auto simp: finished_def)
  with assms(3,4) show ?thesis
    by (cases call)
      (auto simp: stmt_call_defs statement_ready_operation_def finished_guards metadata_guards finished_def [symmetric] resets_def Let_def
        intro!: status_body [OF assms(1,2)] split: option.split)
qed

fun run_stmts :: "('w, 'c, 'r) FfiEngine \<Rightarrow> nat option \<Rightarrow> stmt_call list \<Rightarrow> ('w, 'c, 'r) ffi_state \<Rightarrow> ('w, 'c, 'r) ffi_state option" where
  "run_stmts eng p [] st = Some st"
| "run_stmts eng p (c # cs) st = Option.bind (run_stmt eng p c st) (run_stmts eng p cs)"

lemma finished_calls:
  assumes "fi_statements st a = Some s" "fi_shared st (cs_database s) \<noteq> None" "finished s" "list_all (\<lambda>c. \<not> resets c) calls"
  shows "\<exists>st'. run_stmts eng (Some a) calls st = Some st' \<and> only_status st st'"
  using assms
proof (induction calls arbitrary: st)
  case Nil
  then show ?case by simp
next
  case (Cons c cs)
  obtain t where t: "run_stmt eng (Some a) c st = Some t" "only_status st t"
    using finished_call [OF Cons.prems(1-3)] Cons.prems(4) by auto
  then have "fi_statements t a = Some s" "fi_shared t (cs_database s) \<noteq> None"
    using Cons.prems(1,2) shape_shared(1) [of t st] by (simp_all add: only_status_def)
  from Cons.IH [OF this Cons.prems(3)] obtain u where "run_stmts eng (Some a) cs t = Some u" "only_status t u"
    using Cons.prems(4) by auto
  then show ?case using t by (auto simp: only_status_def)
qed

text \<open>
  Claim C32. A statement that has run to completion or failed is inert until it is reset. In any reachable state, any
  sequence of bind, clear, step, column and metadata calls on it returns, leaves the engine and every statement as they
  were, and changes nothing but status codes; a step in between answers \<^verbatim>\<open>CSGDB_MISUSE\<close>. A reset reaches the engine
  once and makes it ready again.
\<close>

theorem finished_statement_inert:
  assumes "ffi_start start" "(ffi_step eng)\<^sup>*\<^sup>* start st" "fi_statements st a = Some s" "finished s"
    "list_all (\<lambda>c. \<not> resets c) calls"
  shows "\<exists>st' u raw. run_stmts eng (Some a) calls st = Some st' \<and> fi_world st' = fi_world st \<and>
    fi_statements st' = fi_statements st \<and> fi_handles st' = fi_handles st \<and>
    csgdb_step eng (Some a) st' = Some (CSGDB_MISUSE, snd (set_code (cs_database s) CSGDB_MISUSE st')) \<and>
    cs_raw s = Some raw \<and> run_stmt eng (Some a) CReset st' = Some u \<and>
    fi_world u = snd (fe_reset eng raw (fi_world st)) \<and> fi_statements u a = Some (s\<lparr>cs_state := SReady\<rparr>)"
proof -
  have inv: "ffi_inv st" by (rule store.reachable_inv [OF assms(1,2)])
  then obtain raw where raw: "cs_raw s = Some raw" using assms(3) by (fastforce simp: ffi_inv_def)
  obtain st' where run: "run_stmts eng (Some a) calls st = Some st'" and kept: "only_status st st'"
    using finished_calls [OF assms(3) _ assms(4,5)] live_statement [OF inv assms(3)] by blast
  have live: "fi_statements st' a = Some s" "fi_shared st' (cs_database s) \<noteq> None"
    using kept assms(3) live_statement [OF inv assms(3)] shape_shared(1) [of st' st] by (auto simp: only_status_def)
  have step: "csgdb_step eng (Some a) st' = Some (CSGDB_MISUSE, snd (set_code (cs_database s) CSGDB_MISUSE st'))"
    using live assms(4) by (auto simp: csgdb_step_def with_statement_def finished_def set_code_def)
  have "\<exists>u. run_stmt eng (Some a) CReset st' = Some u \<and> fi_world u = snd (fe_reset eng raw (fi_world st')) \<and>
      fi_statements u a = Some (s\<lparr>cs_state := SReady\<rparr>)"
    using live raw by (auto simp: csgdb_reset_def with_statement_def after_def raw_call_def raw_of_def set_sqlite_result_def
        set_ok_def set_code_def update_shared_def set_state_def case_prod_beta)
  then show ?thesis using run kept step raw shape_eqD(1) [of st' st] by (auto simp: only_status_def)
qed


section \<open>The status a call leaves behind\<close>

definition statement_status_calls :: "('w, 'c, 'r) FfiEngine \<Rightarrow> (nat option \<Rightarrow> ('w, 'c, 'r, int) ffi_call) set" where
  "statement_status_calls eng =
     {csgdb_step eng, csgdb_reset eng, csgdb_clear_bindings eng, csgdb_reset_and_clear_bindings eng}
     \<union> {\<lambda>p. csgdb_bind_null eng p i | i. True} \<union> {\<lambda>p. csgdb_bind_int eng p i v | i v. True}
     \<union> {\<lambda>p. csgdb_bind_int64 eng p i v | i v. True} \<union> {\<lambda>p. csgdb_bind_double eng p i v | i v. True}
     \<union> {\<lambda>p. csgdb_bind_text eng p i v n | i v n. True} \<union> {\<lambda>p. csgdb_bind_blob eng p i v | i v. True}"

definition database_status_calls :: "('w, 'c, 'r) FfiEngine \<Rightarrow> (nat option \<Rightarrow> ('w, 'c, 'r, int) ffi_call) set" where
  "database_status_calls eng =
     {csgdb_release_memory eng} \<union> {\<lambda>p. csgdb_busy_timeout eng p n | n. True}
     \<union> {\<lambda>p. csgdb_wal_autocheckpoint eng p n | n. True}"

definition told :: "nat \<Rightarrow> int \<times> ('w, 'c, 'r) ffi_state \<Rightarrow> bool" where
  "told d r \<longleftrightarrow> last_code d (snd r) = (if fst r = CSGDB_ROW \<or> fst r = CSGDB_DONE then CSGDB_OK else fst r)"

lemma told_set_code [simp]: "fi_shared st d \<noteq> None \<Longrightarrow> c \<noteq> CSGDB_ROW \<Longrightarrow> c \<noteq> CSGDB_DONE \<Longrightarrow> told d (set_code d c st)"
  by (auto simp: told_def set_code_def last_code_def update_shared_def)

lemma last_code_set_ok [simp]: "last_code d (set_ok d st) = CSGDB_OK"
  by (auto simp: set_ok_def last_code_def set_code_def update_shared_def split: option.splits)

lemma told_set_ok [simp]: "c \<in> {CSGDB_OK, CSGDB_ROW, CSGDB_DONE} \<Longrightarrow> told d (c, set_ok d st)"
  by (auto simp: told_def)

lemma mapped_codes [simp]: "map_sqlite_code n \<noteq> CSGDB_ROW" "map_sqlite_code n \<noteq> CSGDB_DONE"
  "error_code e \<noteq> CSGDB_ROW" "error_code e \<noteq> CSGDB_DONE"
  by (simp_all add: map_sqlite_code_def error_code_def Let_def code_defs split: ErrorCode.split)

lemma plain_codes [simp]: "CSGDB_MISUSE \<notin> {CSGDB_ROW, CSGDB_DONE}" "CSGDB_RANGE \<notin> {CSGDB_ROW, CSGDB_DONE}"
  "CSGDB_STORAGE \<notin> {CSGDB_ROW, CSGDB_DONE}" "CSGDB_INVALID_ARGUMENT \<notin> {CSGDB_ROW, CSGDB_DONE}"
  by (simp_all add: code_defs)

lemma told_sqlite_result [simp]: "fi_shared st d \<noteq> None \<Longrightarrow> told d (set_sqlite_result d n st)"
  by (simp add: set_sqlite_result_def)

lemma told_finish [simp]: "fi_shared st d \<noteq> None \<Longrightarrow> told d (finish d rw st)"
  by (simp add: finish_def set_error_def split: prod.split sum.split)

lemma shared_kept [simp]: "fi_shared (snd (raw_call f st)) = fi_shared st" "fi_shared (set_state a x st) = fi_shared st"
  by (simp_all add: raw_call_def set_state_def case_prod_beta)

lemma told_bind [simp]: "fi_shared st (cs_database s) \<noteq> None \<Longrightarrow> told (cs_database s) (bind_value s i f st)"
  using plain_codes by (simp add: bind_value_def checked_raw_def case_prod_beta split: option.split)

lemma told_statement_call:
  assumes "call \<in> statement_status_calls eng" "fi_statements st b = Some s" "call (Some b) st = Some r"
    "fi_shared st (cs_database s) \<noteq> None"
  shows "told (cs_database s) r"
  using assms plain_codes
  by (auto simp: statement_status_calls_def stmt_call_defs statement_ready_operation_def checked_raw_def with_statement_def case_prod_beta
      split: option.splits if_splits)


lemma set_code_pair: "(c, snd (set_code d c st)) = set_code d c st"
  by (simp add: set_code_def)

lemma told_database_call:
  assumes "call \<in> database_status_calls eng" "fi_handles st a = Some h" "ch_database h = Some d" "call (Some a) st = Some r"
    "fi_shared st d \<noteq> None"
  shows "told d r"
proof -
  have "told d (status_call v f h st)" for v :: bool and f :: "_ \<Rightarrow> _ \<Rightarrow> unit result \<times> _"
    using assms(3,5) plain_codes by (auto simp: status_call_def note_code_def with_lock_def set_code_pair)
  then show ?thesis
    using assms by (auto simp: database_status_calls_def csgdb_release_memory_def csgdb_busy_timeout_def csgdb_wal_autocheckpoint_def
        with_handle_def)
qed

lemma exec_call:
  assumes "fi_handles st a = Some h" "ch_database h = Some d" "fi_shared st d = Some sd"
  shows "csgdb_exec eng (Some a) sql st = Some r \<Longrightarrow> c_string sql = Inr text' \<Longrightarrow> \<not> sd_poisoned sd \<Longrightarrow> told d r"
    "c_string sql = Inl c \<Longrightarrow> csgdb_exec eng (Some a) sql st = Some (c, st)"
  using assms by (auto simp: csgdb_exec_def with_handle_def with_lock_def)

lemma errcode_after:
  assumes "shape st' = shape st" "fi_handles st a = Some h" "ch_database h = Some d" "fi_shared st d \<noteq> None"
  shows "csgdb_errcode (Some a) st' = Some (last_code d st', st')"
  using assms(2-4) shape_eqD(1) [OF assms(1)] shape_shared(1) [OF assms(1), of d]
  by (auto simp: csgdb_errcode_def with_handle_def current_code_def)

lemma statement_status_shape:
  assumes "call \<in> statement_status_calls eng" "call p st = Some (c, st')"
  shows "shape st' = shape st"
proof -
  have "\<exists>req. run_stmt eng p req st = Some st'"
    using assms(1) unfolding statement_status_calls_def
  proof (elim UnE insertE emptyE CollectE exE conjE)
  qed (use assms(2) in \<open>force simp: after_def intro: exI [of _ CStep] exI [of _ CReset] exI [of _ CClearBindings] exI [of _ CResetAndClear]
    exI [of _ "CBindNull _"] exI [of _ "CBindInt _ _"] exI [of _ "CBindInt64 _ _"] exI [of _ "CBindDouble _ _"]
    exI [of _ "CBindText _ _ _"] exI [of _ "CBindBlob _ _"]\<close>)+
  then show ?thesis using stmt_calls_keep_shape by blast
qed

lemma database_status_shape:
  assumes "call \<in> database_status_calls eng" "call p st = Some (c, st')"
  shows "shape st' = shape st"
proof -
  have "\<exists>req. run_db eng p req st = Some st'"
    using assms(1) unfolding database_status_calls_def
  proof (elim UnE insertE emptyE CollectE exE conjE)
  qed (use assms(2) in \<open>force simp: after_def intro: exI [of _ CReleaseMemory] exI [of _ "CBusyTimeout _"] exI [of _ "CAutocheckpoint _"]\<close>)+
  then show ?thesis using db_calls_keep_shape by blast
qed



section \<open>An example run\<close>

text \<open>An engine that opens every database and does nothing else, to run the interface on.\<close>

definition idle_sql :: "'w Engine" where
  "idle_sql = \<lparr>e_batch = (\<lambda>_. ret_st ()), e_parameter_count = (\<lambda>_ _. Inr 0), e_bind = (\<lambda>_ _ _ _. Inr ()), e_execute = (\<lambda>_ _. ret_st 0),
     e_query = (\<lambda>_ _ _. []), e_query_i64 = (\<lambda>_ _. Inr 0), e_begin = ret_st (), e_commit = ret_st (), e_rollback = ret_st (),
     e_drop_transaction = (\<lambda>w. w), e_transaction_state = (\<lambda>_ _. Inr SqlTxnNone), e_busy_timeout = (\<lambda>_. ret_st ()),
     e_wal_checkpoint = (\<lambda>_ _ w. ((0, 0, 0), w)), e_wal_autocheckpoint = (\<lambda>_ w. (0, w)), e_failure_code = (\<lambda>_. FOther),
     e_close = (\<lambda>_. Inr ())\<rparr>"

definition idle_engine :: "(engine_event list, nat, nat) FfiEngine" where
  "idle_engine = \<lparr>fe_open = recorder calm_outcomes, fe_sql = (\<lambda>_. idle_sql), fe_changes = (\<lambda>_ _. 0), fe_total_changes = (\<lambda>_ _. 0),
     fe_last_insert_rowid = (\<lambda>_ _. 0), fe_autocommit = (\<lambda>_ _. True), fe_readonly = (\<lambda>_ _ _. Inr False),
     fe_release_memory = (\<lambda>_. ret_st ()), fe_interrupt = (\<lambda>_ w. w), fe_close = (\<lambda>_. ret_st ()),
     fe_prepare = (\<lambda>_ _ _ _ w. ((0, Some 7, None), w)), fe_parameter_count = (\<lambda>_ _. 1), fe_column_count = (\<lambda>_ _. 1),
     fe_parameter_index = (\<lambda>_ _ _. 0), fe_parameter_name = (\<lambda>_ _ _. None), fe_column_name = (\<lambda>_ _ _. None),
     fe_bind = (\<lambda>_ _ _ w. (0, w)), fe_step = (\<lambda>_ w. (101, w)), fe_reset = (\<lambda>_ w. (0, w)), fe_clear_bindings = (\<lambda>_ w. (0, w)),
     fe_finalize = (\<lambda>_ w. (0, w)), fe_column_type = (\<lambda>_ _ w. (5, w)), fe_column_int = (\<lambda>_ _ w. (0, w)),
     fe_column_int64 = (\<lambda>_ _ w. (0, w)), fe_column_double = (\<lambda>_ _ w. (0, w)), fe_column_text = (\<lambda>_ _ w. (None, w)),
     fe_column_blob = (\<lambda>_ _ w. (None, w)), fe_column_bytes = (\<lambda>_ _ w. (0, w))\<rparr>"

definition empty_store :: "(engine_event list, nat, nat) ffi_state" where
  "empty_store = \<lparr>fi_handles = (\<lambda>_. None), fi_shared = (\<lambda>_. None), fi_statements = (\<lambda>_. None), fi_next = 0, fi_world = []\<rparr>"

definition plain_flags :: u32 where
  "plain_flags = bits (sup (sup READWRITE CREATE) PLAINTEXT)"

lemma plain_flags_parse: "from_bits plain_flags = Some (sup (sup READWRITE CREATE) PLAINTEXT)"
  by (simp add: plain_flags_def) (code_simp)

lemma example_text: "c_string (Some [97]) = Inr ''a''"
  by (simp add: c_string_def) (code_simp)

lemma example_builder_opens:
  "\<exists>x h. builder_open (recorder calm_outcomes) (builder_flags (sup (sup READWRITE CREATE) PLAINTEXT) (builder_new ''a'')) ((), [])
     = Some (Inr x, (), h)"
  by (simp add: builder_open_def with_plan_def builder_plan_def builder_flags_def builder_new_def
      prepare_open_def identity_from_path_def normalize_admissible open_options_default_def flags_admissible_def flag_simps
      validate_vfs_def with_flag_defaults_def resolve_key_def Let_def
      open_resolved_def connection_open_def open_with_access_def connection_flags_def calm_outcomes_def
      open_plaintext_connection_def open_engine_connection_def bind_st_def map_err_st_def
      recorder_def call_outcome_def owning_def verify_database_def configure_connection_def)

lemma example_opens:
  "\<exists>c w. run idle_engine (ROpen (COpenV2 (Some [97]) plain_flags None) False) empty_store =
     Some (snd (handle_new (Some c) CSGDB_OK (empty_store\<lparr>fi_world := w\<rparr>)))"
proof -
  obtain c w where "builder_open (recorder calm_outcomes) (builder_flags (sup (sup READWRITE CREATE) PLAINTEXT) (builder_new ''a'')) ((), [])
     = Some (Inr c, (), w)" using example_builder_opens by blast
  then show ?thesis
    by (intro exI [of _ c] exI [of _ w])
      (simp add: csgdb_open_v2_def open_from_def example_text plain_flags_parse after_def idle_engine_def empty_store_def case_prod_beta)
qed


definition example_state :: "(nat \<times> SecurityMode) \<Rightarrow> engine_event list \<Rightarrow> StatementState \<Rightarrow> (engine_event list, nat, nat) ffi_state" where
  "example_state c w x =
     \<lparr>fi_handles = [0 \<mapsto> \<lparr>ch_database = Some 1, ch_open_code = CSGDB_OK\<rparr>],
      fi_shared = [1 \<mapsto> \<lparr>sd_connection = c, sd_last_code = CSGDB_OK, sd_poisoned = False, sd_refs = 2\<rparr>],
      fi_statements = [2 \<mapsto> \<lparr>cs_database = 1, cs_raw = Some 7, cs_state = x, cs_parameter_count = 1, cs_column_count = 1\<rparr>],
      fi_next = 3, fi_world = w\<rparr>"

lemma example_prepares:
  "run idle_engine (RPrepare (Some 0) (Some [97]) (- 1) 0 False) (snd (handle_new (Some c) CSGDB_OK (empty_store\<lparr>fi_world := w\<rparr>)))
     = Some (example_state c w SReady)"
  by (simp add: prepare_statement_def with_handle_def with_lock_def handle_new_def statement_new_def shared_new_def after_def
      empty_store_def idle_engine_def example_state_def update_shared_def set_ok_def last_code_def CSGDB_OK_def SQLITE_OK_def Let_def
      numeral_2_eq_2 numeral_3_eq_3 fun_upd_def fun_eq_iff)

lemma example_steps: "run idle_engine (RStatement (Some 2) CStep) (example_state c w SReady) = Some (example_state c w SDone)"
  by (simp add: csgdb_step_def with_statement_def raw_call_def raw_of_def set_state_def set_ok_def last_code_def after_def
      example_state_def idle_engine_def SQLITE_ROW_def SQLITE_DONE_def CSGDB_OK_def)

lemma example_reached: "\<exists>c w. (ffi_step idle_engine)\<^sup>*\<^sup>* empty_store (example_state c w SDone)"
proof -
  obtain c w where o: "run idle_engine (ROpen (COpenV2 (Some [97]) plain_flags None) False) empty_store =
     Some (snd (handle_new (Some c) CSGDB_OK (empty_store\<lparr>fi_world := w\<rparr>)))" using example_opens by blast
  let ?st = "snd (handle_new (Some c) CSGDB_OK (empty_store\<lparr>fi_world := w\<rparr>))"
  have "ffi_step idle_engine empty_store ?st" by (rule ffi_step.call [OF _ o]) simp
  moreover have "ffi_step idle_engine ?st (example_state c w SReady)"
    by (rule ffi_step.call [OF _ example_prepares]) (simp add: handle_new_def empty_store_def Let_def)
  moreover have "ffi_step idle_engine (example_state c w SReady) (example_state c w SDone)"
    by (rule ffi_step.call [OF _ example_steps]) (simp add: example_state_def)
  ultimately show ?thesis by (meson converse_rtranclp_into_rtranclp r_into_rtranclp)
qed

lemma example_start: "ffi_start empty_store"
  by (simp add: ffi_start_def empty_store_def)

lemma example_users: "users (example_state c w x) 1 = {2}"
  by (auto simp: users_def example_state_def split: if_splits)


theorem close_is_deferred_witness:
  "\<exists>st c st'. (ffi_step idle_engine)\<^sup>*\<^sup>* empty_store st \<and> csgdb_close idle_engine (Some 0) st = Some (c, st') \<and> c = CSGDB_OK \<and>
     fi_shared st' 1 \<noteq> None"
proof -
  obtain c w where r: "(ffi_step idle_engine)\<^sup>*\<^sup>* empty_store (example_state c w SDone)" using example_reached by blast
  let ?st = "example_state c w SDone"
  have "fi_handles ?st 0 = Some \<lparr>ch_database = Some 1, ch_open_code = CSGDB_OK\<rparr>" by (simp add: example_state_def)
  then have "\<exists>e st' sd. csgdb_close idle_engine (Some 0) ?st = Some (e, st') \<and>
      (if users ?st 1 = {} then fi_shared st' 1 = None
       else e = CSGDB_OK \<and> fi_shared st' 1 = Some (sd\<lparr>sd_refs := card (users ?st 1)\<rparr>))"
    using close_is_deferred [OF example_start r, THEN conjunct1, THEN spec, of 0] unfolding if_bool_eq_conj
    by (elim allE impE) auto
  then show ?thesis using r unfolding example_users by auto
qed

theorem finished_statement_inert_witness:
  "\<exists>st st'. (ffi_step idle_engine)\<^sup>*\<^sup>* empty_store st \<and> run_stmts idle_engine (Some 2) [CStep, CBindNull 1, CColumnInt 0] st = Some st' \<and>
     fi_world st' = fi_world st \<and> fi_statements st' = fi_statements st"
proof -
  obtain c w where r: "(ffi_step idle_engine)\<^sup>*\<^sup>* empty_store (example_state c w SDone)" using example_reached by blast
  let ?st = "example_state c w SDone"
  have "fi_statements ?st 2 = Some \<lparr>cs_database = 1, cs_raw = Some 7, cs_state = SDone, cs_parameter_count = 1, cs_column_count = 1\<rparr>"
    by (simp add: example_state_def)
  from finished_statement_inert [OF example_start r this, of "[CStep, CBindNull 1, CColumnInt 0]"] r show ?thesis
    by (auto simp: finished_def resets_def)
qed


end
