(* ===== verification/Pool_Ops.thy ===== *)
theory Pool_Ops
  imports Facade Registry
begin

text \<open>
  The operations of \<^verbatim>\<open>DatabasePool\<close> and of the readers it lends (\<^verbatim>\<open>pool.rs\<close>, \<^verbatim>\<open>collection.rs\<close>, \<^verbatim>\<open>query.rs\<close>). A write is
  submitted to the queue with a fresh response channel and waits for the answer; a read runs on a lent connection.
\<close>

section \<open>Calls and replies\<close>

text \<open>
  What the closures of the pool send back: each operation has a channel of its own type in the source, one datatype
  here. \<open>RValue\<close> is the result of a caller's callback.
\<close>

datatype 'v Reply = RUnit | RRegistration SchemaRegistration | RMigration MigrationStatus | RCheckpoint CheckpointResult | RValue 'v

text \<open>The pool and the thread a call is made from: capacity, whether it is the writer, and the running read callbacks.\<close>

record pool_context =
  pc_capacity :: nat
  pc_in_worker :: bool
  pc_pool :: nat
  pc_pools :: "nat list"

record ('db, 'v, 'r, 'b) PoolCall =
  call_submit :: "'r \<Rightarrow> ('db, 'v Reply, 'r) pool_queue \<times> PoolMetrics
     \<Rightarrow> (unit result \<times> ('db, 'v Reply, 'r) pool_queue \<times> PoolMetrics) option"
  call_job :: "'r \<Rightarrow> (('db, 'v Reply, 'r) ExclusiveWrite, 'r GroupableWrite) WriteJob"
  call_reply :: "'v Reply Answer option \<Rightarrow> 'b result"

text \<open>
  \<open>call_job\<close> names the job that \<open>call_submit\<close> pushes. A receiver whose sender is gone fails.
\<close>

definition writer_gone :: Error where
  "writer_gone = Error ConnectionManagerClosed ''database writer stopped before returning a result''"

definition receive_exclusive :: "('v Reply \<Rightarrow> 'b option) \<Rightarrow> 'v Reply Answer option \<Rightarrow> 'b result" where
  "receive_exclusive project answer =
     (case answer of
        Some (ExclusiveAnswer (Inr x)) \<Rightarrow> (case project x of Some y \<Rightarrow> Inr y | None \<Rightarrow> Inl writer_gone)
      | Some (ExclusiveAnswer (Inl e)) \<Rightarrow> Inl e
      | _ \<Rightarrow> Inl writer_gone)"

definition receive_group :: "'v Reply Answer option \<Rightarrow> nat list result" where
  "receive_group answer = (case answer of Some (GroupAnswer r) \<Rightarrow> r | _ \<Rightarrow> Inl writer_gone)"

definition call_result :: "('db, 'v, 'r, 'b) PoolCall \<Rightarrow> unit result \<Rightarrow> 'v Reply Answer option \<Rightarrow> 'b result" where
  "call_result c submitted answer = bind_result submitted (\<lambda>_. call_reply c answer)"

section \<open>Writes\<close>

definition internal_call ::
  "pool_context \<Rightarrow> bool \<Rightarrow> ('v Reply \<Rightarrow> 'b option) \<Rightarrow> ('db, 'v Reply, 'r) pool_operation \<Rightarrow> ('db, 'v, 'r, 'b) PoolCall" where
  "internal_call ctx counts_as_write project operation =
     \<lparr>call_submit = write_internal (pc_capacity ctx) (pc_in_worker ctx) (pc_pool ctx) (pc_pools ctx) Wait counts_as_write operation,
      call_job = (\<lambda>ch. Exclusive \<lparr>xw_run = catch_operation operation, xw_response = ch\<rparr> counts_as_write),
      call_reply = receive_exclusive project\<rparr>"

text \<open>\<^verbatim>\<open>write\<close> with a callback on the writer's connection. A callback that panics has no result.\<close>

definition write_call ::
  "pool_context \<Rightarrow> ('v Reply \<Rightarrow> 'b option) \<Rightarrow> ('db \<Rightarrow> 'v Reply result option \<times> 'db) \<Rightarrow> ('db, 'v, 'r, 'b) PoolCall" where
  "write_call ctx project operation =
     internal_call ctx True project (\<lambda>rt m db. case operation db of (r, db') \<Rightarrow> (r, rt, m, db'))"

definition returning :: "('b \<Rightarrow> 'v Reply) \<Rightarrow> ('db, Error, 'b) effect \<Rightarrow> 'db \<Rightarrow> 'v Reply result option \<times> 'db" where
  "returning inject operation db = (case operation db of (r, db') \<Rightarrow> (Some (map_ok inject r), db'))"

fun as_unit :: "'v Reply \<Rightarrow> unit option" where
  "as_unit RUnit = Some ()"
| "as_unit _ = None"

fun as_registration :: "'v Reply \<Rightarrow> SchemaRegistration option" where
  "as_registration (RRegistration x) = Some x"
| "as_registration _ = None"

fun as_migration :: "'v Reply \<Rightarrow> MigrationStatus option" where
  "as_migration (RMigration x) = Some x"
| "as_migration _ = None"

fun as_checkpoint :: "'v Reply \<Rightarrow> CheckpointResult option" where
  "as_checkpoint (RCheckpoint x) = Some x"
| "as_checkpoint _ = None"

definition pool_execute_batch :: "'db Engine \<Rightarrow> pool_context \<Rightarrow> string \<Rightarrow> ('db, 'v, 'r, unit) PoolCall" where
  "pool_execute_batch eng ctx sql = write_call ctx as_unit (returning (\<lambda>_. RUnit) (execute_batch eng sql))"

definition groupable_call :: "pool_context \<Rightarrow> BatchStatement list \<Rightarrow> (nat list result \<Rightarrow> 'b result) \<Rightarrow> ('db, 'v, 'r, 'b) PoolCall" where
  "groupable_call ctx statements decode =
     \<lparr>call_submit = submit_groupable (pc_capacity ctx) (pc_in_worker ctx) (pc_pool ctx) (pc_pools ctx) statements Wait,
      call_job = (\<lambda>ch. Groupable \<lparr>gw_statements = statements, gw_response = ch\<rparr>),
      call_reply = (\<lambda>a. decode (receive_group a))\<rparr>"

definition batch_statement_new :: "string \<Rightarrow> Value list \<Rightarrow> BatchStatement" where
  "batch_statement_new sql parameters = \<lparr>bs_sql = sql, bs_parameters = parameters\<rparr>"

definition pool_execute :: "pool_context \<Rightarrow> string \<Rightarrow> Value list \<Rightarrow> ('db, 'v, 'r, nat) PoolCall" where
  "pool_execute ctx sql parameters = groupable_call ctx [batch_statement_new sql parameters] first_change"

definition pool_execute_transaction :: "pool_context \<Rightarrow> BatchStatement list \<Rightarrow> ('db, 'v, 'r, nat list) PoolCall" where
  "pool_execute_transaction ctx statements = groupable_call ctx statements (\<lambda>r. r)"

text \<open>Maintenance on the writer; these do not count as writes.\<close>

definition commanding ::
  "('b \<Rightarrow> 'v Reply) \<Rightarrow> (WriterRuntime \<Rightarrow> PoolMetrics \<Rightarrow> 'db \<Rightarrow> 'b result \<times> WriterRuntime \<times> PoolMetrics \<times> 'db)
     \<Rightarrow> ('db, 'v Reply, 'r) pool_operation" where
  "commanding inject command rt m db = (case command rt m db of (r, rest) \<Rightarrow> (Some (map_ok inject r), rest))"

definition pool_checkpoint_database ::
  "'db Engine \<Rightarrow> pool_context \<Rightarrow> string option \<Rightarrow> CheckpointMode \<Rightarrow> ('db, 'v, 'r, CheckpointResult) PoolCall" where
  "pool_checkpoint_database eng ctx database_name mode =
     internal_call ctx False as_checkpoint (commanding RCheckpoint (checkpoint_command eng database_name mode))"

definition pool_checkpoint :: "'db Engine \<Rightarrow> pool_context \<Rightarrow> CheckpointMode \<Rightarrow> ('db, 'v, 'r, CheckpointResult) PoolCall" where
  "pool_checkpoint eng ctx mode = pool_checkpoint_database eng ctx (Some ''main'') mode"

definition pool_set_wal_autocheckpoint :: "'db Engine \<Rightarrow> pool_context \<Rightarrow> u32 \<Rightarrow> ('db, 'v, 'r, unit) PoolCall" where
  "pool_set_wal_autocheckpoint eng ctx frames =
     internal_call ctx False as_unit (commanding (\<lambda>_. RUnit) (autocheckpoint_command eng frames))"

definition pool_set_automatic_wal_maintenance ::
  "'db Engine \<Rightarrow> pool_context \<Rightarrow> WalMaintenanceOptions \<Rightarrow> ('db, 'v, 'r, unit) PoolCall result" where
  "pool_set_automatic_wal_maintenance eng ctx options =
     bind_result (validate_wal_maintenance_options options) (\<lambda>_.
     Inr (internal_call ctx False as_unit (commanding (\<lambda>_. RUnit) (maintenance_command eng options))))"

section \<open>Collections through the pool\<close>

definition pool_register_collection ::
  "'db Engine \<Rightarrow> pool_context \<Rightarrow> 'a Collection \<Rightarrow> ('db, 'v, 'r, SchemaRegistration) PoolCall" where
  "pool_register_collection eng ctx C = write_call ctx as_registration (returning RRegistration (register_collection eng C))"

definition pool_migrate_collection ::
  "'db Engine \<Rightarrow> pool_context \<Rightarrow> 'a Collection \<Rightarrow> 'b Collection \<Rightarrow> string \<Rightarrow> ('db, Error, unit) effect
     \<Rightarrow> ('db, 'v, 'r, MigrationStatus) PoolCall" where
  "pool_migrate_collection eng ctx From To migration_id operation =
     write_call ctx as_migration (returning RMigration (migrate_collection eng From To migration_id operation))"

text \<open>A record is converted before anything is submitted.\<close>

definition pool_insert :: "pool_context \<Rightarrow> 'a Collection \<Rightarrow> 'a \<Rightarrow> ('db, 'v, 'r, nat) PoolCall result" where
  "pool_insert ctx C record = bind_result (co_values C record) (\<lambda>vs. Inr (pool_execute ctx (co_insert_sql C) vs))"

definition pool_update :: "pool_context \<Rightarrow> 'a Collection \<Rightarrow> 'a \<Rightarrow> ('db, 'v, 'r, nat) PoolCall result" where
  "pool_update ctx C record =
     bind_result (bind_result (co_values C record) (update_values (co_schema C))) (\<lambda>vs.
     Inr (pool_execute ctx (co_update_sql C) vs))"

definition pool_delete :: "pool_context \<Rightarrow> 'a Collection \<Rightarrow> Value result \<Rightarrow> ('db, 'v, 'r, nat) PoolCall result" where
  "pool_delete ctx C key = bind_result key (\<lambda>k. Inr (pool_execute ctx (co_delete_by_key_sql C) [k]))"

section \<open>Reads\<close>

text \<open>
  A lent connection forwards to the connection it wraps: plain and cached preparation are the same to the model, and
  \<^verbatim>\<open>get\<close>, \<^verbatim>\<open>query_collection\<close> and \<^verbatim>\<open>collection_exists\<close> of \<^verbatim>\<open>ReadConnection\<close> are those of the connection.
\<close>

type_synonym ('c, 'a) pool_reading = "nat list \<Rightarrow> 'c ReadPool \<Rightarrow> ('a result \<times> nat list \<times> 'c ReadPool) option"

definition reader_query_i64 :: "'db Engine \<Rightarrow> string \<Rightarrow> ('db, Error, i64) effect" where
  "reader_query_i64 eng sql = query_i64 eng sql"

definition reader_prepare_cached :: "'db Engine \<Rightarrow> string \<Rightarrow> ('db, Error, Statement) effect" where
  "reader_prepare_cached eng sql = prepare eng sql"

definition reader_get :: "'db Engine \<Rightarrow> 'a Collection \<Rightarrow> Value result \<Rightarrow> ('db, Error, 'a option) effect" where
  "reader_get eng C key =
     bind_st (lift_st key) (\<lambda>k.
     bind_st (reader_prepare_cached eng (co_select_by_key_sql C)) (\<lambda>stmt. query_record eng C stmt k))"

definition reader_query_collection ::
  "'db Engine \<Rightarrow> 'a Collection \<Rightarrow> CollectionQuery \<Rightarrow> ('db, Error, 'a list) effect" where
  "reader_query_collection eng C query =
     bind_st (reader_prepare_cached eng (cq_sql query)) (\<lambda>stmt. execute_query eng C stmt query)"

definition reader_collection_exists :: "'db Engine \<Rightarrow> CollectionExistsQuery \<Rightarrow> ('db, Error, bool) effect" where
  "reader_collection_exists eng query =
     bind_st (reader_prepare_cached eng (ceq_sql query)) (\<lambda>stmt. execute_exists_query eng stmt query)"

definition reader_transaction :: "'db Engine \<Rightarrow> ('db, Error, unit) effect" where
  "reader_transaction eng = transaction eng"

definition read_transaction_commit :: "'db Engine \<Rightarrow> ('db, Error, unit) effect" where
  "read_transaction_commit eng = commit eng"

definition schema_registry_exists_on_reader :: "'db Engine \<Rightarrow> ('db, Error, bool) effect" where
  "schema_registry_exists_on_reader eng =
     bind_st (reader_query_i64 eng SCHEMA_REGISTRY_EXISTS_SQL) (\<lambda>n. ret_st (n = 1))"

definition pool_query_i64 :: "'db Engine \<Rightarrow> nat \<Rightarrow> string \<Rightarrow> ('db, i64) pool_reading" where
  "pool_query_i64 eng pool_id sql = pool_read pool_id (reader_query_i64 eng sql)"

definition pool_get :: "'db Engine \<Rightarrow> nat \<Rightarrow> 'a Collection \<Rightarrow> Value result \<Rightarrow> ('db, 'a option) pool_reading" where
  "pool_get eng pool_id C key pools p =
     (case key of
        Inl e \<Rightarrow> Some (Inl e, pools, p)
      | Inr k \<Rightarrow>
          pool_read pool_id
            (bind_st (reader_prepare_cached eng (co_select_by_key_sql C)) (\<lambda>stmt. query_record eng C stmt k)) pools p)"

definition pool_registered_schema :: "'db Engine \<Rightarrow> nat \<Rightarrow> string \<Rightarrow> ('db, RegisteredSchema option) pool_reading" where
  "pool_registered_schema eng pool_id collection_id pools p =
     (if \<not> valid_name collection_id then Some (Inl invalid_schema, pools, p)
      else pool_read pool_id
        (bind_st (schema_registry_exists_on_reader eng) (\<lambda>exists.
         if \<not> exists then ret_st None
         else bind_st (reader_prepare_cached eng FIND_REGISTERED_SCHEMA_SQL) (\<lambda>stmt.
           query_registered_schema eng stmt collection_id))) pools p)"

definition pool_query_collection ::
  "'db Engine \<Rightarrow> nat \<Rightarrow> 'a Collection \<Rightarrow> CollectionQuery \<Rightarrow> ('db, 'a list) pool_reading" where
  "pool_query_collection eng pool_id C query = pool_read pool_id (reader_query_collection eng C query)"

definition pool_collection_exists :: "'db Engine \<Rightarrow> nat \<Rightarrow> CollectionExistsQuery \<Rightarrow> ('db, bool) pool_reading" where
  "pool_collection_exists eng pool_id query = pool_read pool_id (reader_collection_exists eng query)"

section \<open>Statistics\<close>

record PoolStats =
  ps_reader_capacity :: nat
  ps_cache_bytes_per_connection :: u64
  ps_available_readers :: nat
  ps_active_readers :: usize
  ps_rejected_read_checkouts :: u64
  ps_write_queue_capacity :: usize
  ps_queued_writes :: nat
  ps_metrics :: PoolMetrics

definition queue_len :: "('x, 'g) WriteQueueState \<Rightarrow> nat" where
  "queue_len q = length (wq_jobs q)"

text \<open>The remaining fields are the metrics one by one.\<close>

definition stats :: "('c, 'x, 'g) PoolInner \<Rightarrow> PoolStats" where
  "stats p =
     (case counts (pi_readers p) of (available, active) \<Rightarrow>
        \<lparr>ps_reader_capacity = rdp_capacity (pi_readers p), ps_cache_bytes_per_connection = pi_cache_bytes_per_connection p,
         ps_available_readers = available, ps_active_readers = active,
         ps_rejected_read_checkouts = rdp_rejected_checkouts (pi_readers p),
         ps_write_queue_capacity = pi_write_queue_capacity p, ps_queued_writes = queue_len (pi_write_queue p),
         ps_metrics = pi_metrics p\<rparr>)"

end
