(* ===== verification/Pool_Serial.thy ===== *)
theory Pool_Serial
  imports Pool_Ops Registry_Laws
begin

text \<open>
  The pool as a whole against a sequential database: whatever the interleaving of submitters, however the queue
  groups jobs into transactions and whenever maintenance runs, the committed content and the answers are those of the
  accepted jobs run one at a time in the order of acceptance.
\<close>

section \<open>The sequential specification\<close>

type_synonym ('db, 'a, 'r) pool_job = "(('db, 'a, 'r) ExclusiveWrite, 'r GroupableWrite) WriteJob"

text \<open>
  What one job, run alone, may answer and make of the content: a data job answered with success has run its
  statements, one answered with an error has changed nothing; an exclusive job has run its callback on a connection
  with this content.
\<close>

inductive job_effect :: "('db, 'c) tx_view \<Rightarrow> ('db, 'a, 'r) pool_job \<Rightarrow> 'a Answer \<Rightarrow> 'c \<Rightarrow> 'c \<Rightarrow> bool" for v where
  ran: "run_statements v (gw_statements g) c = (ns, c') \<Longrightarrow> job_effect v (Groupable g) (GroupAnswer (Inr ns)) c c'"
| refused: "job_effect v (Groupable g) (GroupAnswer (Inl e)) c c"
| alone: "\<lbrakk>\<not> tv_open v d; tv_durable v d = c; xw_run x rt m d = (r, rt', m', d'); tv_durable v d' = c'\<rbrakk>
     \<Longrightarrow> job_effect v (Exclusive x w) (ExclusiveAnswer r) c c'"

inductive serial :: "('db, 'c) tx_view \<Rightarrow> (('db, 'a, 'r) pool_job \<times> 'a Answer) list \<Rightarrow> 'c \<Rightarrow> 'c \<Rightarrow> bool" for v where
  none: "serial v [] c c"
| next_job: "job_effect v j a c c' \<Longrightarrow> serial v js c' c'' \<Longrightarrow> serial v ((j, a) # js) c c''"

inductive_cases serial_ConsE: "serial v (x # js) c c''"
inductive_simps serial_Nil [simp]: "serial v [] c c'"

lemma serial_append:
  assumes "serial v js c c'" "serial v ks c' c''"
  shows "serial v (js @ ks) c c''"
  using assms by (induction rule: serial.induct) (auto intro: serial.intros)

text \<open>The replay of a group is a sequential run of its jobs.\<close>

lemma replay_serial:
  assumes "replay v (zip (map gw_statements gs) rs) c = Some c'" "length rs = length gs"
  shows "serial v (zip (map Groupable gs) (map GroupAnswer rs)) c c'"
  using assms
proof (induction gs arbitrary: rs c)
  case Nil
  then show ?case by simp
next
  case (Cons g gs)
  then obtain r rs' where rs: "rs = r # rs'" by (cases rs) auto
  show ?case
  proof (cases r)
    case (Inl e)
    then show ?thesis using Cons rs by (auto intro: next_job refused)
  next
    case (Inr ns)
    then obtain d where "run_statements v (gw_statements g) c = (ns, d)"
      and "replay v (zip (map gw_statements gs) rs') d = Some c'"
      using Cons.prems(1) rs by (auto split: prod.splits if_splits)
    then show ?thesis using Cons rs Inr by (auto intro: next_job ran)
  qed
qed

section \<open>The writer\<close>

text \<open>A checkpoint between jobs moves pages, not content.\<close>

definition checkpoint_law :: "'db Engine \<Rightarrow> ('db, 'c) tx_view \<Rightarrow> bool" where
  "checkpoint_law eng v \<longleftrightarrow> (\<forall>name mode d r d'. \<not> tv_open v d \<longrightarrow> e_wal_checkpoint eng name mode d = (r, d') \<longrightarrow>
     \<not> tv_open v d' \<and> tv_durable v d' = tv_durable v d)"

text \<open>Data jobs hold data statements; an exclusive callback does not leave a transaction open.\<close>

fun tidy_job :: "('db, 'c) tx_view \<Rightarrow> ('db, 'a, 'r) pool_job \<Rightarrow> bool" where
  "tidy_job v (Groupable g) = plain_job v (gw_statements g)"
| "tidy_job v (Exclusive x w) = (\<forall>rt m d r rt' m' d'. \<not> tv_open v d \<longrightarrow> xw_run x rt m d = (r, rt', m', d') \<longrightarrow> \<not> tv_open v d')"

lemma checkpoint_database_state:
  assumes "checkpoint_law eng v" "\<not> tv_open v d" "checkpoint_database eng name mode d = (r, d')"
  shows "\<not> tv_open v d' \<and> tv_durable v d' = tv_durable v d"
  using assms
  by (auto simp: checkpoint_law_def checkpoint_database_def Let_def split: prod.splits if_splits option.splits sum.splits)

lemma after_write_state:
  assumes "checkpoint_law eng v" "\<not> tv_open v d" "after_write eng (rt, m, d) = (rt', m', d')"
  shows "\<not> tv_open v d' \<and> tv_durable v d' = tv_durable v d"
  using assms(2,3) checkpoint_database_state [OF assms(1,2)]
  by (auto simp: after_write_def checkpoint_def Let_def split: prod.splits if_splits sum.splits)


lemma run_after_write_state:
  assumes "checkpoint_law eng v" "\<not> tv_open v (ws_db w)"
  shows "\<not> tv_open v (ws_db (run_after_write eng w)) \<and> tv_durable v (ws_db (run_after_write eng w)) = tv_durable v (ws_db w)"
proof -
  obtain rt m d where a: "after_write eng (ws_runtime w, ws_metrics w, ws_db w) = (rt, m, d)" using prod_cases3 by blast
  then show ?thesis using after_write_state [OF assms a] by (simp add: run_after_write_def)
qed

lemma writer_body_serial:
  assumes "transactional eng v" "checkpoint_law eng v" "\<not> tv_open v (ws_db w)" "\<forall>j \<in> set (jobs_of d). tidy_job v j"
  shows "\<exists>as. ws_answers (writer_body eng d w) = ws_answers w @ as \<and> length as = length (jobs_of d) \<and>
    serial v (zip (jobs_of d) (map snd as)) (tv_durable v (ws_db w)) (tv_durable v (ws_db (writer_body eng d w))) \<and>
    \<not> tv_open v (ws_db (writer_body eng d w))"
proof (cases d)
  case (DExclusive x k)
  obtain r rt m t where x: "xw_run x (ws_runtime (set_active True w)) (ws_metrics (set_active True w)) (ws_db w) = (r, rt, m, t)"
    using prod_cases4 by blast
  let ?w = "(set_active True w)\<lparr>ws_runtime := rt, ws_metrics := m, ws_db := t\<rparr>"
  have t: "\<not> tv_open v t" using assms(3,4) DExclusive x by auto
  then have after: "\<not> tv_open v (ws_db (run_after_write eng ?w)) \<and> tv_durable v (ws_db (run_after_write eng ?w)) = tv_durable v t"
    using run_after_write_state [OF assms(2), of ?w] by simp
  have "job_effect v (Exclusive x k) (ExclusiveAnswer r) (tv_durable v (ws_db w)) (tv_durable v t)"
    by (rule alone [OF assms(3) refl x refl])
  then show ?thesis using x t after by (auto simp: DExclusive Let_def intro: next_job)
next
  case (DGroup gs)
  obtain g m t where g: "execute_group_commit eng gs (ws_metrics (set_active True w)) (ws_db w) = (g, m, t)"
    using prod_cases3 by blast
  have plain: "\<forall>j \<in> set gs. plain_job v (gw_statements j)" using assms(4) DGroup by auto
  have atomic: "\<not> tv_open v t" "map fst (gc_responses g) = map gw_response gs"
    "replay v (zip (map gw_statements gs) (map snd (gc_responses g))) (tv_durable v (ws_db w)) = Some (tv_durable v t)"
    using group_commit_replay [OF assms(1,3) plain g] by auto
  let ?w = "(set_active True w)\<lparr>ws_metrics := m, ws_db := t\<rparr>"
  have after: "\<not> tv_open v (ws_db (run_after_write eng ?w)) \<and> tv_durable v (ws_db (run_after_write eng ?w)) = tv_durable v t"
    using run_after_write_state [OF assms(2), of ?w] atomic(1) by simp
  have len: "length (gc_responses g) = length gs" using arg_cong [OF atomic(2), of length] by simp
  have "serial v (zip (map Groupable gs) (map GroupAnswer (map snd (gc_responses g)))) (tv_durable v (ws_db w)) (tv_durable v t)"
    by (rule replay_serial [OF atomic(3)]) (simp add: len)
  then show ?thesis using g atomic(1) after len
    by (auto simp: DGroup Let_def comp_def case_prod_beta)
qed

lemma writer_loop_serial:
  assumes "transactional eng v" "checkpoint_law eng v" "\<not> tv_open v (ws_db w)"
    "\<forall>j \<in> set (concat (map jobs_of ds)). tidy_job v j"
  shows "\<exists>as. ws_answers (snd (writer_loop eng ds w)) = ws_answers w @ as \<and> length as = length (concat (map jobs_of ds)) \<and>
    serial v (zip (concat (map jobs_of ds)) (map snd as)) (tv_durable v (ws_db w)) (tv_durable v (ws_db (snd (writer_loop eng ds w))))"
  using assms(3,4)
proof (induction ds arbitrary: w)
  case Nil
  then show ?case by simp
next
  case (Cons d ds)
  obtain as where as: "ws_answers (writer_body eng d w) = ws_answers w @ as" "length as = length (jobs_of d)"
    "serial v (zip (jobs_of d) (map snd as)) (tv_durable v (ws_db w)) (tv_durable v (ws_db (writer_body eng d w)))"
    "\<not> tv_open v (ws_db (writer_body eng d w))"
    using writer_body_serial [OF assms(1,2) Cons.prems(1), of d] Cons.prems(2) by auto
  obtain bs where bs: "ws_answers (snd (writer_loop eng ds (writer_body eng d w))) = ws_answers (writer_body eng d w) @ bs"
    "length bs = length (concat (map jobs_of ds))"
    "serial v (zip (concat (map jobs_of ds)) (map snd bs)) (tv_durable v (ws_db (writer_body eng d w)))
       (tv_durable v (ws_db (snd (writer_loop eng ds (writer_body eng d w)))))"
    using Cons.IH [OF as(4)] Cons.prems(2) by auto
  show ?case using as bs serial_append [OF as(3) bs(3)]
    by (intro exI [of _ "as @ bs"]) (simp add: zip_append del: writer_body.simps)
qed


lemma queue_split:
  assumes "queue_start s0" "(queue_step capacity max_jobs)\<^sup>*\<^sup>* s0 s" "1 \<le> max_jobs"
  shows "qs_accepted s = concat (map jobs_of (qs_delivered s)) @ in_hand (qs_writer s) @ wq_jobs (qs_queue s)"
    "qs_writer s = WStopped \<Longrightarrow> in_hand (qs_writer s) @ wq_jobs (qs_queue s) = []"
proof -
  obtain m where m: "max_jobs = Suc m" using assms(3) by (cases max_jobs) auto
  have "queue_inv capacity max_jobs s" using wq.reachable_inv assms(1,2) unfolding m by blast
  then show "qs_accepted s = concat (map jobs_of (qs_delivered s)) @ in_hand (qs_writer s) @ wq_jobs (qs_queue s)"
    "qs_writer s = WStopped \<Longrightarrow> in_hand (qs_writer s) @ wq_jobs (qs_queue s) = []"
    by (simp_all add: queue_inv_def)
qed

text \<open>
  Claim C3. The pool is a sequential database to its writers. Take any execution of the queue, at any moment, an engine with
  the documented transaction behaviour, and jobs that are data statements or callbacks that leave no transaction
  open. The jobs answered so far are a prefix of the accepted jobs, in order of acceptance, and the committed content and the
  answers are those of running these jobs one at a time: every job answered with success has had exactly its own effect,
  every failed data job none, whatever shared its transaction and whenever maintenance ran. When the writer has
  ended, nothing accepted is left over.
\<close>

theorem pool_serializable:
  fixes options :: PoolOptions and metrics :: PoolMetrics
  assumes "queue_start s0" "(queue_step capacity max_jobs)\<^sup>*\<^sup>* s0 s" "1 \<le> max_jobs"
    and "transactional eng v" "checkpoint_law eng v" "\<not> tv_open v db" "\<forall>j \<in> set (qs_accepted s). tidy_job v j"
  defines "w \<equiv> snd (writer_main eng options metrics db (qs_delivered s))"
  shows "\<exists>processed waiting. qs_accepted s = processed @ waiting \<and>
    map fst (ws_answers w) = map job_channel processed \<and>
    serial v (zip processed (map snd (ws_answers w))) (tv_durable v db) (tv_durable v (ws_db w)) \<and>
    (qs_writer s = WStopped \<longrightarrow> waiting = [])"
proof -
  note split = queue_split [OF assms(1-3)]
  let ?done = "concat (map jobs_of (qs_delivered s))"
  let ?w0 = "\<lparr>ws_runtime = writer_runtime_new (po_wal_maintenance options), ws_metrics = metrics, ws_db = db, ws_answers = []\<rparr>"
  have w: "w = snd (writer_loop eng (qs_delivered s) ?w0)" by (simp add: w_def writer_main_def)
  have "\<forall>j \<in> set ?done. tidy_job v j" using assms(7) split(1) by auto
  then obtain as where "ws_answers w = as"
    "serial v (zip ?done (map snd as)) (tv_durable v db) (tv_durable v (ws_db w))"
    using writer_loop_serial [OF assms(4,5), of ?w0 "qs_delivered s"] assms(6) by (auto simp: w)
  moreover have "map fst (ws_answers w) = map job_channel ?done"
    using writer_loop_answers [of eng "qs_delivered s" ?w0] by (simp add: w)
  ultimately show ?thesis using split by blast
qed

lemma mem_checkpoint: "checkpoint_law mem_engine mem_view"
  by (auto simp: checkpoint_law_def mem_engine_def)

theorem pool_serializable_witness:
  "\<exists>s. (queue_step 2 4)\<^sup>*\<^sup>* note_start s \<and>
    (\<exists>processed waiting. qs_accepted s = processed @ waiting \<and> waiting = [] \<and>
      serial mem_view (zip processed (map snd (ws_answers (snd (writer_main mem_engine pool_options_default pool_metrics_default
        \<lparr>md_durable = 0, md_tx = None\<rparr> (qs_delivered s)))))) 0
        (tv_durable mem_view (ws_db (snd (writer_main mem_engine pool_options_default pool_metrics_default
        \<lparr>md_durable = 0, md_tx = None\<rparr> (qs_delivered s))))))"
proof -
  have start: "queue_start note_start" by (simp add: queue_start_def note_start_def)
  have stopped: "qs_writer (last note_run) = WStopped" "qs_accepted (last note_run) = [Exclusive note_job True]"
    by (simp_all add: note_run_def note_start_def after_push_def after_pop_def push_begin_def push_finish_def
        pop_begin_def close_queue_def write_queue_new_def)
  have tidy: "\<forall>j \<in> set (qs_accepted (last note_run)). tidy_job mem_view j"
    by (simp add: stopped note_job_def catch_operation_def)
  have closed: "\<not> tv_open mem_view \<lparr>md_durable = 0, md_tx = None\<rparr>" "tv_durable mem_view \<lparr>md_durable = 0, md_tx = None\<rparr> = 0"
    by (simp_all add: mem_view_def)
  show ?thesis
    using pool_serializable [OF start note_run_steps _ mem_transactional mem_checkpoint closed(1) tidy,
        of pool_options_default pool_metrics_default] note_run_steps stopped(1) closed(2) by auto
qed


section \<open>The jobs of the pool's own operations\<close>

text \<open>
  Registrations and migrations may be submitted: they leave no transaction open. So may record operations whose
  statements are data statements, and commands.
\<close>

lemma in_transaction_closes:
  assumes "begin_law eng v" "commit_law eng v" "drop_law eng v" "scoped v body" "\<not> tv_open v d" "in_transaction eng body d = (r, d')"
  shows "\<not> tv_open v d'"
  using in_transaction_atomic [OF assms] by simp

lemma write_call_tidy:
  assumes "\<And>d r d'. \<not> tv_open v d \<Longrightarrow> operation d = (r, d') \<Longrightarrow> \<not> tv_open v d'"
  shows "tidy_job v (call_job (write_call ctx project (returning inject operation)) ch)"
  using assms by (auto simp: write_call_def internal_call_def catch_operation_def returning_def split: prod.splits option.splits)

lemma register_tidy:
  assumes "registry_engine eng v" "plain_collection v C"
  shows "tidy_job v (call_job (pool_register_collection eng ctx C) ch)"
  unfolding pool_register_collection_def
proof (rule write_call_tidy)
  fix d r d'
  assume d: "\<not> tv_open v d" "register_collection eng C d = (r, d')"
  show "\<not> tv_open v d'"
  proof (cases "validate_collection_schema (co_schema C)")
    case (Inr u)
    then have "in_transaction eng (register_body eng C) d = (r, d')" using d(2) by (simp add: register_collection_def bind_st_def lift_st_def)
    then show ?thesis
      by (rule in_transaction_closes [OF plain_registryD(1-3) [OF assms(1)] scoped_register_body [OF assms] d(1)])
  qed (use d in \<open>auto simp: register_collection_def bind_st_def lift_st_def\<close>)
qed

lemma migrate_tidy:
  assumes "registry_engine eng v" "plain_collection v To" "scoped v operation"
  shows "tidy_job v (call_job (pool_migrate_collection eng ctx From To mid operation) ch)"
  unfolding pool_migrate_collection_def
proof (rule write_call_tidy)
  fix d r d'
  assume d: "\<not> tv_open v d" "migrate_collection eng From To mid operation d = (r, d')"
  show "\<not> tv_open v d'"
  proof (cases "validate_migration (co_schema From) (co_schema To) mid")
    case (Inr u)
    then have "in_transaction eng (migrate_body eng From To mid operation) d = (r, d')"
      using d(2) by (simp add: migrate_collection_def bind_st_def lift_st_def)
    then show ?thesis
      by (rule in_transaction_closes [OF plain_registryD(1-3) [OF assms(1)] scoped_migrate_body [OF assms] d(1)])
  qed (use d in \<open>auto simp: migrate_collection_def bind_st_def lift_st_def\<close>)
qed

lemma execute_tidy: "tv_plain v sql \<Longrightarrow> tidy_job v (call_job (pool_execute ctx sql ps) ch)"
  by (simp add: pool_execute_def groupable_call_def batch_statement_new_def plain_job_def)

section \<open>Answers have the type of their call\<close>

text \<open>
  An exclusive job is answered with the result of its own closure, a group job with its own result, which counts the
  changes of each of its statements.
\<close>

fun typed_answer :: "('db, 'a, 'r) pool_job \<Rightarrow> 'a Answer \<Rightarrow> bool" where
  "typed_answer (Exclusive x k) (ExclusiveAnswer r) = (\<exists>rt m d. fst (xw_run x rt m d) = r)"
| "typed_answer (Groupable g) (GroupAnswer (Inr ns)) = (length ns = length (gw_statements g))"
| "typed_answer (Groupable g) (GroupAnswer (Inl e)) = True"
| "typed_answer _ _ = False"

definition fits :: "('db, 'a, 'r) pool_job \<Rightarrow> 'r \<times> 'a Answer \<Rightarrow> bool" where
  "fits j ra \<longleftrightarrow> fst ra = job_channel j \<and> typed_answer j (snd ra)"

definition group_fits :: "'r GroupableWrite \<Rightarrow> 'r \<times> nat list result \<Rightarrow> bool" where
  "group_fits g ra \<longleftrightarrow> fst ra = gw_response g \<and> (\<forall>ns. snd ra = Inr ns \<longrightarrow> length ns = length (gw_statements g))"

lemma run_group_statements_length:
  "run_group_statements eng ss changes d = (Inr (Inr ns), d') \<Longrightarrow> length ns = length changes + length ss"
proof (induction ss arbitrary: changes d)
  case Nil
  then show ?case by (auto simp: bind_st_def ret_st_def split: prod.splits sum.splits)
next
  case (Cons s ss)
  then show ?case
    by (fastforce simp: bind_st_def ret_st_def split: prod.splits sum.splits)
qed

lemma execute_group_job_length:
  "execute_group_job eng ss d = (Inr (Inr ns), d') \<Longrightarrow> length ns = length ss"
  by (auto simp: execute_group_job_def bind_st_def split: prod.splits sum.splits dest: run_group_statements_length)

lemma group_loop_fits:
  assumes "group_loop eng jobs fatal acc d = (rs, f, d')"
  shows "\<exists>new. rs = acc @ new \<and> list_all2 group_fits jobs new"
  using assms
proof (induction jobs arbitrary: fatal acc d)
  case (Cons j jobs)
  obtain x t where x: "execute_group_job eng (gw_statements j) d = (x, t)" by fastforce
  obtain a fatal' d'' where next_job: "group_loop eng jobs fatal' (acc @ [(gw_response j, a)]) d'' = (rs, f, d')"
    and a: "group_fits j (gw_response j, a)"
    using Cons.prems x by (cases fatal; cases x) (auto simp: group_fits_def dest: execute_group_job_length)
  from Cons.IH [OF next_job] a show ?case by auto
qed simp

lemma group_commit_fits:
  assumes "execute_group_commit eng jobs m d = (g, m', d')"
  shows "list_all2 group_fits jobs (gc_responses g)"
proof -
  have fail: "list_all2 group_fits jobs (map (\<lambda>(r, x). (r, if is_ok x then Inl e else x)) rs)"
    "list_all2 group_fits jobs (map (\<lambda>(r, x). (r, Inl e)) rs)" if "list_all2 group_fits jobs rs" for e rs
    using that by (auto simp: list_all2_conv_all_nth group_fits_def split: prod.splits if_splits)
  have err: "list_all2 group_fits jobs (map (\<lambda>job. (gw_response job, Inl e)) jobs)" for e
    by (simp add: list_all2_conv_all_nth group_fits_def)
  have fin: "list_all2 group_fits jobs (gc_responses g)"
    if "group_loop eng jobs None [] t = (rs, f, t')" "finish_group eng rs f t' = (g, u)" for rs f t t' u
    using group_loop_fits [OF that(1)] that(2) fail by (auto simp: finish_group_def split: option.splits prod.splits sum.splits)
  show ?thesis
    using assms err fin by (auto simp: execute_group_commit_def Let_def split: prod.splits sum.splits)
qed


lemma writer_body_fits:
  "\<exists>as. ws_answers (writer_body eng d w) = ws_answers w @ as \<and> list_all2 fits (jobs_of d) as"
proof (cases d)
  case (DExclusive x k)
  obtain r rt m t where x: "xw_run x (ws_runtime (set_active True w)) (ws_metrics (set_active True w)) (ws_db w) = (r, rt, m, t)"
    using prod_cases4 by blast
  then have "typed_answer (Exclusive x k) (ExclusiveAnswer r)" by (auto intro: exI [of _ "ws_runtime (set_active True w)"] simp: prod_eq_iff)
  then show ?thesis using x by (simp add: DExclusive Let_def fits_def)
next
  case (DGroup gs)
  obtain g m t where g: "execute_group_commit eng gs (ws_metrics (set_active True w)) (ws_db w) = (g, m, t)"
    using prod_cases3 by blast
  have fit: "fits (Groupable j) (case rx of (r, x) \<Rightarrow> (r, GroupAnswer x))" if "group_fits j rx" for j rx
    using that by (cases rx; cases "snd rx") (auto simp: fits_def group_fits_def)
  have "list_all2 fits (map Groupable gs) (map (\<lambda>(r, x). (r, GroupAnswer x)) (gc_responses g))"
    unfolding list_all2_map1 list_all2_map2 by (rule list_all2_mono [OF group_commit_fits [OF g] fit])
  then show ?thesis using g by (simp add: DGroup Let_def)
qed

lemma writer_loop_fits:
  "\<exists>as. ws_answers (snd (writer_loop eng ds w)) = ws_answers w @ as \<and> list_all2 fits (concat (map jobs_of ds)) as"
proof (induction ds arbitrary: w)
  case (Cons d ds)
  obtain as where "ws_answers (writer_body eng d w) = ws_answers w @ as" "list_all2 fits (jobs_of d) as"
    using writer_body_fits by blast
  moreover obtain bs where "ws_answers (snd (writer_loop eng ds (writer_body eng d w))) = ws_answers (writer_body eng d w) @ bs"
    "list_all2 fits (concat (map jobs_of ds)) bs" using Cons.IH by blast
  ultimately show ?case by (intro exI [of _ "as @ bs"]) (simp add: list_all2_appendI)
qed simp

lemma receive_injected:
  assumes "\<And>x. project (inject x) = Some x"
  shows "receive_exclusive project (Some (ExclusiveAnswer (map_ok inject r))) = r"
  using assms by (cases r) (simp_all add: receive_exclusive_def)

lemma receive_returning:
  assumes "\<And>x. project (inject x) = Some x" "typed_answer (call_job (write_call ctx project (returning inject operation)) ch) a"
  shows "\<exists>db. call_reply (write_call ctx project (returning inject operation)) (Some a) = fst (operation db)"
proof (cases a)
  case (ExclusiveAnswer r)
  then obtain db where "r = map_ok inject (fst (operation db))"
    using assms(2) by (auto simp: write_call_def internal_call_def catch_operation_def returning_def case_prod_beta)
  then show ?thesis by (auto simp: ExclusiveAnswer write_call_def internal_call_def receive_injected [of project inject, OF assms(1)])
qed (use assms(2) in \<open>simp add: write_call_def internal_call_def\<close>)

lemma receive_commanding:
  assumes "\<And>x. project (inject x) = Some x" "typed_answer (call_job (internal_call ctx k project (commanding inject command)) ch) a"
  shows "\<exists>rt m db. call_reply (internal_call ctx k project (commanding inject command)) (Some a) = fst (command rt m db)"
proof (cases a)
  case (ExclusiveAnswer r)
  then obtain rt m db where "r = map_ok inject (fst (command rt m db))"
    using assms(2) by (auto simp: internal_call_def catch_operation_def commanding_def case_prod_beta)
  then show ?thesis by (auto simp: ExclusiveAnswer internal_call_def receive_injected [of project inject, OF assms(1)])
qed (use assms(2) in \<open>simp add: internal_call_def\<close>)


lemma command_results:
  "fst (checkpoint_command eng name mode rt m d) = fst (checkpoint_database eng name mode d)"
  "fst (autocheckpoint_command eng frames rt m d) = fst (set_wal_autocheckpoint eng frames d)"
  by (auto simp: checkpoint_command_def autocheckpoint_command_def split: prod.split sum.split)



definition outside_context :: pool_context where
  "outside_context = \<lparr>pc_capacity = 2, pc_in_worker = False, pc_pool = 1, pc_pools = []\<rparr>"


end
