(* ===== verification/Cli.thy ===== *)
theory Cli
  imports Ffi
begin

text \<open>
  The command-line tool \<^verbatim>\<open>csgdb-cli/src/main.rs\<close> and the version constants of \<^verbatim>\<open>csgdb-core/src/version.rs\<close> with the functions of the C
  interface that return them. The package version is set by the build and is an argument. A run of the tool is the lines it prints to
  both streams and its exit code.
\<close>

section \<open>Versions\<close>

definition LIB_VERSION :: "string \<Rightarrow> string" where "LIB_VERSION package_version = package_version"
definition LIB_VERSION_NUMBER :: u32 where "LIB_VERSION_NUMBER = 1"
definition SOURCE_ID :: "string \<Rightarrow> string" where "SOURCE_ID package_version = ''csgdb-'' @ package_version"

definition LIB_VERSION_C :: "string \<Rightarrow> string" where "LIB_VERSION_C package_version = package_version @ [CHR 0x00]"
definition SOURCE_ID_C :: "string \<Rightarrow> string" where "SOURCE_ID_C package_version = ''csgdb-'' @ package_version @ [CHR 0x00]"

text \<open>A returned pointer is the memory it points to.\<close>

definition csgdb_libversion :: "string \<Rightarrow> string" where "csgdb_libversion package_version = LIB_VERSION_C package_version"
definition csgdb_libversion_number :: u32 where "csgdb_libversion_number = LIB_VERSION_NUMBER"
definition csgdb_abi_version :: u32 where "csgdb_abi_version = ABI_VERSION"
definition csgdb_source_id :: "string \<Rightarrow> string" where "csgdb_source_id package_version = SOURCE_ID_C package_version"
definition csgdb_default_open_flags :: u32 where "csgdb_default_open_flags = default_open_flags"

section \<open>The tool\<close>

fun show_hex :: "nat \<Rightarrow> string" where
  "show_hex n = (if n < 16 then [hex_digit n] else show_hex (n div 16) @ [hex_digit (n mod 16)])"

declare show_hex.simps [simp del]

text \<open>The format \<^verbatim>\<open>{:04x}\<close>.\<close>

definition show_hex4 :: "u32 \<Rightarrow> string" where
  "show_hex4 w = (let s = show_hex (unat w) in replicate (4 - length s) (CHR ''0'') @ s)"

record run =
  run_out :: "string list"
  run_err :: "string list"
  run_exit :: nat

definition print_help :: "string list" where
  "print_help =
     [''CSGDB command-line tools'', '''', ''Usage:'', ''  csg --version'', ''  csg defaults'', ''  csg help'', '''',
      ''Database commands are introduced with the M1 storage backend.'']"

definition print_defaults :: "'s OpenOptions \<Rightarrow> string list" where
  "print_defaults defaults =
     [''database extension: .db'',
      ''encryption: enabled'',
      ''open flags: 0x'' @ show_hex4 (bits (oo_flags defaults)),
      ''key source: '' @ kind_name (oo_key defaults),
      ''cache bytes: '' @ show_nat (unat (oo_cache_size_bytes defaults)),
      ''memory budget bytes: '' @ show_nat (unat (oo_memory_budget_bytes defaults))]"

text \<open>The arguments start with the program's name.\<close>

definition cli_main :: "string \<Rightarrow> string list \<Rightarrow> run" where
  "cli_main package_version arguments =
     (case drop 1 arguments of
        [] \<Rightarrow> \<lparr>run_out = print_help, run_err = [], run_exit = 0\<rparr>
      | command # _ \<Rightarrow>
          if command \<in> {''--version'', ''version''}
          then \<lparr>run_out = [''csg '' @ LIB_VERSION package_version @ '' (ABI '' @ show_nat (unat ABI_VERSION) @ '')''],
                run_err = [], run_exit = 0\<rparr>
          else if command = ''defaults''
          then \<lparr>run_out = print_defaults (open_options_default :: unit OpenOptions), run_err = [], run_exit = 0\<rparr>
          else if command \<in> {''-h'', ''--help'', ''help''} then \<lparr>run_out = print_help, run_err = [], run_exit = 0\<rparr>
          else \<lparr>run_out = print_help, run_err = [''unknown command: '' @ command], run_exit = 2\<rparr>)"

section \<open>What it prints is what the library does\<close>

definition hex_number :: "string \<Rightarrow> nat" where
  "hex_number s = foldl (\<lambda>a c. 16 * a + hex_value c) 0 s"

lemma hex_number_show [simp]: "hex_number (show_hex n) = n"
proof (induction n rule: show_hex.induct)
  case (1 n)
  then show ?case by (cases "n < 16") (simp_all add: show_hex.simps [of n] hex_number_def hex_value_digit)
qed

lemma hex_number_zeros: "hex_number (replicate k (CHR ''0'') @ s) = hex_number s"
  by (induction k) (simp_all add: hex_number_def hex_value_def)

text \<open>
  The printed defaults are those of the library and of the C interface: the flag word reads back as the one both start
  from, and opening any path with them gives an encrypted plan with that word, so that \<^verbatim>\<open>encryption: enabled\<close>, which the
  tool prints as a constant, is true.
\<close>

lemma cli_defaults_truthful:
  assumes "prepare_open path (open_options_default :: unit OpenOptions) = Inr plan"
  shows "run_out (cli_main v [program, ''defaults'']) ! 1 = ''encryption: enabled'' \<and> op_security plan = Encrypted \<and>
    (\<exists>digits. run_out (cli_main v [program, ''defaults'']) ! 2 = ''open flags: 0x'' @ digits \<and>
       hex_number digits = unat csgdb_default_open_flags \<and> op_flags plan = OpenFlags csgdb_default_open_flags)"
proof -
  let ?o = "open_options_default :: unit OpenOptions"
  have word: "bits (oo_flags ?o) = csgdb_default_open_flags"
    by (simp add: open_options_default_def csgdb_default_open_flags_def default_open_flags_def READWRITE_def CREATE_def ENCRYPTED_def FULLMUTEX_def)
  have "flags_normal (oo_flags ?o)" "\<not> contains (oo_flags ?o) PLAINTEXT"
    by (simp_all add: open_options_default_def flags_normal_def flag_simps)
  then have plan: "op_security plan = Encrypted" "op_flags plan = oo_flags ?o"
    using assms normal_admissible by (auto simp: prepare_open_eq_Inr)
  show ?thesis
    using plan word OpenFlags.collapse [of "oo_flags ?o"] by (auto simp: cli_main_def print_defaults_def show_hex4_def Let_def hex_number_zeros)
qed

text \<open>The tool fails, with code 2, exactly on a command it does not know, and only then writes to the error stream.\<close>

lemma cli_exit_codes:
  "run_exit (cli_main v arguments) = (if run_err (cli_main v arguments) = [] then 0 else 2) \<and>
   (run_exit (cli_main v arguments) = 2 \<longleftrightarrow>
     (\<exists>program command rest. arguments = program # command # rest \<and>
        command \<notin> {''--version'', ''version'', ''defaults'', ''-h'', ''--help'', ''help''}))"
  by (cases arguments; cases "drop 1 arguments") (auto simp: cli_main_def)

end
