(* ===== verification/Query_Gate.thy ===== *)
theory Query_Gate
  imports Facade Connection_Ops Float32
begin

text \<open>
  The program \<^verbatim>\<open>csgdb/examples/query_gate.rs\<close>, which measures one of three ways to run a query: a statement prepared each time, \<^verbatim>\<open>query_i64\<close>
  and \<^verbatim>\<open>query_i64_cached\<close>. It is a client of the whole library: it opens a database, builds a dataset, checks every answer and folds
  the answers into a checksum. The clock, the file system and the memory status of the process are arguments, as are the engine and the
  database that an opened connection stands for.
\<close>

section \<open>Configuration\<close>

definition ROW_COUNT :: nat where "ROW_COUNT = 10000"

definition BENCHMARK_KEY :: "u8 list" where
  "BENCHMARK_KEY =
     [0x63, 0x73, 0x67, 0x64, 0x62, 0x2d, 0x71, 0x75, 0x65, 0x72, 0x79, 0x2d, 0x67, 0x61, 0x74, 0x65,
      0x2d, 0x6b, 0x65, 0x79, 0x2d, 0x30, 0x30, 0x30, 0x31, 0xa1, 0xb2, 0xc3, 0xd4, 0xe5, 0xf6, 0x17]"

definition CHECKSUM_SEED :: u64 where "CHECKSUM_SEED = 0xcbf29ce484222325"

text \<open>The errors that \<^verbatim>\<open>Box<dyn Error>\<close> holds: of the input, of the run, of the library and of integer conversions.\<close>

datatype GateError = InvalidInput string | OtherError string | LibraryError Error | TryFromIntError

type_synonym 'a AnyResult = "GateError + 'a"

definition invalid_input :: "string \<Rightarrow> GateError" where
  "invalid_input message = InvalidInput message"

datatype Implementation = ReferenceImpl | PublicImpl | CachedImpl

definition implementation_parse :: "string \<Rightarrow> Implementation AnyResult" where
  "implementation_parse v =
     (if v \<in> {''reference'', ''direct''} then Inr ReferenceImpl
      else if v \<in> {''public'', ''query_i64''} then Inr PublicImpl
      else if v \<in> {''cached'', ''query_i64_cached''} then Inr CachedImpl
      else Inl (invalid_input ''implementation must be reference, public, or cached''))"

fun implementation_name :: "Implementation \<Rightarrow> string" where
  "implementation_name ReferenceImpl = ''direct-reference''"
| "implementation_name PublicImpl = ''public-query_i64''"
| "implementation_name CachedImpl = ''public-query_i64_cached''"

datatype Security = PlaintextGate | EncryptedGate

definition security_parse :: "string \<Rightarrow> Security AnyResult" where
  "security_parse v =
     (if v = ''plaintext'' then Inr PlaintextGate
      else if v = ''encrypted'' then Inr EncryptedGate
      else Inl (invalid_input ''security must be plaintext or encrypted''))"

fun gate_security_name :: "Security \<Rightarrow> string" where
  "gate_security_name PlaintextGate = ''plaintext''"
| "gate_security_name EncryptedGate = ''encrypted''"

datatype Workload = Fixed | Hot16 | Overflow17 | Overflow64 | Unique10000

definition workload_parse :: "string \<Rightarrow> Workload AnyResult" where
  "workload_parse v =
     (if v = ''fixed'' then Inr Fixed
      else if v = ''hot16'' then Inr Hot16
      else if v = ''overflow17'' then Inr Overflow17
      else if v = ''overflow64'' then Inr Overflow64
      else if v = ''unique10000'' then Inr Unique10000
      else Inl (invalid_input ''workload must be fixed, hot16, overflow17, overflow64, or unique10000''))"

fun workload_name :: "Workload \<Rightarrow> string" where
  "workload_name Fixed = ''fixed''"
| "workload_name Hot16 = ''hot16''"
| "workload_name Overflow17 = ''overflow17''"
| "workload_name Overflow64 = ''overflow64''"
| "workload_name Unique10000 = ''unique10000''"

fun query_count :: "Workload \<Rightarrow> nat" where
  "query_count Fixed = 1"
| "query_count Hot16 = 16"
| "query_count Overflow17 = 17"
| "query_count Overflow64 = 64"
| "query_count Unique10000 = ROW_COUNT"

record Config =
  cf_implementation :: Implementation
  cf_security :: Security
  cf_workload :: Workload
  cf_path :: string
  cf_iterations :: usize
  cf_warmup_iterations :: usize

text \<open>\<^verbatim>\<open>str::parse\<close> for an unsigned type of 64 bits: an optional plus sign and at least one digit, in range.\<close>

definition parse_unsigned :: "string \<Rightarrow> u64 option" where
  "parse_unsigned s =
     (let digits = (case s of c # rest \<Rightarrow> if c = CHR ''+'' then rest else s | [] \<Rightarrow> s) in
      if digits \<noteq> [] \<and> list_all is_digit digits \<and> digits_value digits < 2 ^ 64 then Some (of_nat (digits_value digits)) else None)"

definition parse_usize :: "string \<Rightarrow> string \<Rightarrow> bool \<Rightarrow> usize AnyResult" where
  "parse_usize v field allow_zero =
     bind_result (ok_or (invalid_input field) (parse_unsigned v)) (\<lambda>parsed.
     if \<not> allow_zero \<and> parsed = 0 then Inl (invalid_input field) else Inr parsed)"

text \<open>An optional argument by its position, or its default.\<close>

definition get_or :: "'a list \<Rightarrow> nat \<Rightarrow> 'b AnyResult \<Rightarrow> ('a \<Rightarrow> 'b AnyResult) \<Rightarrow> 'b AnyResult" where
  "get_or vs i d f = (if i < length vs then f (vs ! i) else d)"

text \<open>The arguments start with the program's name; the first component is what is printed to the error stream.\<close>

definition parse_config :: "string list \<Rightarrow> string list \<times> Config AnyResult" where
  "parse_config arguments =
     (let program = (case arguments of [] \<Rightarrow> ''query_gate'' | p # _ \<Rightarrow> p); vs = drop 1 arguments in
      if length vs < 4 \<or> length vs > 6
      then ([''usage: '' @ program @ '' <reference|public|cached> <plaintext|encrypted> '' @
              ''<fixed|hot16|overflow17|overflow64|unique10000> <database-path> '' @ ''[iterations] [warmup-iterations]''],
            Inl (invalid_input ''invalid argument count''))
      else ([],
        bind_result (get_or vs 4 (Inr 50000) (\<lambda>v. parse_usize v ''iterations must be a positive integer'' False)) (\<lambda>iterations.
        bind_result (get_or vs 5 (Inr 10000) (\<lambda>v. parse_usize v ''warmup iterations must be a non-negative integer'' True)) (\<lambda>warmup.
        bind_result (implementation_parse (vs ! 0)) (\<lambda>implementation.
        bind_result (security_parse (vs ! 1)) (\<lambda>security.
        bind_result (workload_parse (vs ! 2)) (\<lambda>workload.
        Inr \<lparr>cf_implementation = implementation, cf_security = security, cf_workload = workload, cf_path = vs ! 3,
             cf_iterations = iterations, cf_warmup_iterations = warmup\<rparr>)))))))"

section \<open>The database\<close>

definition sidecar_path :: "string \<Rightarrow> string \<Rightarrow> string" where
  "sidecar_path path suffix = path @ suffix"

definition ensure_fresh_path :: "(string \<Rightarrow> bool) \<Rightarrow> string \<Rightarrow> unit AnyResult" where
  "ensure_fresh_path exists path =
     (if exists path \<or> exists (sidecar_path path ''-wal'') \<or> exists (sidecar_path path ''-shm'')
      then Inl (invalid_input ''database path or a database sidecar already exists'') else Inr ())"

definition open_database ::
  "('w, 'k) OpenEngine \<Rightarrow> (string \<Rightarrow> bool) \<Rightarrow> Config \<Rightarrow> 's \<times> 'w \<Rightarrow> (('k \<times> SecurityMode) AnyResult \<times> 's \<times> 'w) option" where
  "open_database eng exists config st =
     (case ensure_fresh_path exists (cf_path config) of
        Inl e \<Rightarrow> Some (Inl e, st)
      | Inr _ \<Rightarrow>
          (case cf_security config of
             PlaintextGate \<Rightarrow> map_option (map_prod (map_err LibraryError) (\<lambda>x. x)) (database_open_plaintext eng (cf_path config) st)
           | EncryptedGate \<Rightarrow>
               (case secret_key_from_slice BENCHMARK_KEY of
                  Inl e \<Rightarrow> Some (Inl (LibraryError e), st)
                | Inr key \<Rightarrow>
                    map_option (map_prod (map_err LibraryError) (\<lambda>x. x)) (database_open_with_key eng (cf_path config) (Raw key) st))))"

definition DATASET_SQL :: string where
  "DATASET_SQL =
     join [CHR 0x0A]
       [''PRAGMA journal_mode=WAL;'',
        ''         PRAGMA synchronous=NORMAL;'',
        ''         PRAGMA temp_store=MEMORY;'',
        ''         CREATE TABLE query_gate('',
        ''             id INTEGER PRIMARY KEY,'',
        ''             value INTEGER NOT NULL'',
        ''         );'',
        ''         WITH RECURSIVE sequence(id) AS ('',
        ''             VALUES(1)'',
        ''             UNION ALL'',
        ''             SELECT id + 1 FROM sequence WHERE id < 10000'',
        ''         )'',
        ''         INSERT INTO query_gate(id, value)'',
        ''         SELECT id, id * 37 + 11 FROM sequence;'']"

definition COUNT_SQL :: string where "COUNT_SQL = ''SELECT count(*) FROM query_gate''"

text \<open>The first row of a prepared query; a statement prepared directly leaves nothing in the cache when it is dropped.\<close>

definition first_i64 :: "'db Engine \<Rightarrow> Statement \<Rightarrow> ('db, Error, i64 option) effect" where
  "first_i64 eng stmt =
     bind_st (statement_query eng stmt []) (\<lambda>rows. lift_st
       (bind_result (fst (next_row rows)) (\<lambda>row. case row of None \<Rightarrow> Inr None | Some r \<Rightarrow> map_ok Some (get_i64 r 0))))"

definition query_reference :: "('db, 'c) ConnectionEngine \<Rightarrow> string \<Rightarrow> (('db, 'c) Database, GateError, i64) effect" where
  "query_reference ce sql =
     bind_st (map_err_st LibraryError (bind_st (database_prepare ce sql) (\<lambda>stmt.
       on_connection (use_statement ce [] (first_i64 (ce_engine ce)) stmt))))
     (\<lambda>v. lift_st (ok_or (OtherError ''reference query did not return the expected row'') v))"

definition i64_try_from :: "nat \<Rightarrow> i64 AnyResult" where
  "i64_try_from n = (if n < 2 ^ 63 then Inr (of_nat n) else Inl TryFromIntError)"

definition initialize_database :: "('db, 'c) ConnectionEngine \<Rightarrow> (('db, 'c) Database, GateError, unit) effect" where
  "initialize_database ce =
     bind_st (map_err_st LibraryError (database_execute_batch ce DATASET_SQL)) (\<lambda>_.
     bind_st (query_reference ce COUNT_SQL) (\<lambda>row_count.
     bind_st (lift_st (i64_try_from ROW_COUNT)) (\<lambda>expected.
     ensure_st (row_count = expected) (OtherError ''query gate dataset has an unexpected row count''))))"

definition gate_query :: "nat \<Rightarrow> string" where
  "gate_query n = ''SELECT value FROM query_gate WHERE id = '' @ show_nat n"

definition build_queries :: "Workload \<Rightarrow> string list" where
  "build_queries workload = map gate_query [1..<query_count workload + 1]"

definition query_once ::
  "('db, 'c) ConnectionEngine \<Rightarrow> Implementation \<Rightarrow> string \<Rightarrow> (('db, 'c) Database, GateError, i64) effect" where
  "query_once ce implementation sql =
     (case implementation of
        ReferenceImpl \<Rightarrow> query_reference ce sql
      | PublicImpl \<Rightarrow> map_err_st LibraryError (database_query_i64 ce sql)
      | CachedImpl \<Rightarrow> map_err_st LibraryError (database_query_i64_cached ce sql))"

section \<open>Measuring\<close>

text \<open>Both loops compute \<^verbatim>\<open>id * 37 + 11\<close> for an \<^verbatim>\<open>id\<close> of the dataset, far from the limits of the type.\<close>

definition expected_value :: "nat \<Rightarrow> i64 AnyResult" where
  "expected_value query_index = map_ok (\<lambda>n. n * 37 + 11) (i64_try_from (query_index + 1))"

definition rotate_left :: "nat \<Rightarrow> u64 \<Rightarrow> u64" where
  "rotate_left n x = push_bit n x OR drop_bit (64 - n) x"

text \<open>The conversion of the operation's number from \<^verbatim>\<open>usize\<close> to \<^verbatim>\<open>u64\<close> cannot fail: both have 64 bits.\<close>

definition update_checksum :: "u64 \<Rightarrow> i64 \<Rightarrow> nat \<Rightarrow> u64" where
  "update_checksum checksum v operation = rotate_left 7 checksum * 0x100000001b3 + (v XOR of_nat operation)"

text \<open>One query of a loop with the check of its answer.\<close>

definition checked_query ::
  "('db, 'c) ConnectionEngine \<Rightarrow> Implementation \<Rightarrow> string list \<Rightarrow> string \<Rightarrow> nat \<Rightarrow> (('db, 'c) Database, GateError, i64) effect" where
  "checked_query ce implementation queries message operation =
     (let query_index = operation mod length queries in
      bind_st (query_once ce implementation (queries ! query_index)) (\<lambda>v.
      bind_st (lift_st (expected_value query_index)) (\<lambda>expected.
      bind_st (ensure_st (v = expected) (OtherError message)) (\<lambda>_. ret_st v))))"

fun warm_up_loop ::
  "('db, 'c) ConnectionEngine \<Rightarrow> Config \<Rightarrow> string list \<Rightarrow> nat list \<Rightarrow> u64 \<Rightarrow> (('db, 'c) Database, GateError, u64) effect" where
  "warm_up_loop ce config queries [] checksum = ret_st checksum"
| "warm_up_loop ce config queries (operation # rest) checksum =
     bind_st (checked_query ce (cf_implementation config) queries ''warm-up query returned an unexpected value'' operation)
       (\<lambda>v. warm_up_loop ce config queries rest (update_checksum checksum v operation))"

definition warm_up ::
  "('db, 'c) ConnectionEngine \<Rightarrow> Config \<Rightarrow> string list \<Rightarrow> (('db, 'c) Database, GateError, u64) effect" where
  "warm_up ce config queries = warm_up_loop ce config queries [0..<unat (cf_warmup_iterations config)] CHECKSUM_SEED"

text \<open>
  The clock: the duration of each measured query, of the whole measurement, of the setup and of the warm-up, in nanoseconds.
\<close>

record Clock =
  ck_latency :: "nat \<Rightarrow> nat"
  ck_elapsed :: nat
  ck_setup :: nat
  ck_warmup :: nat

definition nanos :: "nat \<Rightarrow> u64" where
  "nanos n = (if n < 2 ^ 64 then of_nat n else - 1)"

text \<open>The nearest rank; no value stands for a panic of the index.\<close>

definition saturating_mul_usize :: "nat \<Rightarrow> nat \<Rightarrow> nat" where
  "saturating_mul_usize a b = min (a * b) (2 ^ 64 - 1)"

definition percentile :: "u64 list \<Rightarrow> nat \<Rightarrow> u64 option" where
  "percentile xs p =
     (let rank = (saturating_mul_usize (length xs) p + 99) div 100 in
      if rank - 1 < length xs then Some (xs ! (rank - 1)) else None)"

section \<open>Floating-point arithmetic on non-negative values\<close>

text \<open>
  A quotient of naturals rounded to the nearest \<^verbatim>\<open>f64\<close>, ties to even, as a magnitude: \<open>e\<close> is the exponent of the leading bit, and below the
  normal range that of the smallest normal number. The conversions and operations that the program uses are the exact
  results, rounded once.
\<close>

definition floor_log2 :: "nat \<Rightarrow> nat \<Rightarrow> int" where
  "floor_log2 p q =
     (let e = int (top_bit p) - int (top_bit q) in
      if p * 2 ^ nat (- e) < q * 2 ^ nat e then e - 1 else e)"

definition round_quotient :: "nat \<Rightarrow> nat \<Rightarrow> nat" where
  "round_quotient p q =
     (let m = p div q; r = p mod q in if 2 * r > q \<or> 2 * r = q \<and> odd m then m + 1 else m)"

definition f64_round :: "nat \<Rightarrow> nat \<Rightarrow> nat" where
  "f64_round p q =
     (if p = 0 then 0
      else (let e = max (floor_log2 p q) (- 1022) in
            min (nat (e + 1022) * 2 ^ 52 + round_quotient (p * 2 ^ nat (52 - e)) (q * 2 ^ nat (e - 52))) infinity64))"

text \<open>The value of a finite magnitude as a quotient.\<close>

definition f64_quotient :: "nat \<Rightarrow> nat \<times> nat" where
  "f64_quotient b =
     (let e = exponent_of 52 b; m = fraction_of 52 b in
      if e = 0 then (m, 2 ^ 1074) else ((2 ^ 52 + m) * 2 ^ (e - 1075), 2 ^ (1075 - e)))"

definition f64_of_nat :: "nat \<Rightarrow> nat" where "f64_of_nat n = f64_round n 1"

definition f64_add :: "nat \<Rightarrow> nat \<Rightarrow> nat" where
  "f64_add a b =
     (case (f64_quotient a, f64_quotient b) of ((p, q), (r, s)) \<Rightarrow> f64_round (p * s + r * q) (q * s))"

text \<open>Division of a finite magnitude by a finite one; by zero it is infinity, or a NaN.\<close>

definition f64_divide :: "nat \<Rightarrow> nat \<Rightarrow> nat" where
  "f64_divide a b =
     (if b = 0 then if a = 0 then infinity64 + 2 ^ 51 else infinity64
      else case (f64_quotient a, f64_quotient b) of ((p, q), (r, s)) \<Rightarrow> f64_round (p * s) (q * r))"

text \<open>\<^verbatim>\<open>Duration::as_secs_f64\<close> of a duration in nanoseconds.\<close>

definition as_secs_f64 :: "nat \<Rightarrow> nat" where
  "as_secs_f64 n = f64_add (f64_of_nat (n div 10 ^ 9)) (f64_divide (f64_of_nat (n mod 10 ^ 9)) (f64_of_nat (10 ^ 9)))"

definition throughput :: "usize \<Rightarrow> nat \<Rightarrow> nat" where
  "throughput iterations elapsed_seconds = f64_divide (f64_of_nat (unat iterations)) elapsed_seconds"

text \<open>The format \<^verbatim>\<open>{:.3}\<close>: the exact value rounded to three decimals, ties to even.\<close>

definition show_f64_3 :: "nat \<Rightarrow> string" where
  "show_f64_3 b =
     (if b > infinity64 then ''NaN'' else if b = infinity64 then ''inf''
      else (case f64_quotient b of (p, q) \<Rightarrow>
            let n = round_quotient (p * 1000) q; s = show_nat (n mod 1000) in
            show_nat (n div 1000) @ ''.'' @ replicate (3 - length s) (CHR ''0'') @ s))"

section \<open>The measurement and the report\<close>

record Measurements =
  ms_elapsed_ns :: u64
  ms_throughput_ops_s :: nat
  ms_p50_ns :: u64
  ms_p95_ns :: u64
  ms_p99_ns :: u64
  ms_checksum :: u64

fun measure_loop ::
  "('db, 'c) ConnectionEngine \<Rightarrow> Clock \<Rightarrow> Config \<Rightarrow> string list \<Rightarrow> nat list \<Rightarrow> u64 list \<Rightarrow> u64
     \<Rightarrow> (('db, 'c) Database, GateError, u64 list \<times> u64) effect" where
  "measure_loop ce clock config queries [] latencies checksum = ret_st (latencies, checksum)"
| "measure_loop ce clock config queries (operation # rest) latencies checksum =
     bind_st (checked_query ce (cf_implementation config) queries ''measured query returned an unexpected value'' operation)
       (\<lambda>v. measure_loop ce clock config queries rest (latencies @ [nanos (ck_latency clock operation)])
              (update_checksum checksum v operation))"

text \<open>No value stands for a panic: without a measured query there is no percentile.\<close>

definition measurements :: "Clock \<Rightarrow> Config \<Rightarrow> u64 list \<Rightarrow> u64 \<Rightarrow> Measurements option" where
  "measurements clock config latencies checksum =
     (let xs = sort latencies in
      case (percentile xs 50, percentile xs 95, percentile xs 99) of
        (Some p50, Some p95, Some p99) \<Rightarrow>
          Some \<lparr>ms_elapsed_ns = nanos (ck_elapsed clock),
                ms_throughput_ops_s = throughput (cf_iterations config) (as_secs_f64 (ck_elapsed clock)),
                ms_p50_ns = p50, ms_p95_ns = p95, ms_p99_ns = p99, ms_checksum = checksum\<rparr>
      | _ \<Rightarrow> None)"

definition gate_measure ::
  "('db, 'c) ConnectionEngine \<Rightarrow> Clock \<Rightarrow> Config \<Rightarrow> string list \<Rightarrow> (('db, 'c) Database, GateError, Measurements option) effect" where
  "gate_measure ce clock config queries =
     bind_st (measure_loop ce clock config queries [0..<unat (cf_iterations config)] [] CHECKSUM_SEED)
       (\<lambda>(latencies, checksum). ret_st (measurements clock config latencies checksum))"

text \<open>\<^verbatim>\<open>str::lines\<close> and \<^verbatim>\<open>str::split_whitespace\<close> on the ASCII text of the status file.\<close>

definition strip_return :: "string \<Rightarrow> string" where
  "strip_return s = (if s \<noteq> [] \<and> last s = CHR 0x0D then butlast s else s)"

fun text_lines :: "string \<Rightarrow> string \<Rightarrow> string list" where
  "text_lines acc [] = (if acc = [] then [] else [acc])"
| "text_lines acc (c # s) = (if c = CHR 0x0A then strip_return acc # text_lines [] s else text_lines (acc @ [c]) s)"

definition is_whitespace :: "char \<Rightarrow> bool" where
  "is_whitespace c \<longleftrightarrow> c \<in> {CHR 0x09, CHR 0x0A, CHR 0x0B, CHR 0x0C, CHR 0x0D, CHR 0x20}"

fun split_words :: "string \<Rightarrow> string \<Rightarrow> string list" where
  "split_words acc [] = (if acc = [] then [] else [acc])"
| "split_words acc (c # s) =
     (if is_whitespace c then (if acc = [] then split_words [] s else acc # split_words [] s) else split_words (acc @ [c]) s)"

definition vm_hwm_kib :: "string option \<Rightarrow> u64 option" where
  "vm_hwm_kib status =
     Option.bind status (\<lambda>s.
     Option.bind (find (\<lambda>l. starts_with l ''VmHWM:'') (text_lines [] s)) (\<lambda>l.
     case split_words [] l of _ # w # _ \<Rightarrow> parse_unsigned w | _ \<Rightarrow> None))"

section \<open>The program\<close>

definition json_field :: "string \<Rightarrow> string \<Rightarrow> string" where
  "json_field name v = [dquote] @ name @ [dquote] @ '':'' @ v"

definition json_text :: "string \<Rightarrow> string" where
  "json_text s = [dquote] @ s @ [dquote]"

definition json_u64 :: "u64 \<Rightarrow> string" where
  "json_u64 n = show_nat (unat n)"

definition report_line :: "Clock \<Rightarrow> Config \<Rightarrow> nat \<Rightarrow> u64 \<Rightarrow> Measurements \<Rightarrow> u64 option \<Rightarrow> string" where
  "report_line clock config queries warmup_checksum m vm_hwm =
     ''{'' @ join '',''
       [json_field ''schema_version'' ''1'',
        json_field ''implementation'' (json_text (implementation_name (cf_implementation config))),
        json_field ''security'' (json_text (gate_security_name (cf_security config))),
        json_field ''workload'' (json_text (workload_name (cf_workload config))),
        json_field ''statement_cache_capacity'' (show_nat DEFAULT_PREPARED_STATEMENT_CACHE_CAPACITY),
        json_field ''query_count'' (show_nat queries),
        json_field ''iterations'' (json_u64 (cf_iterations config)),
        json_field ''warmup_iterations'' (json_u64 (cf_warmup_iterations config)),
        json_field ''setup_ns'' (json_u64 (nanos (ck_setup clock))),
        json_field ''warmup_ns'' (json_u64 (nanos (ck_warmup clock))),
        json_field ''warmup_checksum'' (json_u64 warmup_checksum),
        json_field ''elapsed_ns'' (json_u64 (ms_elapsed_ns m)),
        json_field ''throughput_ops_s'' (show_f64_3 (ms_throughput_ops_s m)),
        json_field ''p50_ns'' (json_u64 (ms_p50_ns m)),
        json_field ''p95_ns'' (json_u64 (ms_p95_ns m)),
        json_field ''p99_ns'' (json_u64 (ms_p99_ns m)),
        json_field ''vm_hwm_kib'' (case vm_hwm of None \<Rightarrow> ''null'' | Some v \<Rightarrow> json_u64 v),
        json_field ''checksum'' (json_u64 (ms_checksum m))] @ ''}''"

text \<open>The part of \<^verbatim>\<open>main\<close> between opening and closing the database.\<close>

definition gate_run ::
  "('db, 'c) ConnectionEngine \<Rightarrow> Clock \<Rightarrow> Config \<Rightarrow> (('db, 'c) Database, GateError, u64 \<times> Measurements option) effect" where
  "gate_run ce clock config =
     bind_st (initialize_database ce) (\<lambda>_.
     (let queries = build_queries (cf_workload config) in
      bind_st (warm_up ce config queries) (\<lambda>warmup_checksum.
      bind_st (gate_measure ce clock config queries) (\<lambda>m. ret_st (warmup_checksum, m)))))"

text \<open>
  The whole program: what it prints to the error stream, and its result or the line it prints. No value stands for a panic. \<open>attach\<close> is the
  database that an opened connection stands for.
\<close>

definition gate_main ::
  "('w, 'k) OpenEngine \<Rightarrow> ('db, 'c) ConnectionEngine \<Rightarrow> ('k \<times> SecurityMode \<Rightarrow> 'w \<Rightarrow> ('db, 'c) Database) \<Rightarrow> (string \<Rightarrow> bool) \<Rightarrow> Clock
     \<Rightarrow> string option \<Rightarrow> string list \<Rightarrow> 's \<times> 'w \<Rightarrow> (string list \<times> string AnyResult) option" where
  "gate_main eng ce attach exists clock status arguments st =
     (case parse_config arguments of
        (err, Inl e) \<Rightarrow> Some (err, Inl e)
      | (err, Inr config) \<Rightarrow>
     (case open_database eng exists config st of
        None \<Rightarrow> None
      | Some (Inl e, _) \<Rightarrow> Some (err, Inl e)
      | Some (Inr c, s, w) \<Rightarrow>
     (case gate_run ce clock config (attach c w) of
        (Inl e, _) \<Rightarrow> Some (err, Inl e)
      | (Inr (_, None), _) \<Rightarrow> None
      | (Inr (warmup_checksum, Some m), d) \<Rightarrow>
          Some (err,
            bind_result (map_err LibraryError (database_close ce d)) (\<lambda>_.
            Inr (report_line clock config (length (build_queries (cf_workload config))) warmup_checksum m (vm_hwm_kib status)))))))"

section \<open>What the gate relies on\<close>

text \<open>A text without parameters whose first row starts with an integer.\<close>

definition answers :: "'db Engine \<Rightarrow> 'db \<Rightarrow> string \<Rightarrow> i64 \<Rightarrow> bool" where
  "answers eng db sql v \<longleftrightarrow>
     e_parameter_count eng sql db = Inr 0 \<and> (\<exists>cells rows. e_query eng sql [] db = Inr (SqlInteger v # cells) # rows)"

text \<open>\<^verbatim>\<open>query_row\<close> with the first column of the row: the integer that starts the first row.\<close>

definition row_law :: "'db Engine \<Rightarrow> bool" where
  "row_law eng \<longleftrightarrow> (\<forall>db sql v. answers eng db sql v \<longrightarrow> e_query_i64 eng sql db = Inr v)"

text \<open>What the script leaves, when it runs through: a table of the first numbers with their values.\<close>

definition serves_dataset :: "'db Engine \<Rightarrow> 'db \<Rightarrow> bool" where
  "serves_dataset eng db \<longleftrightarrow>
     answers eng db COUNT_SQL 10000 \<and> (\<forall>n \<in> {1..ROW_COUNT}. answers eng db (gate_query n) (of_nat n * 37 + 11))"

definition dataset_law :: "'db Engine \<Rightarrow> bool" where
  "dataset_law eng \<longleftrightarrow> (\<forall>db db'. e_batch eng DATASET_SQL db = (Inr (), db') \<longrightarrow> serves_dataset eng db')"

section \<open>The three implementations agree\<close>

abbreviation content :: "('db, 'c) Database \<Rightarrow> 'db" where
  "content d \<equiv> cn_db (db_connection d)"

text \<open>An operation that returns a value, never fails and leaves the content as it is.\<close>

definition yields :: "'db \<Rightarrow> (('db, 'c) Database, GateError, 'a) effect \<Rightarrow> 'a \<Rightarrow> bool" where
  "yields db m v \<longleftrightarrow> (\<forall>d. content d = db \<longrightarrow> (\<exists>d'. m d = (Inr v, d') \<and> content d' = db))"

lemma yieldsD: "yields db m v \<Longrightarrow> content d = db \<Longrightarrow> \<exists>d'. m d = (Inr v, d') \<and> content d' = db"
  by (simp add: yields_def)

lemma yields_ret [simp]: "yields db (ret_st v) v"
  by (simp add: yields_def)

lemma yields_bind: "yields db m v \<Longrightarrow> yields db (f v) u \<Longrightarrow> yields db (bind_st m f) u"
  unfolding yields_def bind_st_def by fastforce

lemma simulated_row:
  assumes "simulates cn_db (db_connection d) m (query_i64 eng sql)" "e_query_i64 eng sql (content d) = Inr v"
  shows "\<exists>d'. map_err_st LibraryError (on_connection m) d = (Inr v, d') \<and> content d' = content d"
  using assms by (cases "m (db_connection d)") (auto simp: simulates_def query_i64_def map_err_st_def on_connection_def)

lemma first_i64_answer: "answers eng db sql v \<Longrightarrow>
  first_i64 eng \<lparr>st_sql = sql, st_parameter_count = 0, st_bindings = []\<rparr> db = (Inr (Some v), db)"
  by (auto simp: answers_def first_i64_def bind_st_def statement_query_def bind_all_def bind_iter_def get_i64_def value_ref_def)

lemma query_reference_yields:
  assumes "answers (ce_engine ce) db sql v"
  shows "yields db (query_reference ce sql) v"
proof -
  have "e_parameter_count (ce_engine ce) sql db = Inr 0" using assms by (simp add: answers_def)
  then show ?thesis
    by (auto simp: yields_def query_reference_def bind_st_def map_err_st_def database_prepare_def connection_prepare_def on_connection_def
        on_db_def prepare_def use_statement_def first_i64_answer [OF assms])
qed

lemma simulated_row_yields:
  fixes db :: 'db and m :: "(('db, 'c) Connection, Error, i64) effect"
  assumes "\<And>d. content d = db \<Longrightarrow> simulates cn_db (db_connection d) m (query_i64 eng sql)" "e_query_i64 eng sql db = Inr v"
  shows "yields db (map_err_st LibraryError (on_connection m)) v"
  unfolding yields_def
proof (intro allI impI)
  fix d :: "('db, 'c) Database"
  assume d: "content d = db"
  show "\<exists>d'. map_err_st LibraryError (on_connection m) d = (Inr v, d') \<and> content d' = db"
    using simulated_row [OF assms(1) [OF d]] assms(2) by (simp add: d)
qed

lemma query_once_yields:
  assumes "cache_law ce" "row_law (ce_engine ce)" "answers (ce_engine ce) db sql v"
  shows "yields db (query_once ce implementation sql) v"
proof (cases implementation)
  case ReferenceImpl
  then show ?thesis using query_reference_yields [OF assms(3)] by (simp add: query_once_def)
next
  case PublicImpl
  have "e_query_i64 (ce_engine ce) sql db = Inr v" using assms(2,3) by (simp add: row_law_def)
  then show ?thesis
    using simulated_row_yields [OF simulates_on_db] PublicImpl
    by (simp add: query_once_def database_query_i64_def connection_query_i64_def)
next
  case CachedImpl
  have "e_query_i64 (ce_engine ce) sql db = Inr v" using assms(2,3) by (simp add: row_law_def)
  moreover have "compiles ce db sql" using assms(3) by (simp add: compiles_def answers_def)
  ultimately show ?thesis
    using simulated_row_yields [OF cached_row [OF assms(1)]] CachedImpl
    by (simp add: query_once_def database_query_i64_cached_def)
qed

text \<open>The answers of the dataset, and the checksum of a loop over them.\<close>

definition dataset_value :: "nat \<Rightarrow> i64" where
  "dataset_value query_index = of_nat (query_index + 1) * 37 + 11"

definition dataset_checksum :: "nat \<Rightarrow> nat list \<Rightarrow> u64 \<Rightarrow> u64" where
  "dataset_checksum queries operations checksum =
     fold (\<lambda>operation c. update_checksum c (dataset_value (operation mod queries)) operation) operations checksum"

lemma query_count_bounds: "0 < query_count w" "query_count w \<le> ROW_COUNT"
  by (cases w; simp add: ROW_COUNT_def)+

lemma build_queries_nth:
  "length (build_queries w) = query_count w" "i < query_count w \<Longrightarrow> build_queries w ! i = gate_query (i + 1)"
  by (simp_all add: build_queries_def del: upt_Suc)

text \<open>The expected value is what the script computes for the row; none of the two overflows.\<close>

lemma expected_value_row:
  assumes "i < ROW_COUNT"
  shows "expected_value i = Inr (dataset_value i) \<and> sint (dataset_value i) = 37 * int i + 48"
proof -
  have "dataset_value i = word_of_int (37 * int i + 48)"
    by (simp add: dataset_value_def algebra_simps)
  then have "sint (dataset_value i) = signed_take_bit 63 (37 * int i + 48)"
    by (simp only: signed_of_int) simp
  also have "\<dots> = 37 * int i + 48"
    using assms by (intro signed_take_bit_int_eq_self) (simp_all add: ROW_COUNT_def)
  finally show ?thesis using assms by (simp add: expected_value_def i64_try_from_def dataset_value_def ROW_COUNT_def)
qed

lemma checked_query_yields:
  assumes "cache_law ce" "row_law (ce_engine ce)" "serves_dataset (ce_engine ce) db"
  shows "yields db (checked_query ce implementation (build_queries w) message operation) (dataset_value (operation mod query_count w))"
proof -
  let ?i = "operation mod query_count w"
  have i: "?i < query_count w" using query_count_bounds(1) by simp
  then have "?i < ROW_COUNT" using query_count_bounds(2) [of w] by simp
  then have e: "expected_value ?i = Inr (dataset_value ?i)" and "?i + 1 \<in> {1..ROW_COUNT}"
    using expected_value_row by simp_all
  from this(2) have a: "answers (ce_engine ce) db (gate_query (?i + 1)) (dataset_value ?i)"
    unfolding dataset_value_def by (rule bspec [OF assms(3) [unfolded serves_dataset_def, THEN conjunct2]])
  show ?thesis
    unfolding checked_query_def Let_def build_queries_nth(1) build_queries_nth(2) [OF i]
    by (rule yields_bind [OF query_once_yields [OF assms(1,2) a]]) (simp add: e yields_def)
qed

lemma warm_up_yields:
  assumes "cache_law ce" "row_law (ce_engine ce)" "serves_dataset (ce_engine ce) db"
  shows "yields db (warm_up_loop ce config (build_queries w) operations checksum) (dataset_checksum (query_count w) operations checksum)"
  by (induction operations arbitrary: checksum)
    (simp_all add: dataset_checksum_def yields_bind [OF checked_query_yields [OF assms]])

lemma measure_yields:
  assumes "cache_law ce" "row_law (ce_engine ce)" "serves_dataset (ce_engine ce) db"
  shows "yields db (measure_loop ce clock config (build_queries w) operations latencies checksum)
    (latencies @ map (nanos \<circ> ck_latency clock) operations, dataset_checksum (query_count w) operations checksum)"
proof (induction operations arbitrary: latencies checksum)
  case (Cons operation operations)
  show ?case
    unfolding measure_loop.simps
    by (rule yields_bind [OF checked_query_yields [OF assms]]) (use Cons.IH [of "latencies @ [nanos (ck_latency clock operation)]"] in \<open>simp add: dataset_checksum_def\<close>)
qed (simp add: dataset_checksum_def)

section \<open>Percentiles\<close>

text \<open>The nearest rank: at least the given share of the values is at most the percentile, and a smaller share is below it.\<close>

definition nearest_rank :: "u64 list \<Rightarrow> nat \<Rightarrow> u64 \<Rightarrow> bool" where
  "nearest_rank xs p v \<longleftrightarrow>
     v \<in> set xs \<and> p * length xs \<le> 100 * length (filter (\<lambda>x. x \<le> v) xs) \<and> 100 * length (filter (\<lambda>x. x < v) xs) < p * length xs"

lemma nearest_rank_sort: "nearest_rank (sort xs) p v \<longleftrightarrow> nearest_rank xs p v"
  by (simp add: nearest_rank_def filter_sort)

lemma sorted_ranks:
  fixes xs :: "'a::linorder list"
  assumes "sorted xs" "i < length xs"
  shows "Suc i \<le> length (filter (\<lambda>x. x \<le> xs ! i) xs)" "length (filter (\<lambda>x. x < xs ! i) xs) \<le> i"
proof -
  have "filter (\<lambda>x. x \<le> xs ! i) (take (Suc i) xs) = take (Suc i) xs"
    using assms by (auto simp: filter_id_conv in_set_conv_nth sorted_iff_nth_mono)
  moreover have "length (take (Suc i) xs) = Suc i" using assms(2) by simp
  ultimately have "Suc i = length (filter (\<lambda>x. x \<le> xs ! i) (take (Suc i) xs))" by (simp only:)
  also have "\<dots> \<le> length (filter (\<lambda>x. x \<le> xs ! i) (take (Suc i) xs @ drop (Suc i) xs))" by (simp only: filter_append length_append le_add1)
  finally show "Suc i \<le> length (filter (\<lambda>x. x \<le> xs ! i) xs)" by simp
  have "filter (\<lambda>x. x < xs ! i) (drop i xs) = []"
    using assms by (auto simp: filter_empty_conv in_set_conv_nth sorted_iff_nth_mono not_less)
  then have "filter (\<lambda>x. x < xs ! i) (take i xs @ drop i xs) = filter (\<lambda>x. x < xs ! i) (take i xs)" by (simp only: filter_append append_Nil2)
  then show "length (filter (\<lambda>x. x < xs ! i) xs) \<le> i" using length_filter_le [of _ "take i xs"] by (simp add: le_trans)
qed

lemma percentile_in_range:
  assumes "xs \<noteq> []" "p \<le> 100"
  shows "(saturating_mul_usize (length xs) p + 99) div 100 - 1 < length xs"
proof -
  have "saturating_mul_usize (length xs) p \<le> length xs * 100"
    using assms(2) by (simp add: saturating_mul_usize_def min.coboundedI1)
  then have "(saturating_mul_usize (length xs) p + 99) div 100 \<le> (length xs * 100 + 99) div 100" by (intro div_le_mono) simp
  also have "\<dots> = length xs" by simp
  finally show ?thesis using assms(1) by (cases xs) auto
qed

lemma ceiling_rank: "0 < k \<Longrightarrow> k \<le> 100 * Suc ((k + 99) div 100 - 1) \<and> 100 * ((k + 99) div 100 - 1) < k" for k :: nat
proof -
  assume "0 < k"
  moreover have "100 * ((k + 99) div 100) + (k + 99) mod 100 = k + 99" "(k + 99) mod 100 < 100" by (simp_all only: mult_div_mod_eq mod_less_divisor)
  ultimately show ?thesis by (cases "(k + 99) div 100") simp_all
qed

lemma percentile_nearest_rank:
  assumes "xs \<noteq> []" "sorted xs" "0 < p" "p \<le> 100" "length xs * p < 2 ^ 64"
  shows "\<exists>v. percentile xs p = Some v \<and> nearest_rank xs p v"
proof -
  define i where "i = (length xs * p + 99) div 100 - 1"
  have sat: "saturating_mul_usize (length xs) p = length xs * p" using assms(5) by (simp add: saturating_mul_usize_def)
  then have i: "i < length xs" using percentile_in_range [OF assms(1,4)] by (simp add: i_def)
  have "0 < length xs * p" using assms(1,3) by simp
  then have r: "p * length xs \<le> 100 * Suc i" "100 * i < p * length xs"
    using ceiling_rank [of "length xs * p"] unfolding i_def mult.commute [of p] by simp_all
  have "nearest_rank xs p (xs ! i)"
    using sorted_ranks [OF assms(2) i] r i unfolding nearest_rank_def by (meson le_trans le_less_trans mult_le_mono2 nth_mem)
  then show ?thesis using i by (simp add: percentile_def sat i_def)
qed

lemma percentile_mono:
  assumes "sorted xs" "p \<le> q" "percentile xs p = Some u" "percentile xs q = Some v"
  shows "u \<le> v"
proof -
  have "saturating_mul_usize (length xs) p \<le> saturating_mul_usize (length xs) q"
    unfolding saturating_mul_usize_def by (intro min.mono mult_le_mono2 assms(2) order_refl)
  then have "(saturating_mul_usize (length xs) p + 99) div 100 - 1 \<le> (saturating_mul_usize (length xs) q + 99) div 100 - 1"
    by (intro diff_le_mono div_le_mono) simp
  then show ?thesis using assms(1,3,4) by (auto simp: percentile_def Let_def sorted_iff_nth_mono split: if_splits)
qed

lemma measurements_exact:
  assumes "latencies \<noteq> []" "length latencies * 100 < 2 ^ 64"
  shows "\<exists>m. measurements clock config latencies checksum = Some m \<and> ms_checksum m = checksum \<and>
    nearest_rank latencies 50 (ms_p50_ns m) \<and> nearest_rank latencies 95 (ms_p95_ns m) \<and> nearest_rank latencies 99 (ms_p99_ns m) \<and>
    ms_p50_ns m \<le> ms_p95_ns m \<and> ms_p95_ns m \<le> ms_p99_ns m"
proof -
  have xs: "sort latencies \<noteq> []" using assms(1) by (metis length_0_conv length_sort)
  have rank: "\<exists>v. percentile (sort latencies) p = Some v \<and> nearest_rank latencies p v" if "0 < p" "p \<le> 100" for p
    using percentile_nearest_rank [OF xs sorted_sort that] le_less_trans [OF mult_le_mono2 [OF that(2)] assms(2)]
    by (simp add: nearest_rank_sort del: power_numeral)
  obtain a b c where v: "percentile (sort latencies) 50 = Some a" "nearest_rank latencies 50 a"
    "percentile (sort latencies) 95 = Some b" "nearest_rank latencies 95 b"
    "percentile (sort latencies) 99 = Some c" "nearest_rank latencies 99 c"
    using rank [of 50] rank [of 95] rank [of 99] by auto
  moreover have "a \<le> b" "b \<le> c"
    using percentile_mono [OF sorted_sort _ v(1,3)] percentile_mono [OF sorted_sort _ v(3,5)] by simp_all
  ultimately show ?thesis by (simp add: measurements_def Let_def)
qed

section \<open>Properties\<close>

definition observed_latencies :: "Clock \<Rightarrow> Config \<Rightarrow> u64 list" where
  "observed_latencies clock config = map (nanos \<circ> ck_latency clock) [0..<unat (cf_iterations config)]"

definition faithful_measurements :: "Clock \<Rightarrow> Config \<Rightarrow> Measurements \<Rightarrow> bool" where
  "faithful_measurements clock config m \<longleftrightarrow>
     ms_checksum m = dataset_checksum (query_count (cf_workload config)) [0..<unat (cf_iterations config)] CHECKSUM_SEED \<and>
     nearest_rank (observed_latencies clock config) 50 (ms_p50_ns m) \<and>
     nearest_rank (observed_latencies clock config) 95 (ms_p95_ns m) \<and>
     nearest_rank (observed_latencies clock config) 99 (ms_p99_ns m) \<and> ms_p50_ns m \<le> ms_p95_ns m \<and> ms_p95_ns m \<le> ms_p99_ns m"

lemma parsed_iterations:
  assumes "parse_config arguments = (err, Inr config)"
  shows "err = [] \<and> 0 < cf_iterations config"
proof -
  have pos: "get_or vs 4 (Inr 50000) (\<lambda>v. parse_usize v message False) = Inr n \<Longrightarrow> 0 < n" for vs message n
    by (auto simp: get_or_def parse_usize_def word_neq_0_conv split: if_splits)
  show ?thesis using assms by (auto simp: parse_config_def Let_def dest: pos split: if_splits)
qed

lemma initialize_yields:
  assumes "dataset_law (ce_engine ce)" "e_batch (ce_engine ce) DATASET_SQL (content d) = (Inr (), db)"
  shows "\<exists>d'. initialize_database ce d = (Inr (), d') \<and> content d' = db"
proof -
  have "answers (ce_engine ce) db COUNT_SQL 10000" using assms by (simp add: dataset_law_def serves_dataset_def)
  from query_reference_yields [OF this] obtain d'
    where "query_reference ce COUNT_SQL (d\<lparr>db_connection := db_connection d\<lparr>cn_db := db\<rparr>\<rparr>) = (Inr 10000, d')" "content d' = db"
    by (auto dest: yieldsD [where d = "d\<lparr>db_connection := db_connection d\<lparr>cn_db := db\<rparr>\<rparr>"])
  then show ?thesis
    using assms(2)
    by (simp add: initialize_database_def bind_st_def map_err_st_def database_execute_batch_def connection_execute_batch_def
        on_connection_def on_db_def execute_batch_def i64_try_from_def ROW_COUNT_def)
qed

lemma gate_run_result:
  assumes "cache_law ce" "row_law (ce_engine ce)" "dataset_law (ce_engine ce)" "0 < cf_iterations config"
    and "unat (cf_iterations config) * 100 < 2 ^ 64" "e_batch (ce_engine ce) DATASET_SQL (content d) = (Inr (), db)"
  defines "n \<equiv> query_count (cf_workload config)"
  shows "\<exists>m d'. gate_run ce clock config d = (Inr (dataset_checksum n [0..<unat (cf_warmup_iterations config)] CHECKSUM_SEED, Some m), d') \<and>
    content d' = db \<and> faithful_measurements clock config m"
proof -
  note laws = assms(1,2)
  have data: "serves_dataset (ce_engine ce) db" using assms(3,6) by (simp add: dataset_law_def)
  obtain d1 where d1: "initialize_database ce d = (Inr (), d1)" "content d1 = db" using initialize_yields [OF assms(3,6)] by blast
  obtain d2 where d2: "warm_up ce config (build_queries (cf_workload config)) d1 =
      (Inr (dataset_checksum n [0..<unat (cf_warmup_iterations config)] CHECKSUM_SEED), d2)" "content d2 = db"
    using yieldsD [OF warm_up_yields [OF laws data] d1(2)] unfolding warm_up_def n_def by blast
  obtain d3 where d3: "measure_loop ce clock config (build_queries (cf_workload config)) [0..<unat (cf_iterations config)] [] CHECKSUM_SEED d2 =
      (Inr (observed_latencies clock config, dataset_checksum n [0..<unat (cf_iterations config)] CHECKSUM_SEED), d3)" "content d3 = db"
    using yieldsD [OF measure_yields [OF laws data, where latencies = "[]"] d2(2)] unfolding observed_latencies_def n_def append_Nil by blast
  have "observed_latencies clock config \<noteq> []" "length (observed_latencies clock config) * 100 < 2 ^ 64"
    using assms(4,5) by (simp_all add: observed_latencies_def word_less_nat_alt)
  from measurements_exact [OF this, of clock config "dataset_checksum n [0..<unat (cf_iterations config)] CHECKSUM_SEED"] show ?thesis
    using d3(2) by (auto simp: gate_run_def Let_def bind_st_def d1 d2 d3 gate_measure_def n_def faithful_measurements_def)
qed


text \<open>A path that exists, or whose sidecar does, is refused before anything is opened.\<close>

lemma gate_refuses_existing:
  assumes "parse_config arguments = (err, Inr config)"
    and "exists (cf_path config) \<or> exists (cf_path config @ ''-wal'') \<or> exists (cf_path config @ ''-shm'')"
  shows "open_database eng exists config st = Some (Inl (InvalidInput ''database path or a database sidecar already exists''), st)"
    "gate_main eng ce attach exists clock status arguments st =
       Some ([], Inl (InvalidInput ''database path or a database sidecar already exists''))"
  using assms(2) parsed_iterations [OF assms(1)]
  by (auto simp: gate_main_def assms(1) open_database_def ensure_fresh_path_def sidecar_path_def invalid_input_def)

section \<open>An executable dataset\<close>

definition gate_answer :: "string \<Rightarrow> i64 option" where
  "gate_answer sql =
     (let n = digits_value (drop (length (gate_query 0) - 1) sql) in
      if sql = COUNT_SQL then Some 10000
      else if 1 \<le> n \<and> n \<le> ROW_COUNT \<and> sql = gate_query n then Some (of_nat n * 37 + 11) else None)"

text \<open>The state says whether the table is there.\<close>

definition gate_rows :: "string \<Rightarrow> bool \<Rightarrow> Rows" where
  "gate_rows sql d = (if d then case gate_answer sql of Some v \<Rightarrow> [Inr [SqlInteger v]] | None \<Rightarrow> [] else [])"

definition gate_engine :: "bool Engine" where
  "gate_engine =
     \<lparr>e_batch = (\<lambda>sql d. if sql = DATASET_SQL \<and> \<not> d then (Inr (), True) else (Inl SqlInputError, d)),
      e_parameter_count = (\<lambda>_ _. Inr 0), e_bind = (\<lambda>_ _ _ _. Inr ()), e_execute = (\<lambda>_ _ d. (Inl SqlInputError, d)),
      e_query = (\<lambda>sql _ d. gate_rows sql d),
      e_query_i64 = (\<lambda>sql d. case gate_rows sql d of Inr (SqlInteger v # _) # _ \<Rightarrow> Inr v | _ \<Rightarrow> Inl SqlInputError),
      e_begin = (\<lambda>d. (Inr (), d)), e_commit = (\<lambda>d. (Inr (), d)), e_rollback = (\<lambda>d. (Inr (), d)), e_drop_transaction = (\<lambda>d. d),
      e_transaction_state = (\<lambda>_ _. Inr SqlTxnNone), e_busy_timeout = (\<lambda>_ d. (Inr (), d)), e_wal_checkpoint = (\<lambda>_ _ d. ((0, 0, 0), d)),
      e_wal_autocheckpoint = (\<lambda>_ d. (0, d)), e_failure_code = (\<lambda>_. FOther), e_close = (\<lambda>_. Inr ())\<rparr>"

lemma gate_answer_query: "1 \<le> n \<Longrightarrow> n \<le> ROW_COUNT \<Longrightarrow> gate_answer (gate_query n) = Some (of_nat n * 37 + 11)"
  by (simp add: gate_answer_def Let_def gate_query_def COUNT_SQL_def show_nat.simps [of 0])

lemma gate_engine_laws: "row_law gate_engine" "dataset_law gate_engine"
proof -
  show "row_law gate_engine" by (auto simp: row_law_def answers_def gate_engine_def)
  have "answers gate_engine True COUNT_SQL 10000" by (simp add: answers_def gate_engine_def gate_rows_def gate_answer_def Let_def)
  then have "serves_dataset gate_engine True"
    unfolding serves_dataset_def by (simp add: answers_def gate_engine_def gate_rows_def gate_answer_query)
  then show "dataset_law gate_engine" by (auto simp: dataset_law_def gate_engine_def split: if_splits)
qed

definition gate_clock :: Clock where
  "gate_clock = \<lparr>ck_latency = (\<lambda>i. 100 + i), ck_elapsed = 500, ck_setup = 9, ck_warmup = 4\<rparr>"

definition gate_arguments :: "string list" where
  "gate_arguments = [''query_gate'', ''cached'', ''plaintext'', ''hot16'', ''gate.db'', ''3'', ''0'']"

definition gate_config :: Config where
  "gate_config = \<lparr>cf_implementation = CachedImpl, cf_security = PlaintextGate, cf_workload = Hot16, cf_path = ''gate.db'',
     cf_iterations = 3, cf_warmup_iterations = 0\<rparr>"

definition gate_database :: "nat \<times> SecurityMode \<Rightarrow> engine_event list \<Rightarrow> (bool, unit) Database" where
  "gate_database c w = \<lparr>db_connection = \<lparr>cn_db = False, cn_cache = (), cn_security = snd c\<rparr>\<rparr>"

lemma gate_arguments_parse: "parse_config gate_arguments = ([], Inr gate_config)"
  by (simp add: parse_config_def gate_arguments_def gate_config_def Let_def get_or_def parse_usize_def parse_unsigned_def is_digit_def
      digits_value_def implementation_parse_def security_parse_def workload_parse_def)

lemma gate_database_opens:
  "\<exists>c h. open_database (recorder calm_outcomes) (\<lambda>_. False) gate_config ((), []) = Some (Inr c, (), h)"
  by (simp add: open_database_def ensure_fresh_path_def gate_config_def database_open_plaintext_def
      builder_open_def with_plan_def builder_plan_def builder_plaintext_def builder_new_def
      prepare_open_def identity_from_path_def normalize_admissible open_options_default_def flags_admissible_def flag_simps
      validate_vfs_def with_flag_defaults_def resolve_key_def Let_def
      open_resolved_def connection_open_def open_with_access_def connection_flags_def calm_outcomes_def
      open_plaintext_connection_def open_engine_connection_def bind_st_def map_err_st_def
      recorder_def call_outcome_def owning_def verify_database_def configure_connection_def SQLITE_OK_def)


end
