(* ===== verification/Inspection.thy ===== *)
theory Inspection
  imports Connection_Ops
begin

text \<open>
  What can be seen of queries, fields and databases: their \<^verbatim>\<open>Debug\<close> output (\<^verbatim>\<open>csgdb/src/query.rs\<close>, \<^verbatim>\<open>collection.rs\<close>, \<^verbatim>\<open>lib.rs\<close>), the persistent identity of a
  field, and the columns of a result row (\<^verbatim>\<open>csgdb-storage/src/lib.rs\<close>). The values that a caller compares with are in none of it, nor in
  the compiled text.
\<close>

section \<open>Debug output\<close>

definition debug_bool :: "bool \<Rightarrow> Dbg" where
  "debug_bool b = DText (if b then ''true'' else ''false'')"

definition debug_column_type :: "ColumnType \<Rightarrow> Dbg" where
  "debug_column_type ty = DText (case ty of CInteger \<Rightarrow> ''Integer'' | CReal \<Rightarrow> ''Real'' | CText \<Rightarrow> ''Text'' | CBlob \<Rightarrow> ''Blob'')"

definition debug_collection_field :: "FieldSchema \<Rightarrow> Dbg" where
  "debug_collection_field field = DStruct ''CollectionField''
     [(''id'', DText (fs_id field)), (''column'', DText (fs_column field)), (''column_type'', debug_column_type (fs_column_type field)),
      (''nullable'', debug_bool (fs_nullable field)), (''primary_key'', debug_bool (fs_primary_key field))] False"

definition debug_fingerprint :: "SchemaFingerprint \<Rightarrow> Dbg" where
  "debug_fingerprint f = DText (''SchemaFingerprint('' @ display_fingerprint f @ '')'')"

definition debug_query_order :: "QueryOrder \<Rightarrow> Dbg" where
  "debug_query_order order = DStruct ''QueryOrder''
     [(''field_id'', DText (fs_id (qo_field order))),
      (''direction'', DText (case qo_direction order of Ascending \<Rightarrow> ''Ascending'' | Descending \<Rightarrow> ''Descending''))] False"

definition debug_collection_query :: "CollectionSchema \<Rightarrow> CollectionQuery \<Rightarrow> Dbg" where
  "debug_collection_query schema query = DStruct ''CollectionQuery''
     [(''collection_id'', DText (cs_id schema)), (''limit'', DNat (unat (cq_limit query))),
      (''bound_values'', DNat (length (cq_values query)))] True"

definition debug_collection_exists_query :: "CollectionSchema \<Rightarrow> CollectionExistsQuery \<Rightarrow> Dbg" where
  "debug_collection_exists_query schema query = DStruct ''CollectionExistsQuery''
     [(''collection_id'', DText (cs_id schema)), (''bound_values'', DNat (length (ceq_values query)))] True"

definition debug_database :: "('db, 'c) Database \<Rightarrow> Dbg" where
  "debug_database d = DStruct ''Database'' [(''security'', debug_security (database_security d))] True"

section \<open>Fields and rows\<close>

definition field_encode :: "('v \<Rightarrow> Value result) \<Rightarrow> FieldSchema \<Rightarrow> 'v \<Rightarrow> Value result" where
  "field_encode to_value field v = to_value v"

definition same_storage_field :: "CollectionSchema \<Rightarrow> FieldSchema \<Rightarrow> CollectionSchema \<Rightarrow> FieldSchema \<Rightarrow> bool" where
  "same_storage_field schema field other_schema other \<longleftrightarrow> cs_id schema = cs_id other_schema \<and> fs_id field = fs_id other"

text \<open>The columns of a row are those of its statement.\<close>

definition row_column_count :: "('db, 'c) ConnectionEngine \<Rightarrow> string \<Rightarrow> 'db \<Rightarrow> nat" where
  "row_column_count ce sql db = ce_column_count ce sql db"

definition row_column_name :: "('db, 'c) ConnectionEngine \<Rightarrow> string \<Rightarrow> nat \<Rightarrow> 'db \<Rightarrow> string result" where
  "row_column_name ce sql index db = map_err (\<lambda>_. column_index_error) (ce_column_name ce sql index db)"

definition transaction_query_i64 :: "('db, 'c) ConnectionEngine \<Rightarrow> string \<Rightarrow> (('db, 'c) Connection, Error, i64) effect" where
  "transaction_query_i64 ce sql = on_db (query_i64 (ce_engine ce) sql)"

definition transaction_transaction_state ::
  "('db, 'c) ConnectionEngine \<Rightarrow> string option \<Rightarrow> (('db, 'c) Connection, Error, TransactionState) effect" where
  "transaction_transaction_state ce database_name = on_db (transaction_state (ce_engine ce) database_name)"

text \<open>Within a valid schema the persistent identity determines the field.\<close>

lemma same_storage_field_identifies:
  assumes "schema_wf schema" "f \<in> set (cs_fields schema)" "g \<in> set (cs_fields schema)"
  shows "same_storage_field schema f schema g \<longleftrightarrow> f = g"
  using assms by (auto simp: same_storage_field_def schema_wf_def fields_wf_def distinct_map dest: inj_onD)

section \<open>Bound values stay out of the text\<close>

text \<open>Values of the same storage class, and both acceptable or both not where the class is that of reals.\<close>

fun similar :: "Value \<Rightarrow> Value \<Rightarrow> bool" where
  "similar VNull VNull = True"
| "similar (VInteger _) (VInteger _) = True"
| "similar (VReal x) (VReal y) = (f64_is_finite x = f64_is_finite y)"
| "similar (VText _) (VText _) = True"
| "similar (VBlob _) (VBlob _) = True"
| "similar _ _ = False"

fun same_shape :: "PredicateNode \<Rightarrow> PredicateNode \<Rightarrow> bool" where
  "same_shape (Compare f c v) (Compare g d w) = (f = g \<and> c = d \<and> similar v w)"
| "same_shape (NullTest f c) (NullTest g d) = (f = g \<and> c = d)"
| "same_shape (And p q) (And r s) = (same_shape p r \<and> same_shape q s)"
| "same_shape (Or p q) (Or r s) = (same_shape p r \<and> same_shape q s)"
| "same_shape (Not p) (Not r) = same_shape p r"
| "same_shape _ _ = False"

lemma rel_bind:
  assumes "rel_sum (=) R m n" "\<And>x y. R x y \<Longrightarrow> rel_sum (=) S (f x) (g y)"
  shows "rel_sum (=) S (bind_result m f) (bind_result n g)"
  using assms by (cases m; cases n) auto

lemma similar_checks: "similar v w \<Longrightarrow> validate_bound_value f v = validate_bound_value f w" "similar v w \<Longrightarrow> v = VNull \<longleftrightarrow> w = VNull"
  by (cases v; cases w; simp add: validate_bound_value_def)+

definition same_text :: "string \<times> Value list \<times> nat \<Rightarrow> string \<times> Value list \<times> nat \<Rightarrow> bool" where
  "same_text x y \<longleftrightarrow> fst x = fst y \<and> length (fst (snd x)) = length (fst (snd y)) \<and> snd (snd x) = snd (snd y)"

lemma same_text_simps [simp]: "same_text (s, vs, m) (t, ws, n) \<longleftrightarrow> s = t \<and> length vs = length ws \<and> m = n"
  by (simp add: same_text_def)

lemma rel_same: "(\<And>x. rel_sum (=) S (f x) (g x)) \<Longrightarrow> rel_sum (=) S (bind_result m f) (bind_result m g)"
  by (cases m) simp_all

lemma rel_close:
  "rel_sum (=) same_text m n \<Longrightarrow>
     rel_sum (=) same_text (bind_result m (\<lambda>(s, vs, k). Inr (s @ t, vs, k))) (bind_result n (\<lambda>(s, vs, k). Inr (s @ t, vs, k)))"
  by (erule rel_bind) (auto simp: same_text_def split: prod.split)

lemma rel_both:
  assumes "rel_sum (=) same_text m n"
    and "\<And>s vs ws k. length vs = length ws \<Longrightarrow> rel_sum (=) same_text (f s vs k) (g s ws k)"
  shows "rel_sum (=) same_text
    (bind_result m (\<lambda>(s, vs, k). bind_result (f s vs k) (\<lambda>(s, vs, k). Inr (s @ t, vs, k))))
    (bind_result n (\<lambda>(s, vs, k). bind_result (g s vs k) (\<lambda>(s, vs, k). Inr (s @ t, vs, k))))"
  using assms(1) by (rule rel_bind) (auto intro!: rel_close assms(2))

lemma compile_predicate_shape:
  "same_shape p q \<Longrightarrow> length vs = length ws \<Longrightarrow>
     rel_sum (=) same_text (compile_predicate schema p sql vs depth nodes) (compile_predicate schema q sql ws depth nodes)"
proof (induction p q arbitrary: sql vs ws depth nodes rule: same_shape.induct)
  case (1 f c v g d w)
  then show ?case
    by (cases "enter_node depth nodes"; cases "validate_field schema g"; cases "validate_bound_value g w"; cases d)
      (auto simp: similar_checks [of v w] Let_def)
next
  case (2 f c g d)
  then show ?case by (cases "enter_node depth nodes"; cases "validate_field schema g") (auto simp: Let_def)
next
  case (3 p q r s)
  then show ?case unfolding compile_predicate.simps by (intro rel_same rel_both) auto
next
  case (4 p q r s)
  then show ?case unfolding compile_predicate.simps by (intro rel_same rel_both) auto
next
  case (5 p r)
  then show ?case unfolding compile_predicate.simps by (intro rel_same rel_close) auto
qed simp_all

text \<open>
  The text and the \<^verbatim>\<open>Debug\<close> output of a query do not depend on the values it compares with: predicates that differ only in values
  of the same storage class are accepted or refused alike, compile to the same text with as many bound values, and print alike.
\<close>

lemma compile_where_shape:
  "rel_option same_shape p q \<Longrightarrow>
     rel_sum (=) (\<lambda>(s, vs) (t, ws). s = t \<and> length vs = length ws) (compile_where schema p sql) (compile_where schema q sql)"
  by (cases p; cases q)
    (auto simp: compile_where_def intro!: rel_bind [OF compile_predicate_shape])

lemma query_hides_values:
  assumes "rel_option same_shape p q"
  shows "rel_sum (=) (\<lambda>a b. cq_sql a = cq_sql b \<and> debug_collection_query schema a = debug_collection_query schema b)
      (compile_query schema p order limit) (compile_query schema q order limit)"
    "rel_sum (=) (\<lambda>a b. ceq_sql a = ceq_sql b \<and> debug_collection_exists_query schema a = debug_collection_exists_query schema b)
      (compile_exists_query schema p order) (compile_exists_query schema q order)"
proof -
  show "rel_sum (=) (\<lambda>a b. cq_sql a = cq_sql b \<and> debug_collection_query schema a = debug_collection_query schema b)
      (compile_query schema p order limit) (compile_query schema q order limit)"
    unfolding compile_query_def Let_def
    by (auto intro!: rel_same rel_bind [OF compile_where_shape [OF assms]] simp: debug_collection_query_def)
  show "rel_sum (=) (\<lambda>a b. ceq_sql a = ceq_sql b \<and> debug_collection_exists_query schema a = debug_collection_exists_query schema b)
      (compile_exists_query schema p order) (compile_exists_query schema q order)"
    unfolding compile_exists_query_def Let_def
    by (auto intro!: rel_same rel_bind [OF compile_where_shape [OF assms]] simp: debug_collection_exists_query_def)
qed

end
