(* ===== verification/Spec2Isabelle.thy ===== *)
theory Spec2Isabelle
  imports Query_Spec Fault Collection_Map Ffi_Laws Pool_Serial Cli Query_Gate Inspection
begin

text \<open>
  A model of CSGDB, an encrypted embedded database library in Rust over SQLCipher, with the theorems that make it correct.

  \<^bold>\<open>The program.\<close> The crate \<^verbatim>\<open>csgdb-core\<close> holds the errors, values and the open policy: it turns a path and options into a plan
  and the plan's key source into a key. \<^verbatim>\<open>csgdb-storage\<close> is the adapter over the engine: it opens and keys connections,
  prepares and runs statements, runs transactions and checkpoints, maps engine failures to errors, and has a file system that
  injects faults. \<^verbatim>\<open>csgdb\<close> is the library proper: databases and their builders, typed collections with a schema
  registry and migrations, a typed query builder that compiles to SQL, and a managed pool with one writer thread behind a
  bounded queue, group commit, WAL maintenance and a pool of readers. \<^verbatim>\<open>csgdb-derive\<close> is the macro that generates
  a collection from a Rust structure. \<^verbatim>\<open>csgdb-ffi\<close> is the C interface.

  \<^bold>\<open>Theories and sources\<close> (paths under \<^verbatim>\<open>src/crates/\<close>).

  \<^item> \<open>Prelude\<close>: integer widths, the \<^verbatim>\<open>?\<close> operator and early-returning loops on sum types, pieces of the standard library,
    saturating arithmetic, and the locale of invariant machines, which every step relation below interprets.
  \<^item> \<open>Effects\<close>: fallible operations on an external state; the locale of relations that operations keep.
  \<^item> \<open>Core_Error\<close>, \<open>Core_Value\<close>: \<^verbatim>\<open>csgdb-core/src/{error,value,connection}.rs\<close>.
  \<^item> \<open>Open_Policy\<close>: \<^verbatim>\<open>csgdb-core/src/{key,open}.rs\<close>. Flags as a word, options and plans as records; \<open>prepare_open\<close> and
    \<open>resolve_key\<close>. The key provider is an argument over its own store, which resolving threads through.
  \<^item> \<open>Field_Codec\<close>, \<open>Float32\<close>, \<open>Schema\<close>: the field conversions and the schema validator of \<^verbatim>\<open>csgdb/src/collection.rs\<close>. The codecs share one
    locale, interpreted at every field type but \<^verbatim>\<open>f32\<close>; \<^verbatim>\<open>Option\<close> is a sublocale of the rest. \<^verbatim>\<open>f32\<close> has its own theory, with the IEEE-754
    conversions on bit patterns; it is not a codec in that sense, since the language leaves open what a NaN becomes.
  \<^item> \<open>Sql_Text\<close>: SQL text as the engine reads it, with the locale of identifier quoters, interpreted on the three
    quoting functions of the program.
  \<^item> \<open>Query\<close>, \<open>Query_Spec\<close>: \<^verbatim>\<open>csgdb/src/query.rs\<close>: drafts, validation and compilation; a reader of the emitted SQL and the
    meaning of what it reads.
  \<^item> \<open>Storage\<close>, \<open>Storage_Open\<close>: \<^verbatim>\<open>csgdb-storage/src/lib.rs\<close>: operations of an open connection over the record \<open>Engine\<close>, and
    the opening sequence over the record \<open>OpenEngine\<close>. For the opening laws the engine is a recorder with arbitrary
    outcomes, so that they speak of every call the code makes, in order.
  \<^item> \<open>Fault\<close>: \<^verbatim>\<open>csgdb-storage/src/fault.rs\<close>: rules, controller, sessions, registration and the wrapped file.
  \<^item> \<open>Pool_Config\<close>, \<open>Write_Queue\<close>, \<open>Group_Commit\<close>, \<open>Writer\<close>, \<open>Read_Pool\<close>: \<^verbatim>\<open>csgdb/src/pool.rs\<close>: option validation and the
    memory split; the queue with its condition variables as a step relation whose steps are the critical sections; a
    group of jobs in one transaction; the writer loop with maintenance; the readers, their leases and the re-entrancy guards.
  \<^item> \<open>Record_Ops\<close>, \<open>Records\<close>, \<open>Registry\<close>, \<open>Registry_Laws\<close>: record operations, queries, registration and migrations of
    \<^verbatim>\<open>csgdb/src/collection.rs\<close> and \<^verbatim>\<open>query.rs\<close>.
  \<^item> \<open>Connection_Ops\<close>: the methods of an open \<^verbatim>\<open>Connection\<close>, \<^verbatim>\<open>Database\<close>, \<^verbatim>\<open>Transaction\<close> and pooled reader, with the cache of prepared
    statements, whose contents and leftover bindings are part of the state.
  \<^item> \<open>Inspection\<close>: the \<^verbatim>\<open>Debug\<close> output of queries, fields and databases; bound values are in neither that nor the compiled text.
  \<^item> \<open>Pool_Ops\<close>, \<open>Pool_Serial\<close>: the operations of \<^verbatim>\<open>DatabasePool\<close>: what each submits, how it decodes its answer, and reads through a
    leased reader; the pool as a whole, from the queue through the writer and group commit to the answers.
  \<^item> \<open>Derive\<close>, \<open>Derive_Spec\<close>, \<open>Derive_Sql\<close>: \<^verbatim>\<open>csgdb-derive/src/lib.rs\<close>: attributes, validation, canonical descriptors and the
    generated code, as functions of the parsed structure.
  \<^item> \<open>Collection_Map\<close>: a derived collection from the generated code through the record operations and the statement cache down to
    the rows of its table, and the abstract map it implements, by a forward simulation.
  \<^item> \<open>Facade\<close>: \<^verbatim>\<open>Database\<close>, \<^verbatim>\<open>DatabasePool\<close> and their builders (\<^verbatim>\<open>csgdb/src/lib.rs\<close>, \<^verbatim>\<open>pool.rs\<close>).
  \<^item> \<open>Ffi\<close>, \<open>Ffi_Laws\<close>: \<^verbatim>\<open>csgdb-ffi/src/lib.rs\<close>: handles, shared connections and statements as objects of a store with
    reference counts; a call that would follow a dangling pointer has no result.
  \<^item> \<open>Query_Gate\<close>: the client program \<^verbatim>\<open>csgdb/examples/query_gate.rs\<close>, with the \<^verbatim>\<open>f64\<close> arithmetic of its report.
  \<^item> \<open>Cli\<close>: the version constants and the command-line tool, \<^verbatim>\<open>csgdb-core/src/version.rs\<close> and \<^verbatim>\<open>csgdb-cli/src/main.rs\<close>.

  \<^bold>\<open>What is proved.\<close> Opening: which options make a plan, keys before anything else, the exact flags, verified connections
  only, nothing left open by a failure, for connections, databases and whole pools; the key store changes only by its
  own create. Queue and writer: bounded, first in first out, no job lost or answered twice, complete shutdown, the
  exact outcome of each backpressure policy, a closed queue drains. Group commit: a job's statements are
  committed if and only if the job is answered with success, whatever fails. The pool: in every interleaving, content and answers are
  those of the accepted jobs run one at a time, and every answer has the type its caller waits for. Readers: conserved in every interleaving. Queries: the
  SQL reads back as the draft, keeps exactly the rows its predicate keeps, and orders totally; neither the text nor the \<^verbatim>\<open>Debug\<close> output of a query depends on the values it compares with; the validator's exact
  acceptance. Collections: the validator decides well-formedness; registration and migration are all or
  nothing, check what they claim to check, and a recorded migration never runs again; registry rows and field values
  round-trip, and \<^verbatim>\<open>f32\<close> fields are exact and refuse exactly what overflows. The statement cache is transparent. Macro: every expansion passes the run-time validator, its SQL constants agree with what the operations
  bind, and its descriptors identify schemas; put together, a derived collection under any history of inserts, lookups, updates and
  deletes is a map from keys to records. Faults: exactly the chosen operation fails, once. C interface: a
  connection lives exactly while it is referenced, no call on live pointers gets stuck, close is deferred,
  finished statements are inert, and the recorded status. Query gate: the three ways to run a query that it compares do the same
  work, its checksums depend on the workload alone and its percentiles are nearest ranks.

  \<^bold>\<open>Arguments.\<close> Code outside the repository is an argument of the definitions that call it: SQLCipher and \<^verbatim>\<open>rusqlite\<close> are the
  records \<open>Engine\<close>, \<open>ConnectionEngine\<close>, \<open>OpenEngine\<close> and \<open>FfiEngine\<close>; what a NaN becomes when converted; the package version; key providers, the real files and the VFS registry behind the fault file
  system, and SHA-256, Unicode upper case and the Rust parser behind the macro are arguments too. Theorems that need
  engine behaviour name it (\<open>transactional\<close>, \<open>checkpoint_law\<close>, \<open>cache_law\<close>, \<open>registry_engine\<close>: savepoints, rollback and commit as documented, on a
  view of committed and pending content; \<open>statement_law\<close>, \<open>lookup_law\<close>: the meaning of the four statement forms that the
  macro emits, on the rows of one table; \<open>row_law\<close>, \<open>dataset_law\<close>: a row query returns the first value of the first row, and what the script of the
  query gate leaves), and their witnesses instantiate it with an executable engine.

  \<^bold>\<open>Bounds.\<close> Integers have the widths of the source; sizes that the code only compares are naturals. No recursion has
  fuel: loops recurse on the data they consume, and the waiting loops of the queue are steps of a relation, with
  theorems that the writer's loop over a closed queue ends.

  \<^bold>\<open>Not modelled.\<close> Erasing secrets on drop; the inside of the engine's statement cache; raw handles; field accessors, \<^verbatim>\<open>Clone\<close> and
  \<^verbatim>\<open>Debug\<close> instances without a decision; memory-ordering of single atomics (steps are
  sequentially consistent); panics of user callbacks other than where the code catches them; the
  C cache around the cipher, build scripts and benchmarks.
\<close>

end
